(* ===== verification/Prelude.thy ===== *)
theory Prelude
  imports Main "HOL-Library.Word"
begin

unbundle bit_operations_syntax

text \<open>
  Shared vocabulary of the development: the machine integers and byte strings of the C++
  code, decimal printing (\<open>std::to_string\<close>), the rule collections the component theories
  fill, and the generic contract locales for machines that consume events and emit outputs
  (invariants, trace monitors, simulations).

  A \<open>std::string\<close> is a \<^typ>\<open>string\<close> (a list of 8-bit characters), a
  \<open>std::vector<uint8_t>\<close> or \<open>std::array<uint8_t, N>\<close> a list of 8-bit words. The two
  conversions below are the casts the code performs between \<open>char\<close> and \<open>uint8_t\<close>.
\<close>

section \<open>Rule collections\<close>

named_theorems engine_defs \<open>definitions of the session engine's helpers and handlers\<close>
named_theorems config_defs \<open>definitions of the configuration component\<close>
named_theorems addon_defs \<open>definitions of the addon adapter\<close>
named_theorems io_defs \<open>definitions of the transport actor\<close>

section \<open>Machine integers and byte strings\<close>

type_synonym byte = "8 word"
type_synonym u32 = "32 word"
type_synonym u64 = "64 word"

text \<open>\<open>static_cast<uint8_t>(c)\<close> and the reinterpretation of a byte as a \<open>char\<close>.\<close>

definition u8_of_char :: "char \<Rightarrow> byte" where
  "u8_of_char c = of_nat (of_char c)"

definition char_of_u8 :: "byte \<Rightarrow> char" where
  "char_of_u8 b = char_of (unat b)"

lemma u8_of_char_of_u8 [simp]: "u8_of_char (char_of_u8 b) = b"
proof -
  have "of_nat (unat b mod 256) = b"
    using unsigned_less [of b, where 'a = nat] by simp
  then show ?thesis
    by (simp add: u8_of_char_def char_of_u8_def)
qed

lemma char_of_u8_of_char [simp]: "char_of_u8 (u8_of_char c) = c"
proof -
  have "unat (of_nat (of_char c) :: byte) = of_char c mod 256"
    by (simp add: unat_of_nat)
  then show ?thesis
    unfolding u8_of_char_def char_of_u8_def by simp
qed

text \<open>A byte buffer handed to a protobuf \<open>bytes\<close> field, and read back.\<close>

definition string_of_bytes :: "byte list \<Rightarrow> string" where
  "string_of_bytes bs = map char_of_u8 bs"

definition bytes_of_string :: "string \<Rightarrow> byte list" where
  "bytes_of_string s = map u8_of_char s"

lemma bytes_of_string_of_bytes [simp]: "bytes_of_string (string_of_bytes bs) = bs"
  by (simp add: bytes_of_string_def string_of_bytes_def comp_def)

lemma string_of_bytes_of_string [simp]: "string_of_bytes (bytes_of_string s) = s"
  by (simp add: bytes_of_string_def string_of_bytes_def comp_def)

lemma length_string_of_bytes [simp]: "length (string_of_bytes bs) = length bs"
  by (simp add: string_of_bytes_def)

lemma length_bytes_of_string [simp]: "length (bytes_of_string s) = length s"
  by (simp add: bytes_of_string_def)

lemma string_of_bytes_inject [simp]: "string_of_bytes xs = string_of_bytes ys \<longleftrightarrow> xs = ys"
  by (metis bytes_of_string_of_bytes)

section \<open>Decimal printing\<close>

text \<open>\<open>std::to_string\<close> on an unsigned and on a signed integer.\<close>

fun nat_to_string :: "nat \<Rightarrow> string" where
  "nat_to_string n =
     (if n < 10 then [char_of (48 + n)]
      else nat_to_string (n div 10) @ [char_of (48 + n mod 10)])"

declare nat_to_string.simps [simp del]

definition int_to_string :: "int \<Rightarrow> string" where
  "int_to_string i =
     (if i < 0 then ''-'' @ nat_to_string (nat (- i)) else nat_to_string (nat i))"

definition u64_to_string :: "u64 \<Rightarrow> string" where
  "u64_to_string w = nat_to_string (unat w)"

section \<open>Generic list and option facts\<close>

lemma list_all2_u8_of_char:
  "list_all2 (\<lambda>c b. u8_of_char c = b) s bs \<longleftrightarrow> s = string_of_bytes bs"
proof
  assume "list_all2 (\<lambda>c b. u8_of_char c = b) s bs"
  then have "bytes_of_string s = bs"
    by (induction rule: list_all2_induct) (simp_all add: bytes_of_string_def)
  then show "s = string_of_bytes bs" by auto
next
  assume "s = string_of_bytes bs"
  then show "list_all2 (\<lambda>c b. u8_of_char c = b) s bs"
    by (simp add: string_of_bytes_def list_all2_conv_all_nth)
qed

section \<open>Machines that consume events and emit outputs\<close>

text \<open>
  Every component the fcitx thread drives is a function from an event and a state to the new
  state and a list of outputs; the callbacks run one after another, so a run folds it over
  the list of events.
\<close>

fun run :: "('e \<Rightarrow> 's \<Rightarrow> 's \<times> 'o list) \<Rightarrow> 's \<Rightarrow> 'e list \<Rightarrow> 's \<times> 'o list" where
  "run step s [] = (s, [])"
| "run step s (e # es) =
     (let (s', os) = step e s; (s'', os') = run step s' es in (s'', os @ os'))"

lemma fst_run_Cons [simp]: "fst (run step s (e # es)) = fst (run step (fst (step e s)) es)"
  by (simp add: Let_def split: prod.splits)

lemma snd_run_Cons:
  "snd (run step s (e # es)) = snd (step e s) @ snd (run step (fst (step e s)) es)"
  by (simp add: Let_def split: prod.splits)

text \<open>The same run with the outputs kept apart for each event, as a trace.\<close>

fun trace :: "('e \<Rightarrow> 's \<Rightarrow> 's \<times> 'o list) \<Rightarrow> 's \<Rightarrow> 'e list \<Rightarrow> ('e \<times> 'o list) list" where
  "trace step s [] = []"
| "trace step s (e # es) = (e, snd (step e s)) # trace step (fst (step e s)) es"

text \<open>A contract of every component: its invariant survives each event, hence every run.\<close>

locale machine =
  fixes step :: "'e \<Rightarrow> 's \<Rightarrow> 's \<times> 'o list"
    and inv :: "'s \<Rightarrow> bool"
  assumes preserve: "inv s \<Longrightarrow> inv (fst (step e s))"
begin

lemma run_inv: "inv s \<Longrightarrow> inv (fst (run step s es))"
proof (induction es arbitrary: s)
  case Nil
  then show ?case by simp
next
  case (Cons e es)
  then show ?case by (simp add: preserve del: run.simps)
qed

end

text \<open>
  A monitor watches the trace: it accepts or rejects each event with its outputs. When the
  monitor's state can be read off the machine's state, one step of agreement gives the
  acceptance of every trace.
\<close>

fun accepts :: "('m \<Rightarrow> 'e \<times> 'o list \<Rightarrow> 'm option) \<Rightarrow> 'm \<Rightarrow> ('e \<times> 'o list) list \<Rightarrow> 'm option"
where
  "accepts mon m [] = Some m"
| "accepts mon m (x # xs) =
     (case mon m x of None \<Rightarrow> None | Some m' \<Rightarrow> accepts mon m' xs)"

locale monitored_machine = machine step inv
  for step :: "'e \<Rightarrow> 's \<Rightarrow> 's \<times> 'o list" and inv :: "'s \<Rightarrow> bool" +
  fixes mon :: "'m \<Rightarrow> 'e \<times> 'o list \<Rightarrow> 'm option"
    and view :: "'s \<Rightarrow> 'm"
  assumes agree: "inv s \<Longrightarrow> mon (view s) (e, snd (step e s)) = Some (view (fst (step e s)))"
begin

lemma trace_accepted:
  "inv s \<Longrightarrow> accepts mon (view s) (trace step s es) = Some (view (fst (run step s es)))"
proof (induction es arbitrary: s)
  case Nil
  then show ?case by simp
next
  case (Cons e es)
  then show ?case by (simp add: agree preserve del: run.simps)
qed

end

text \<open>
  A functional refinement: the abstraction of a step is the abstract machine's step, and the
  abstraction of its outputs the abstract machine's outputs; runs agree likewise.
\<close>

locale refined_machine = machine step inv
  for step :: "'e \<Rightarrow> 's \<Rightarrow> 's \<times> 'o list" and inv :: "'s \<Rightarrow> bool" +
  fixes astep :: "'e \<Rightarrow> 'a \<Rightarrow> 'a \<times> 'p list"
    and abs :: "'s \<Rightarrow> 'a"
    and out :: "'o list \<Rightarrow> 'p list"
  assumes out_append: "out (xs @ ys) = out xs @ out ys"
    and out_Nil: "out [] = []"
    and simulates: "inv s \<Longrightarrow>
          astep e (abs s) = (abs (fst (step e s)), out (snd (step e s)))"
begin

lemma run_simulates:
  "inv s \<Longrightarrow> run astep (abs s) es = (abs (fst (run step s es)), out (snd (run step s es)))"
proof (induction es arbitrary: s)
  case Nil
  then show ?case by (simp add: out_Nil)
next
  case (Cons e es)
  then have "run astep (abs (fst (step e s))) es =
      (abs (fst (run step (fst (step e s)) es)), out (snd (run step (fst (step e s)) es)))"
    by (simp add: preserve)
  with Cons.prems show ?case
    by (simp add: simulates snd_run_Cons out_append Let_def del: run.simps(2))
       (simp add: simulates Let_def split: prod.splits)
qed

end

end
