(* ===== verification/Errors.thy ===== *)
theory Errors
  imports Prelude
begin

text \<open>
  \<open>src/src/addon/error.hpp\<close> and \<open>types.hpp\<close>: the error kinds with their labels, the
  error record, the result type \<open>std::expected<T, Error>\<close> as a sum with the error on the
  left, and the connection parameters.
\<close>

datatype ErrorKind = kConfig | kOpenSsl | kProtocolViolation | kTransport | kState

record Error =
  err_kind :: ErrorKind
  err_message :: string

type_synonym 'a Result = "Error + 'a"

definition makeError :: "ErrorKind \<Rightarrow> string \<Rightarrow> Error" where
  "makeError kind msg = \<lparr>err_kind = kind, err_message = msg\<rparr>"

fun errorKindName :: "ErrorKind \<Rightarrow> string" where
  "errorKindName kConfig = ''config''"
| "errorKindName kOpenSsl = ''openssl''"
| "errorKindName kProtocolViolation = ''protocol violation''"
| "errorKindName kTransport = ''transport''"
| "errorKindName kState = ''state''"

lemma makeError_sel [simp]:
  "err_kind (makeError k m) = k" "err_message (makeError k m) = m"
  by (simp_all add: makeError_def)

lemma makeError_inject [simp]: "makeError k m = makeError k' m' \<longleftrightarrow> k = k' \<and> m = m'"
  by (simp add: makeError_def)

type_synonym ContextId = u64

text \<open>\<open>connectTimeout\<close> is a \<open>std::chrono::milliseconds\<close>, a signed count.\<close>

record ConnectionConfig =
  socketPath :: string
  authToken :: string
  connectTimeout :: int

end
