(* ===== verification/Messages.thy ===== *)
theory Messages
  imports Errors
begin

text \<open>
  The messages of \<open>src/src/proto/scribe/v0/scribe.proto\<close> as the C++ code sees them: one
  record per message, the \<open>oneof payload\<close> of the envelope as a datatype whose first
  constructor is the unset payload. \<open>bytes\<close> and \<open>string\<close> fields are \<open>std::string\<close> in the
  generated classes. A received \<open>ErrorCode\<close> is an open proto3 enum, hence any 32-bit
  integer; the interrupt reasons are only ever set to the named values. The generated
  classes are not under \<open>src/\<close>: serialisation and parsing are parameters of the model.
\<close>

record ClientHelloMsg =
  ch_protocol_version :: string
  ch_client_name :: string
  ch_client_nonce :: string

record ServerHelloMsg =
  sh_protocol_version :: string
  sh_accepted :: bool
  sh_error_message :: string
  sh_server_nonce :: string
  sh_proof :: string

record StartSessionMsg =
  ss_session_id :: string

datatype InterruptReason =
    INTERRUPT_REASON_UNSPECIFIED
  | INTERRUPT_REASON_TOGGLE
  | INTERRUPT_REASON_FOCUS_LOST
  | INTERRUPT_REASON_FOCUS_CHANGED
  | INTERRUPT_REASON_INPUT_CONTEXT_DESTROYED
  | INTERRUPT_REASON_TRANSPORT_FAILURE

record InterruptSessionMsg =
  is_session_id :: string
  is_reason :: InterruptReason

record CommitTextMsg =
  ct_session_id :: string
  ct_sequence_no :: u64
  ct_text :: string

record VadTimeoutMsg =
  vt_session_id :: string

record ErrorMsg =
  em_session_id :: string
  em_code :: u32
  em_message :: string

datatype Envelope =
    PayloadNotSet
  | ClientHello ClientHelloMsg
  | ServerHello ServerHelloMsg
  | StartSession StartSessionMsg
  | InterruptSession InterruptSessionMsg
  | CommitTextPayload CommitTextMsg
  | VadTimeoutPayload VadTimeoutMsg
  | ErrorPayload ErrorMsg

end
