(* ===== verification/Util.thy ===== *)
theory Util
  imports Messages
begin

text \<open>
  \<open>src/src/addon/util.cpp\<close>. \<open>boost::uuids::to_string\<close> is a parameter; the copy into a
  fixed-size buffer returns the success flag together with the buffer's contents afterwards.
\<close>

definition kSessionIdSize :: nat where "kSessionIdSize = 16"

definition kNonceSize :: nat where "kNonceSize = 32"

type_synonym SessionId = "byte list"
type_synonym Nonce = "byte list"

definition sessionIdToLogString :: "(byte list \<Rightarrow> string) \<Rightarrow> SessionId \<Rightarrow> string" where
  "sessionIdToLogString uuidToString sid = uuidToString sid"

definition copyExactBytes :: "string \<Rightarrow> byte list \<Rightarrow> bool \<times> byte list" where
  "copyExactBytes input output =
     (if length input \<noteq> length output then (False, output)
      else (True, bytes_of_string input))"

lemma copyExactBytes_length [simp]: "length (snd (copyExactBytes input output)) = length output"
  by (simp add: copyExactBytes_def)

end
