(* ===== verification/Protocol.thy ===== *)
theory Protocol
  imports Util
begin

text \<open>
  \<open>src/src/addon/protocol.cpp\<close>: identifiers and nonces from OpenSSL's generator, the server
  proof, and the length-prefixed frames.

  The libraries the file calls are records of functions: \<open>OpenSSL\<close> (\<open>RAND_bytes\<close> with an
  explicit generator state, which fills a buffer of the requested size and returns a status;
  \<open>HMAC\<close> over SHA-256; \<open>CRYPTO_memcmp\<close>) and \<open>Protobuf\<close> (the generated envelope class).
  \<open>htonl\<close>, \<open>ntohl\<close> and \<open>memcpy\<close> of a \<open>uint32_t\<close> depend on the host's byte order, which is
  an argument too.
\<close>

section \<open>Library interfaces\<close>

record 'g OpenSSL =
  RAND_bytes :: "'g \<Rightarrow> nat \<Rightarrow> (int \<times> (nat \<Rightarrow> byte)) \<times> 'g"
  HMAC_sha256 :: "byte list \<Rightarrow> byte list \<Rightarrow> byte list option"
  CRYPTO_memcmp :: "byte list \<Rightarrow> byte list \<Rightarrow> int"

datatype Endian = LittleEndian | BigEndian

record Protobuf =
  ByteSizeLong :: "Envelope \<Rightarrow> nat"
  SerializeToArray :: "Envelope \<Rightarrow> byte list option"
  ParseFromArray :: "byte list \<Rightarrow> Envelope option"
  hostEndian :: Endian

text \<open>What the generated class documents for an envelope whose strings are valid UTF-8.\<close>

definition envelope_serialises :: "Protobuf \<Rightarrow> Envelope \<Rightarrow> bool" where
  "envelope_serialises pb e \<longleftrightarrow>
     (case SerializeToArray pb e of None \<Rightarrow> False
      | Some bs \<Rightarrow> length bs = ByteSizeLong pb e \<and> ParseFromArray pb bs = Some e)"

section \<open>Constants\<close>

definition kProtocolVersion :: string where "kProtocolVersion = ''scribe.v0''"

definition kClientName :: string where "kClientName = ''fcitx5-scribe''"

definition kServerProofLabel :: string where "kServerProofLabel = ''fcitx5-scribe/v0/server''"

definition kMaxFrameSize :: nat where "kMaxFrameSize = 64 * 1024"

definition maxInt :: nat where "maxInt = 2147483647"

section \<open>Identifiers and nonces\<close>

definition generateSessionId :: "'g OpenSSL \<Rightarrow> 'g \<Rightarrow> SessionId Result \<times> 'g" where
  "generateSessionId ssl g =
     (let ((rc, buf), g') = RAND_bytes ssl g kSessionIdSize;
          sessionId = map buf [0..<kSessionIdSize]
      in if rc \<noteq> 1 then (Inl (makeError kOpenSsl ''RAND_bytes failed for session id''), g')
         else let sessionId = sessionId[6 := (sessionId ! 6 AND 0x0f) OR 0x40];
                  sessionId = sessionId[8 := (sessionId ! 8 AND 0x3f) OR 0x80]
              in (Inr sessionId, g'))"

definition generateNonce :: "'g OpenSSL \<Rightarrow> 'g \<Rightarrow> Nonce Result \<times> 'g" where
  "generateNonce ssl g =
     (let ((rc, buf), g') = RAND_bytes ssl g kNonceSize;
          nonce = map buf [0..<kNonceSize]
      in if rc \<noteq> 1 then (Inl (makeError kOpenSsl ''RAND_bytes failed for nonce''), g')
         else (Inr nonce, g'))"

section \<open>Server proof\<close>

definition proofMessage :: "Nonce \<Rightarrow> Nonce \<Rightarrow> byte list" where
  "proofMessage clientNonce serverNonce =
     bytes_of_string kServerProofLabel @ clientNonce @ serverNonce"

definition computeServerProof ::
  "'g OpenSSL \<Rightarrow> string \<Rightarrow> Nonce \<Rightarrow> Nonce \<Rightarrow> byte list Result" where
  "computeServerProof ssl token clientNonce serverNonce =
     (let message = proofMessage clientNonce serverNonce
      in if length token > maxInt then Inl (makeError kOpenSsl ''token too large for HMAC'')
         else case HMAC_sha256 ssl (bytes_of_string token) message of
                None \<Rightarrow> Inl (makeError kOpenSsl ''HMAC computation failed'')
              | Some digest \<Rightarrow> Inr digest)"

text \<open>The nonces have a fixed size, so the authenticated message determines both of them.\<close>

lemma proofMessage_inject:
  assumes "length cn = length cn'"
  shows "proofMessage cn sn = proofMessage cn' sn' \<longleftrightarrow> cn = cn' \<and> sn = sn'"
  using assms by (simp add: proofMessage_def)

section \<open>Network byte order\<close>

definition bytesLE :: "u32 \<Rightarrow> byte list" where
  "bytesLE w = [ucast w, ucast (drop_bit 8 w), ucast (drop_bit 16 w), ucast (drop_bit 24 w)]"

definition u32OfLE :: "byte list \<Rightarrow> u32" where
  "u32OfLE bs = ucast (bs ! 0) OR push_bit 8 (ucast (bs ! 1)) OR
                push_bit 16 (ucast (bs ! 2)) OR push_bit 24 (ucast (bs ! 3))"

text \<open>The object representation of a \<open>uint32_t\<close>, written and read by \<open>memcpy\<close>.\<close>

fun storeU32 :: "Endian \<Rightarrow> u32 \<Rightarrow> byte list" where
  "storeU32 LittleEndian w = bytesLE w"
| "storeU32 BigEndian w = rev (bytesLE w)"

fun loadU32 :: "Endian \<Rightarrow> byte list \<Rightarrow> u32" where
  "loadU32 LittleEndian bs = u32OfLE bs"
| "loadU32 BigEndian bs = u32OfLE (rev bs)"

fun htonl :: "Endian \<Rightarrow> u32 \<Rightarrow> u32" where
  "htonl LittleEndian w = u32OfLE (rev (bytesLE w))"
| "htonl BigEndian w = w"

definition ntohl :: "Endian \<Rightarrow> u32 \<Rightarrow> u32" where
  "ntohl h = htonl h"

definition putFrameSize :: "Endian \<Rightarrow> u32 \<Rightarrow> byte list" where
  "putFrameSize h n = storeU32 h (htonl h n)"

definition getFrameSize :: "Endian \<Rightarrow> byte list \<Rightarrow> u32" where
  "getFrameSize h header = ntohl h (loadU32 h header)"

lemma length_bytesLE [simp]: "length (bytesLE w) = 4"
  by (simp add: bytesLE_def)

lemma byte_bit_beyond: "8 \<le> k \<Longrightarrow> \<not> bit (b :: byte) (k + n)"
  using bit_imp_le_length [of b "k + n"] by auto

lemma u32OfLE_bytesLE [simp]: "u32OfLE (bytesLE w) = w"
proof (rule bit_word_eqI)
  fix n :: nat
  assume "n < LENGTH(32)"
  then consider "n < 8" | "8 \<le> n" "n < 16" | "16 \<le> n" "n < 24" | "24 \<le> n" "n < 32"
    by fastforce
  then show "bit (u32OfLE (bytesLE w)) n = bit w n"
    by cases (auto simp: u32OfLE_def bytesLE_def bit_simps)
qed

lemma bytesLE_u32OfLE [simp]:
  assumes "length bs = 4"
  shows "bytesLE (u32OfLE bs) = bs"
proof -
  have "\<exists>b0 b1 b2 b3. bs = [b0, b1, b2, b3]"
    using assms by (auto simp: numeral_eq_Suc length_Suc_conv)
  then obtain b0 b1 b2 b3 where bs: "bs = [b0, b1, b2, b3]"
    by blast
  have "bytesLE (u32OfLE [b0, b1, b2, b3]) = [b0, b1, b2, b3]"
    by (auto simp: u32OfLE_def bytesLE_def bit_simps byte_bit_beyond intro!: bit_word_eqI)
  then show ?thesis by (simp add: bs)
qed

text \<open>On either host the size is written most significant byte first.\<close>

lemma putFrameSize_rev: "putFrameSize h n = rev (bytesLE n)"
  by (cases h) (simp_all add: putFrameSize_def)

lemma getFrameSize_rev: "length header = 4 \<Longrightarrow> getFrameSize h header = u32OfLE (rev header)"
  by (cases h) (simp_all add: getFrameSize_def ntohl_def)

section \<open>Length-prefixed frames\<close>

text \<open>
  The contract of a length prefix: a fixed four bytes, and reading undoes writing. A stream of
  frames then has one reading only.
\<close>

locale length_prefix =
  fixes put :: "u32 \<Rightarrow> byte list"
    and get :: "byte list \<Rightarrow> u32"
  assumes length_put: "length (put n) = 4"
    and get_put: "get (put n) = n"
begin

lemma take_put [simp]: "take 4 (put n @ rest) = put n"
  by (simp add: length_put)

lemma drop_put [simp]: "drop 4 (put n @ rest) = rest"
  by (simp add: length_put)

lemma put_append_inject: "put n @ r = put m @ r' \<longleftrightarrow> n = m \<and> r = r'"
  by (metis append_eq_append_conv get_put length_put)

lemma put_not_Nil [simp]: "put n \<noteq> []"
  using length_put [of n] by auto

lemma frame_unambiguous:
  assumes "length p < 2 ^ 32" and "length q < 2 ^ 32"
    and "put (of_nat (length p)) @ p @ r = put (of_nat (length q)) @ q @ s"
  shows "p = q \<and> r = s"
proof -
  from assms(3) have len: "(of_nat (length p) :: u32) = of_nat (length q)"
    and tail: "p @ r = q @ s"
    by (simp_all add: put_append_inject)
  have "unat (of_nat (length p) :: u32) = length p" "unat (of_nat (length q) :: u32) = length q"
    using assms(1,2) by (simp_all add: of_nat_inverse)
  with len have "length p = length q"
    by metis
  with tail show ?thesis by simp
qed

lemma frames_unambiguous:
  assumes "\<forall>p \<in> set ps \<union> set qs. length p < 2 ^ 32"
    and "concat (map (\<lambda>p. put (of_nat (length p)) @ p) ps) =
         concat (map (\<lambda>p. put (of_nat (length p)) @ p) qs)"
  shows "ps = qs"
  using assms
proof (induction ps arbitrary: qs)
  case Nil
  then show ?case by (cases qs) simp_all
next
  case (Cons p ps)
  from Cons.prems(2) have "qs \<noteq> []" by (cases qs) simp_all
  then obtain q qs' where qs: "qs = q # qs'"
    by (cases qs) auto
  have "p = q \<and> concat (map (\<lambda>p. put (of_nat (length p)) @ p) ps) =
        concat (map (\<lambda>p. put (of_nat (length p)) @ p) qs')"
    by (rule frame_unambiguous) (use Cons.prems qs in auto)
  with Cons.IH [of qs'] Cons.prems(1) show ?case
    by (simp add: qs)
qed

end

interpretation prefix: length_prefix "putFrameSize h" "getFrameSize h" for h
  by unfold_locales (simp_all add: putFrameSize_rev getFrameSize_rev)

definition encodeFrame :: "Protobuf \<Rightarrow> Envelope \<Rightarrow> byte list Result" where
  "encodeFrame pb envelope =
     (let payloadSize = ByteSizeLong pb envelope
      in if payloadSize > kMaxFrameSize
         then Inl (makeError kProtocolViolation ''protobuf frame too large'')
         else case SerializeToArray pb envelope of
                None \<Rightarrow> Inl (makeError kProtocolViolation ''failed to serialize protobuf envelope'')
              | Some payload \<Rightarrow> Inr (putFrameSize (hostEndian pb) (of_nat payloadSize) @ payload))"

definition decodeFrame :: "Protobuf \<Rightarrow> byte list \<Rightarrow> Envelope Result" where
  "decodeFrame pb frame =
     (case ParseFromArray pb frame of
        None \<Rightarrow> Inl (makeError kProtocolViolation ''invalid protobuf payload'')
      | Some envelope \<Rightarrow> Inr envelope)"

lemma unat_frameSize: "n \<le> kMaxFrameSize \<Longrightarrow> unat (of_nat n :: u32) = n"
  by (rule of_nat_inverse [OF refl]) (simp add: kMaxFrameSize_def)

lemma encodeFrame_serialises:
  assumes "envelope_serialises pb e" and "ByteSizeLong pb e \<le> kMaxFrameSize"
  obtains payload where "SerializeToArray pb e = Some payload"
    and "length payload = ByteSizeLong pb e" and "ParseFromArray pb payload = Some e"
    and "encodeFrame pb e =
      Inr (putFrameSize (hostEndian pb) (of_nat (length payload)) @ payload)"
  using assms by (auto simp: envelope_serialises_def encodeFrame_def split: option.splits)

section \<open>Properties\<close>

lemma uuid_version_bits:
  fixes x :: byte
  shows "(x AND 0x0f OR 0x40) AND 0xf0 = 0x40" and "(x AND 0x0f OR 0x40) AND 0x0f = x AND 0x0f"
  by (simp_all add: bit.conj_disj_distrib2 and.assoc)

lemma uuid_variant_bits:
  fixes x :: byte
  shows "(x AND 0x3f OR 0x80) AND 0xc0 = 0x80" and "(x AND 0x3f OR 0x80) AND 0x3f = x AND 0x3f"
  by (simp_all add: bit.conj_disj_distrib2 and.assoc)

text \<open>
  A generated session id is a random (version 4, variant 1) UUID: sixteen bytes with the
  version nibble 4 in byte 6 and the variant bits 10 in byte 8, every other bit being the one
  OpenSSL drew; when \<open>RAND_bytes\<close> does not return 1 the result is an OpenSSL error instead,
  and nothing else can happen.
\<close>

lemma generateSessionId_uuid4:
  assumes "RAND_bytes ssl g kSessionIdSize = ((rc, buf), g')"
  shows "snd (generateSessionId ssl g) = g' \<and>
    (case fst (generateSessionId ssl g) of
       Inl e \<Rightarrow> rc \<noteq> 1 \<and> err_kind e = kOpenSsl
     | Inr sid \<Rightarrow> rc = 1 \<and> length sid = 16 \<and>
         sid ! 6 AND 0xf0 = 0x40 \<and> sid ! 6 AND 0x0f = buf 6 AND 0x0f \<and>
         sid ! 8 AND 0xc0 = 0x80 \<and> sid ! 8 AND 0x3f = buf 8 AND 0x3f \<and>
         (\<forall>i \<in> {0..<16} - {6, 8}. sid ! i = buf i))"
  using assms
  by (cases "rc = 1")
     (simp_all add: generateSessionId_def kSessionIdSize_def Let_def uuid_version_bits
        uuid_variant_bits)



text \<open>
  C40. A byte stream has one reading only: when two sequences of envelopes are framed and their
  frames concatenate to the same bytes, the sequences are equal.
\<close>

theorem frame_stream_unambiguous:
  assumes "\<forall>e \<in> set es \<union> set es'. envelope_serialises pb e"
    and "list_all2 (\<lambda>e f. encodeFrame pb e = Inr f) es fs"
    and "list_all2 (\<lambda>e f. encodeFrame pb e = Inr f) es' fs'"
    and "concat fs = concat fs'"
  shows "es = es'"
proof -
  define pay where "pay e = the (SerializeToArray pb e)" for e
  have frames: "fs = map (\<lambda>p. putFrameSize (hostEndian pb) (of_nat (length p)) @ p) (map pay es) \<and>
      (\<forall>p \<in> set (map pay es). length p < 2 ^ 32) \<and>
      map (ParseFromArray pb) (map pay es) = map Some es"
    if "list_all2 (\<lambda>e f. encodeFrame pb e = Inr f) es fs"
      and "\<forall>e \<in> set es. envelope_serialises pb e" for es fs
    using that
    by (induction rule: list_all2_induct)
       (auto simp: encodeFrame_def envelope_serialises_def pay_def kMaxFrameSize_def Let_def
         split: option.splits if_splits)
  have "map pay es = map pay es'"
    by (rule prefix.frames_unambiguous [of _ _ "hostEndian pb"])
       (use frames [OF assms(2)] frames [OF assms(3)] assms(1,4) in auto)
  then have "map Some es = map Some es'"
    using frames [OF assms(2)] frames [OF assms(3)] assms(1) by (metis UnCI)
  then show ?thesis by simp
qed

theorem frame_stream_unambiguous_witness:
  "\<exists>pb f. encodeFrame pb PayloadNotSet = Inr f \<and> [PayloadNotSet] = [PayloadNotSet]"
proof -
  let ?pb = "\<lparr>ByteSizeLong = (\<lambda>e. 1), SerializeToArray = (\<lambda>e. Some [7]),
       ParseFromArray = (\<lambda>bs. Some PayloadNotSet), hostEndian = BigEndian\<rparr>"
  have ok: "envelope_serialises ?pb PayloadNotSet"
    by (simp add: envelope_serialises_def)
  have enc: "encodeFrame ?pb PayloadNotSet = Inr [0, 0, 0, 1, 7]"
    by (simp add: encodeFrame_def kMaxFrameSize_def putFrameSize_rev bytesLE_def)
  show ?thesis
    using frame_stream_unambiguous [of "[PayloadNotSet]" "[PayloadNotSet]" ?pb
        "[[0, 0, 0, 1, 7]]" "[[0, 0, 0, 1, 7]]"] ok enc by auto
qed

end
