(* ===== verification/Engine.thy ===== *)
theory Engine
  imports Protocol
begin

text \<open>
  \<open>src/src/addon/engine.hpp\<close> and \<open>engine.cpp\<close>: the session state machine. One definition per
  member function, in the order of the source; \<open>handle\<close> is the visitor over the event variant.

  The class mutates its members and appends to the effect vector it is given; the model
  returns the new state and the longer effect list. \<open>sessionIdGenerator_\<close> may have a state
  of its own (OpenSSL's generator does), which is the field \<open>genState\<close>. What the class gets
  from outside, the generator and boost's UUID printer, is the record \<open>EngineDeps\<close>.
\<close>

section \<open>Events, effects and state\<close>

datatype LogLevel = kDebug | kInfo

datatype ConnectionState = kDisconnected | kConnecting | kReady

datatype ConfigResult = NoConfig | ConfigOk ConnectionConfig | ConfigError Error

datatype Event =
    ConnectionConfigured ConfigResult
  | Toggle ContextId bool
  | FocusIn ContextId
  | FocusOut ContextId
  | ContextDestroyed ContextId
  | ConnectionAuthenticated
  | ConnectionClosed
  | ConnectionFailed Error
  | ConnectionCommitText CommitTextMsg
  | ConnectionVadTimeout VadTimeoutMsg
  | ConnectionErrorMessage ErrorMsg

datatype Effect =
    AcceptKey
  | Connect
  | Disconnect
  | SendEnvelope Envelope
  | CommitText ContextId string
  | Log LogLevel string

text \<open>The two enumerations carry the order of their declarations.\<close>

instantiation LogLevel :: linorder
begin

definition less_eq_LogLevel :: "LogLevel \<Rightarrow> LogLevel \<Rightarrow> bool" where
  "less_eq_LogLevel a b \<longleftrightarrow> a = kDebug \<or> b = kInfo"

definition less_LogLevel :: "LogLevel \<Rightarrow> LogLevel \<Rightarrow> bool" where
  "less_LogLevel a b \<longleftrightarrow> a = kDebug \<and> b = kInfo"

instance
proof
  fix a b c :: LogLevel
  show "a < b \<longleftrightarrow> a \<le> b \<and> \<not> b \<le> a"
    by (cases a; cases b) (simp_all add: less_eq_LogLevel_def less_LogLevel_def)
  show "a \<le> a" by (cases a) (simp_all add: less_eq_LogLevel_def)
  show "a \<le> b \<Longrightarrow> b \<le> c \<Longrightarrow> a \<le> c" by (cases b) (auto simp: less_eq_LogLevel_def)
  show "a \<le> b \<Longrightarrow> b \<le> a \<Longrightarrow> a = b" by (cases a; cases b) (simp_all add: less_eq_LogLevel_def)
  show "a \<le> b \<or> b \<le> a" by (cases a; cases b) (simp_all add: less_eq_LogLevel_def)
qed

end

fun connectionRank :: "ConnectionState \<Rightarrow> nat" where
  "connectionRank kDisconnected = 0"
| "connectionRank kConnecting = 1"
| "connectionRank kReady = 2"

lemma connectionRank_inject [simp]: "connectionRank a = connectionRank b \<longleftrightarrow> a = b"
  by (cases a; cases b) simp_all

instantiation ConnectionState :: linorder
begin

definition less_eq_ConnectionState :: "ConnectionState \<Rightarrow> ConnectionState \<Rightarrow> bool" where
  "less_eq_ConnectionState a b \<longleftrightarrow> connectionRank a \<le> connectionRank b"

definition less_ConnectionState :: "ConnectionState \<Rightarrow> ConnectionState \<Rightarrow> bool" where
  "less_ConnectionState a b \<longleftrightarrow> connectionRank a < connectionRank b"

instance
  by standard (auto simp: less_eq_ConnectionState_def less_ConnectionState_def)

end

record ContextState =
  alive :: bool

datatype AbortKind = kQuiet | kConnectionFailed

record SessionState =
  sess_context :: ContextId
  sess_id :: SessionId
  nextSequenceNo :: u64

record 'g EngineDeps =
  sessionIdGenerator :: "'g \<Rightarrow> SessionId Result \<times> 'g"
  uuidToString :: "byte list \<Rightarrow> string"

record 'g Engine =
  genState :: 'g
  contexts :: "ContextId \<rightharpoonup> ContextState"
  connectionConfig :: "ConnectionConfig option"
  connectionConfigError :: "Error option"
  focusedContext :: "ContextId option"
  pendingContext :: "ContextId option"
  session :: "SessionState option"
  connectionState :: ConnectionState

definition initEngine :: "'g \<Rightarrow> 'g Engine" where
  "initEngine g =
     \<lparr>genState = g, contexts = Map.empty, connectionConfig = None, connectionConfigError = None,
      focusedContext = None, pendingContext = None, session = None,
      connectionState = kDisconnected\<rparr>"

type_synonym effects = "Effect list"

section \<open>Helpers\<close>

definition bytesEqual :: "string \<Rightarrow> SessionId \<Rightarrow> bool" where
  "bytesEqual input sid \<longleftrightarrow>
     length input = length sid \<and> list_all2 (\<lambda>lhs rhs. u8_of_char lhs = rhs) input sid"

lemma bytesEqual_iff [simp]: "bytesEqual input sid \<longleftrightarrow> input = string_of_bytes sid"
  by (auto simp: bytesEqual_def list_all2_u8_of_char)

definition transcribing :: "'g Engine \<Rightarrow> bool" where
  [engine_defs]: "transcribing e \<longleftrightarrow> pendingContext e \<noteq> None \<or> session e \<noteq> None"

definition pushLog :: "LogLevel \<Rightarrow> string \<Rightarrow> effects \<Rightarrow> effects" where
  [engine_defs]: "pushLog level message fx = fx @ [Log level message]"

text \<open>\<open>contexts_[context]\<close> inserts a default record (alive) for an unknown context.\<close>

definition ensureContext :: "ContextId \<Rightarrow> 'g Engine \<Rightarrow> ContextState \<times> 'g Engine" where
  [engine_defs]: "ensureContext c e =
     (case contexts e c of
        Some st \<Rightarrow> (st, e)
      | None \<Rightarrow> let st = \<lparr>alive = True\<rparr> in (st, e\<lparr>contexts := (contexts e)(c \<mapsto> st)\<rparr>))"

text \<open>\<open>auto& context = ensureContext(c); context.alive = b;\<close> at the head of four handlers.\<close>

definition markContext :: "ContextId \<Rightarrow> bool \<Rightarrow> 'g Engine \<Rightarrow> 'g Engine" where
  "markContext c b e =
     (let (st, e) = ensureContext c e
      in e\<lparr>contexts := (contexts e)(c \<mapsto> st\<lparr>alive := b\<rparr>)\<rparr>)"

lemma ContextState_update [simp]: "st\<lparr>alive := b\<rparr> = \<lparr>alive = b\<rparr>" for st :: ContextState
  by (cases st) simp

lemma markContext_eq [simp]:
  "markContext c b e = e\<lparr>contexts := (contexts e)(c \<mapsto> \<lparr>alive = b\<rparr>)\<rparr>"
  by (cases "contexts e c") (simp_all add: markContext_def ensureContext_def Let_def)

definition contextFocused :: "ContextId \<Rightarrow> 'g Engine \<Rightarrow> bool" where
  [engine_defs]: "contextFocused c e \<longleftrightarrow> focusedContext e = Some c"

definition contextCanCommit :: "ContextId \<Rightarrow> 'g Engine \<Rightarrow> bool" where
  [engine_defs]: "contextCanCommit c e =
     (case contexts e c of
        Some st \<Rightarrow> alive st \<and> contextFocused c e
      | None \<Rightarrow> False)"

definition setFocusedContext :: "ContextId option \<Rightarrow> 'g Engine \<Rightarrow> 'g Engine" where
  [engine_defs]: "setFocusedContext c e = e\<lparr>focusedContext := c\<rparr>"

definition clearPending :: "'g Engine \<Rightarrow> 'g Engine" where
  [engine_defs]: "clearPending e = e\<lparr>pendingContext := None\<rparr>"

definition resetConnection :: "'g Engine \<Rightarrow> 'g Engine" where
  [engine_defs]: "resetConnection e = e\<lparr>connectionState := kDisconnected\<rparr>"

definition abortInteraction ::
  "string \<Rightarrow> AbortKind \<Rightarrow> 'g Engine \<Rightarrow> effects \<Rightarrow> 'g Engine \<times> effects" where
  [engine_defs]: "abortInteraction reason kind e fx =
     (let e = resetConnection e;
          e = clearPending e;
          e = e\<lparr>session := None\<rparr>
      in if kind = kConnectionFailed
         then (e, pushLog kInfo (''Transcription interrupted ('' @ reason @ '')'') fx)
         else (e, fx))"

definition interruptSession ::
  "InterruptReason \<Rightarrow> string \<Rightarrow> 'g Engine \<Rightarrow> effects \<Rightarrow> 'g Engine \<times> effects" where
  [engine_defs]: "interruptSession reason logReason e fx =
     (case session e of
        None \<Rightarrow> (clearPending e, fx)
      | Some s \<Rightarrow>
          let fx = (if connectionState e = kReady
                    then fx @ [SendEnvelope (InterruptSession
                           \<lparr>is_session_id = string_of_bytes (sess_id s), is_reason = reason\<rparr>)]
                    else fx);
              e = e\<lparr>session := None\<rparr>;
              e = clearPending e
          in (e, pushLog kInfo (''Transcription interrupted ('' @ logReason @ '')'') fx))"

definition tryStartPending ::
  "'g EngineDeps \<Rightarrow> 'g Engine \<Rightarrow> effects \<Rightarrow> 'g Engine \<times> effects" where
  [engine_defs]: "tryStartPending D e fx =
     (case pendingContext e of
        None \<Rightarrow> (e, fx)
      | Some c \<Rightarrow>
          if connectionState e \<noteq> kReady then (e, fx)
          else if \<not> contextCanCommit c e then (clearPending e, fx)
          else case sessionIdGenerator D (genState e) of
                 (Inl err, g) \<Rightarrow>
                   let e = e\<lparr>genState := g\<rparr>;
                       fx = pushLog kInfo
                              (''Cannot start transcription: '' @ err_message err) fx
                   in (clearPending e, fx)
               | (Inr sid, g) \<Rightarrow>
                   let e = e\<lparr>genState := g\<rparr>;
                       e = e\<lparr>session := Some \<lparr>sess_context = c, sess_id = sid,
                                              nextSequenceNo = 1\<rparr>\<rparr>;
                       e = clearPending e;
                       fx = fx @ [SendEnvelope (StartSession
                              \<lparr>ss_session_id = string_of_bytes sid\<rparr>)];
                       fx = pushLog kInfo (''Transcription started for session '' @
                              sessionIdToLogString (uuidToString D) sid) fx
                   in (e, fx))"

section \<open>Event handlers\<close>

definition handleConnectionConfigured ::
  "ConfigResult \<Rightarrow> 'g Engine \<Rightarrow> effects \<Rightarrow> 'g Engine \<times> effects" where
  [engine_defs]: "handleConnectionConfigured result e fx =
     (let hadActivity = (connectionState e \<noteq> kDisconnected \<or>
                         pendingContext e \<noteq> None \<or> session e \<noteq> None);
          (e, fx) = (if hadActivity
                     then let (e, fx) = abortInteraction
                                ''connection configuration changed'' kQuiet e fx
                          in (e, fx @ [Disconnect])
                     else (e, fx));
          e = e\<lparr>connectionConfig := None, connectionConfigError := None\<rparr>
      in case result of
           ConfigOk connection \<Rightarrow> (e\<lparr>connectionConfig := Some connection\<rparr>, fx)
         | ConfigError error \<Rightarrow> (e\<lparr>connectionConfigError := Some error\<rparr>, fx)
         | NoConfig \<Rightarrow> (e, fx))"

definition handleToggle ::
  "'g EngineDeps \<Rightarrow> ContextId \<Rightarrow> bool \<Rightarrow> 'g Engine \<Rightarrow> effects \<Rightarrow> 'g Engine \<times> effects" where
  [engine_defs]: "handleToggle D c focused e fx =
     (let e = markContext c True e;
          e = (if focused then setFocusedContext (Some c) e
               else if focusedContext e = Some c then setFocusedContext None e
               else e)
      in if session e \<noteq> None
         then let (e, fx) = interruptSession INTERRUPT_REASON_TOGGLE ''toggle'' e fx
              in (e, fx @ [AcceptKey])
         else if pendingContext e = Some c then (clearPending e, fx @ [AcceptKey])
         else if \<not> focused then (e, fx)
         else case connectionConfig e of
                None \<Rightarrow>
                  (case connectionConfigError e of
                     Some err \<Rightarrow> (e, pushLog kInfo (err_message err) fx)
                   | None \<Rightarrow> (e, pushLog kInfo
                       ''Cannot start transcription: connection is not configured'' fx))
              | Some _ \<Rightarrow>
                  let e = e\<lparr>pendingContext := Some c\<rparr>;
                      fx = fx @ [AcceptKey]
                  in case connectionState e of
                       kDisconnected \<Rightarrow> (e\<lparr>connectionState := kConnecting\<rparr>, fx @ [Connect])
                     | kConnecting \<Rightarrow> (e, fx)
                     | kReady \<Rightarrow> tryStartPending D e fx)"

definition handleFocusIn :: "ContextId \<Rightarrow> 'g Engine \<Rightarrow> effects \<Rightarrow> 'g Engine \<times> effects" where
  [engine_defs]: "handleFocusIn c e fx =
     (let e = markContext c True e;
          e = setFocusedContext (Some c) e;
          e = (case pendingContext e of
                 Some p \<Rightarrow> if p \<noteq> c then clearPending e else e
               | None \<Rightarrow> e)
      in case session e of
           Some s \<Rightarrow> if sess_context s \<noteq> c
             then interruptSession INTERRUPT_REASON_FOCUS_CHANGED ''focus changed'' e fx
             else (e, fx)
         | None \<Rightarrow> (e, fx))"

definition handleFocusOut :: "ContextId \<Rightarrow> 'g Engine \<Rightarrow> effects \<Rightarrow> 'g Engine \<times> effects" where
  [engine_defs]: "handleFocusOut c e fx =
     (let e = markContext c True e;
          e = (if focusedContext e = Some c then setFocusedContext None e else e);
          e = (if pendingContext e = Some c then clearPending e else e)
      in case session e of
           Some s \<Rightarrow> if sess_context s = c
             then interruptSession INTERRUPT_REASON_FOCUS_LOST ''focus lost'' e fx
             else (e, fx)
         | None \<Rightarrow> (e, fx))"

definition handleContextDestroyed ::
  "ContextId \<Rightarrow> 'g Engine \<Rightarrow> effects \<Rightarrow> 'g Engine \<times> effects" where
  [engine_defs]: "handleContextDestroyed c e fx =
     (let e = markContext c False e;
          e = (if focusedContext e = Some c then setFocusedContext None e else e);
          e = (if pendingContext e = Some c then clearPending e else e)
      in case session e of
           Some s \<Rightarrow> if sess_context s = c
             then interruptSession INTERRUPT_REASON_INPUT_CONTEXT_DESTROYED
                    ''input context destroyed'' e fx
             else (e, fx)
         | None \<Rightarrow> (e, fx))"

definition handleConnectionAuthenticated ::
  "'g EngineDeps \<Rightarrow> 'g Engine \<Rightarrow> effects \<Rightarrow> 'g Engine \<times> effects" where
  [engine_defs]: "handleConnectionAuthenticated D e fx =
     (if connectionState e \<noteq> kConnecting then (e, fx @ [Disconnect])
      else let e = e\<lparr>connectionState := kReady\<rparr>;
               fx = pushLog kInfo ''Transcriber connection ready'' fx
           in tryStartPending D e fx)"

definition handleConnectionClosed :: "'g Engine \<Rightarrow> effects \<Rightarrow> 'g Engine \<times> effects" where
  [engine_defs]: "handleConnectionClosed e fx =
     (let activeInteraction = (pendingContext e \<noteq> None \<or> session e \<noteq> None)
      in if \<not> activeInteraction \<and> connectionState e = kReady
         then (resetConnection e, pushLog kDebug ''Transcriber connection closed'' fx)
         else if connectionState e = kDisconnected \<and> \<not> activeInteraction then (e, fx)
         else abortInteraction ''transport disconnected'' kConnectionFailed e fx)"

definition handleConnectionFailed ::
  "Error \<Rightarrow> 'g Engine \<Rightarrow> effects \<Rightarrow> 'g Engine \<times> effects" where
  [engine_defs]: "handleConnectionFailed error e fx =
     (let fx = pushLog kInfo (''Transport failure ('' @ errorKindName (err_kind error) @
                 ''): '' @ err_message error) fx
      in abortInteraction ''transport failure'' kConnectionFailed e fx)"

definition handleCommitText ::
  "CommitTextMsg \<Rightarrow> 'g Engine \<Rightarrow> effects \<Rightarrow> 'g Engine \<times> effects" where
  [engine_defs]: "handleCommitText m e fx =
     (let ignore = (e, pushLog kDebug ''Ignoring CommitText for inactive session'' fx)
      in case session e of
        None \<Rightarrow> ignore
      | Some s \<Rightarrow>
          if \<not> bytesEqual (ct_session_id m) (sess_id s) then ignore
          else if ct_sequence_no m \<noteq> nextSequenceNo s
          then interruptSession INTERRUPT_REASON_TRANSPORT_FAILURE ''commit sequence mismatch'' e
                 (pushLog kInfo
                   (''Interrupting session after unexpected CommitText sequence '' @
                    u64_to_string (ct_sequence_no m) @ '', expected '' @
                    u64_to_string (nextSequenceNo s)) fx)
          else if (case contexts e (sess_context s) of None \<Rightarrow> True | Some st \<Rightarrow> \<not> alive st)
          then interruptSession INTERRUPT_REASON_INPUT_CONTEXT_DESTROYED
                 ''input context destroyed before commit'' e fx
          else if \<not> contextFocused (sess_context s) e
          then interruptSession INTERRUPT_REASON_FOCUS_LOST
                 ''input context lost focus before commit'' e fx
          else (e\<lparr>session := Some (s\<lparr>nextSequenceNo := nextSequenceNo s + 1\<rparr>)\<rparr>,
                fx @ [CommitText (sess_context s) (ct_text m)]))"

definition handleVadTimeout ::
  "'g EngineDeps \<Rightarrow> VadTimeoutMsg \<Rightarrow> 'g Engine \<Rightarrow> effects \<Rightarrow> 'g Engine \<times> effects" where
  [engine_defs]: "handleVadTimeout D m e fx =
     (let ignore = (e, pushLog kDebug ''Ignoring VadTimeout for inactive session'' fx)
      in case session e of
        None \<Rightarrow> ignore
      | Some s \<Rightarrow>
          if \<not> bytesEqual (vt_session_id m) (sess_id s) then ignore
          else let fx = pushLog kInfo (''Session '' @
                     sessionIdToLogString (uuidToString D) (sess_id s) @
                     '' ended with VAD timeout'') fx
               in (e\<lparr>session := None\<rparr>, fx))"

definition handleErrorEnvelope ::
  "'g EngineDeps \<Rightarrow> ErrorMsg \<Rightarrow> 'g Engine \<Rightarrow> effects \<Rightarrow> 'g Engine \<times> effects" where
  [engine_defs]: "handleErrorEnvelope D m e fx =
     (let ignore = (e, pushLog kDebug ''Ignoring Error for inactive session'' fx)
      in case session e of
        None \<Rightarrow> ignore
      | Some s \<Rightarrow>
          if \<not> bytesEqual (em_session_id m) (sess_id s) then ignore
          else let fx = pushLog kInfo (''Session '' @
                     sessionIdToLogString (uuidToString D) (sess_id s) @
                     '' failed with transcriber error '' @ int_to_string (sint (em_code m)) @
                     '': '' @ em_message m) fx
               in (e\<lparr>session := None\<rparr>, fx))"

text \<open>The overloads of \<open>handleEvent\<close> that unwrap the transcriber's messages.\<close>

definition handleConnectionCommitText ::
  "CommitTextMsg \<Rightarrow> 'g Engine \<Rightarrow> effects \<Rightarrow> 'g Engine \<times> effects" where
  [simp]: "handleConnectionCommitText commitText e fx = handleCommitText commitText e fx"

definition handleConnectionVadTimeout ::
  "'g EngineDeps \<Rightarrow> VadTimeoutMsg \<Rightarrow> 'g Engine \<Rightarrow> effects \<Rightarrow> 'g Engine \<times> effects" where
  [simp]: "handleConnectionVadTimeout D vadTimeout e fx = handleVadTimeout D vadTimeout e fx"

definition handleConnectionErrorMessage ::
  "'g EngineDeps \<Rightarrow> ErrorMsg \<Rightarrow> 'g Engine \<Rightarrow> effects \<Rightarrow> 'g Engine \<times> effects" where
  [simp]: "handleConnectionErrorMessage D error e fx = handleErrorEnvelope D error e fx"

fun handleEvent ::
  "'g EngineDeps \<Rightarrow> Event \<Rightarrow> 'g Engine \<Rightarrow> effects \<Rightarrow> 'g Engine \<times> effects" where
  "handleEvent D (ConnectionConfigured r) e fx = handleConnectionConfigured r e fx"
| "handleEvent D (Toggle c f) e fx = handleToggle D c f e fx"
| "handleEvent D (FocusIn c) e fx = handleFocusIn c e fx"
| "handleEvent D (FocusOut c) e fx = handleFocusOut c e fx"
| "handleEvent D (ContextDestroyed c) e fx = handleContextDestroyed c e fx"
| "handleEvent D ConnectionAuthenticated e fx = handleConnectionAuthenticated D e fx"
| "handleEvent D ConnectionClosed e fx = handleConnectionClosed e fx"
| "handleEvent D (ConnectionFailed err) e fx = handleConnectionFailed err e fx"
| "handleEvent D (ConnectionCommitText m) e fx = handleConnectionCommitText m e fx"
| "handleEvent D (ConnectionVadTimeout m) e fx = handleConnectionVadTimeout D m e fx"
| "handleEvent D (ConnectionErrorMessage m) e fx = handleConnectionErrorMessage D m e fx"

definition handle :: "'g EngineDeps \<Rightarrow> Event \<Rightarrow> 'g Engine \<Rightarrow> 'g Engine \<times> effects" where
  "handle D event e = handleEvent D event e []"

end
