(* ===== verification/Engine_Inv.thy ===== *)
theory Engine_Inv
  imports Engine
begin

text \<open>
  The invariant of the session engine, its preservation by every handler, and the safety
  properties that follow for every reachable state: one phase at a time (idle, pending while
  connecting, active while ready), with the focused and living context the user toggled.
\<close>

section \<open>The invariant\<close>

definition usableContext :: "ContextId \<Rightarrow> 'g Engine \<Rightarrow> bool" where
  "usableContext c e \<longleftrightarrow> focusedContext e = Some c \<and> contexts e c = Some \<lparr>alive = True\<rparr>"

definition sessionInv :: "'g Engine \<Rightarrow> bool" where
  "sessionInv e \<longleftrightarrow>
     (case session e of
        None \<Rightarrow> True
      | Some s \<Rightarrow> connectionState e = kReady \<and> usableContext (sess_context s) e)"

definition pendingInv :: "'g Engine \<Rightarrow> bool" where
  "pendingInv e \<longleftrightarrow>
     (case pendingContext e of
        None \<Rightarrow> True
      | Some c \<Rightarrow> connectionState e = kConnecting \<and> usableContext c e)"

definition configInv :: "'g Engine \<Rightarrow> bool" where
  "configInv e \<longleftrightarrow>
     (connectionState e = kDisconnected \<or> connectionConfig e \<noteq> None) \<and>
     (connectionConfig e = None \<or> connectionConfigError e = None)"

definition engineInv :: "'g Engine \<Rightarrow> bool" where
  "engineInv e \<longleftrightarrow> sessionInv e \<and> pendingInv e \<and> configInv e"

lemmas engineInv_defs = engineInv_def sessionInv_def pendingInv_def configInv_def
  usableContext_def

lemmas engine_splits = option.splits if_splits prod.splits sum.splits ConnectionState.splits
  ConfigResult.splits

lemma engineInv_init [simp]: "engineInv (initEngine g)"
  by (simp add: engineInv_defs initEngine_def)

section \<open>Preservation, handler by handler\<close>

lemma engineInv_configured:
  "engineInv e \<Longrightarrow> engineInv (fst (handleConnectionConfigured r e fx))"
  by (auto simp: engine_defs engineInv_defs Let_def split: engine_splits)

lemma engineInv_toggle: "engineInv e \<Longrightarrow> engineInv (fst (handleToggle D c f e fx))"
  by (auto simp: engine_defs engineInv_defs Let_def split: engine_splits)

lemma engineInv_focusIn: "engineInv e \<Longrightarrow> engineInv (fst (handleFocusIn c e fx))"
  by (auto simp: engine_defs engineInv_defs Let_def split: engine_splits)

lemma engineInv_focusOut: "engineInv e \<Longrightarrow> engineInv (fst (handleFocusOut c e fx))"
  by (auto simp: engine_defs engineInv_defs Let_def split: engine_splits)

lemma engineInv_destroyed: "engineInv e \<Longrightarrow> engineInv (fst (handleContextDestroyed c e fx))"
  by (auto simp: engine_defs engineInv_defs Let_def split: engine_splits)

lemma engineInv_authenticated:
  "engineInv e \<Longrightarrow> engineInv (fst (handleConnectionAuthenticated D e fx))"
  by (auto simp: engine_defs engineInv_defs Let_def split: engine_splits)

lemma engineInv_closed: "engineInv e \<Longrightarrow> engineInv (fst (handleConnectionClosed e fx))"
  by (auto simp: engine_defs engineInv_defs Let_def split: engine_splits)

lemma engineInv_failed: "engineInv e \<Longrightarrow> engineInv (fst (handleConnectionFailed err e fx))"
  by (auto simp: engine_defs engineInv_defs Let_def split: engine_splits)

lemma engineInv_commit: "engineInv e \<Longrightarrow> engineInv (fst (handleCommitText m e fx))"
  by (auto simp: engine_defs engineInv_defs Let_def split: engine_splits)

lemma engineInv_vad: "engineInv e \<Longrightarrow> engineInv (fst (handleVadTimeout D m e fx))"
  by (auto simp: engine_defs engineInv_defs Let_def split: engine_splits)

lemma engineInv_error: "engineInv e \<Longrightarrow> engineInv (fst (handleErrorEnvelope D m e fx))"
  by (auto simp: engine_defs engineInv_defs Let_def split: engine_splits)

lemmas engineInv_handlers = engineInv_configured engineInv_toggle engineInv_focusIn
  engineInv_focusOut engineInv_destroyed engineInv_authenticated engineInv_closed
  engineInv_failed engineInv_commit engineInv_vad engineInv_error

lemma engineInv_handle [simp]: "engineInv e \<Longrightarrow> engineInv (fst (handle D ev e))"
  by (cases ev) (simp_all add: handle_def engineInv_handlers)

interpretation engine: machine "handle D" engineInv for D :: "'g EngineDeps"
  by unfold_locales simp

text \<open>
  C13. Every state the engine can reach, by any sequence of events in any order, satisfies the
  invariant: an active session exists only on a ready connection, a pending start only while
  connecting; either belongs to the context that is focused and alive; a connection is only
  open or opening while a configuration is loaded; a configuration and a configuration error
  exclude each other.
\<close>

theorem engine_reachable_invariant:
  "engineInv (fst (run (handle D) (initEngine g) es))"
  by (rule engine.run_inv) simp

section \<open>What one event can do\<close>

lemma handle_commit:
  assumes "engineInv e"
  shows "CommitText c t \<in> set (snd (handle D ev e)) \<longleftrightarrow>
    (\<exists>m s. ev = ConnectionCommitText m \<and> session e = Some s \<and>
       ct_session_id m = string_of_bytes (sess_id s) \<and> ct_sequence_no m = nextSequenceNo s \<and>
       c = sess_context s \<and> t = ct_text m \<and> focusedContext e = Some c)"
  using assms
  by (cases ev) (auto simp: handle_def engine_defs engineInv_defs Let_def split: engine_splits)

lemma handle_accept:
  "AcceptKey \<in> set (snd (handle D ev e)) \<longleftrightarrow>
    (\<exists>c f. ev = Toggle c f \<and>
       (session e \<noteq> None \<or> pendingContext e = Some c \<or> f \<and> connectionConfig e \<noteq> None))"
  by (cases ev) (auto simp: handle_def engine_defs Let_def split: engine_splits)

definition exampleSession :: "unit Engine" where
  "exampleSession = (initEngine ())
     \<lparr>contexts := [7 \<mapsto> \<lparr>alive = True\<rparr>], focusedContext := Some 7,
      connectionConfig := Some \<lparr>socketPath = ''/s'', authToken = ''t'', connectTimeout = 250\<rparr>,
      connectionState := kReady,
      session := Some \<lparr>sess_context = 7, sess_id = replicate 16 65, nextSequenceNo = 1\<rparr>\<rparr>"

definition exampleDeps :: "unit EngineDeps" where
  "exampleDeps =
     \<lparr>sessionIdGenerator = (\<lambda>g. (Inr (replicate 16 65), g)), uuidToString = (\<lambda>b. ''id'')\<rparr>"

lemma exampleSession_inv: "engineInv exampleSession"
  by (simp add: exampleSession_def engineInv_defs initEngine_def)

lemma exampleSession_sel [simp]:
  "session exampleSession =
     Some \<lparr>sess_context = 7, sess_id = replicate 16 65, nextSequenceNo = 1\<rparr>"
  "focusedContext exampleSession = Some 7" "connectionState exampleSession = kReady"
  "pendingContext exampleSession = None"
  by (simp_all add: exampleSession_def initEngine_def)

text \<open>
  The connection state machine: a connection is requested exactly on the step from
  disconnected to connecting; the state rises only by a focused toggle (to connecting) or by
  an authentication report while connecting (to ready); it falls only to disconnected.
\<close>

lemma connection_state_machine:
  fixes D :: "'g EngineDeps" and e :: "'g Engine" and ev :: Event
  defines "e' \<equiv> fst (handle D ev e)"
  shows "(Connect \<in> set (snd (handle D ev e)) \<longleftrightarrow>
      connectionState e = kDisconnected \<and> connectionState e' = kConnecting) \<and>
    (connectionState e < connectionState e' \<longleftrightarrow>
      (connectionState e = kDisconnected \<and> connectionState e' = kConnecting \<and>
         (\<exists>c. ev = Toggle c True) \<or>
       connectionState e = kConnecting \<and> connectionState e' = kReady \<and>
         ev = ConnectionAuthenticated)) \<and>
    (connectionState e \<le> connectionState e' \<or> connectionState e' = kDisconnected)"
  unfolding e'_def
  by (cases ev)
     (auto simp: handle_def engine_defs Let_def less_ConnectionState_def
        less_eq_ConnectionState_def split: engine_splits)

text \<open>The session id a message of the transcriber carries.\<close>

definition messageSession :: "Event \<Rightarrow> string option" where
  "messageSession ev =
     (case ev of
        ConnectionCommitText m \<Rightarrow> Some (ct_session_id m)
      | ConnectionVadTimeout m \<Rightarrow> Some (vt_session_id m)
      | ConnectionErrorMessage m \<Rightarrow> Some (em_session_id m)
      | _ \<Rightarrow> None)"

text \<open>
  Messages of another session change nothing: a CommitText, VadTimeout or Error message
  whose session id is not the active one leaves the whole engine unchanged, and its only
  effect is one debug log line.
\<close>

lemma stale_message_ignored:
  assumes "messageSession ev = Some sid"
    and "map_option (string_of_bytes \<circ> sess_id) (session e) \<noteq> Some sid"
  shows "\<exists>text. handle D ev e = (e, [Log kDebug text])"
  using assms
  by (cases ev)
     (auto simp: messageSession_def handle_def engine_defs Let_def split: option.splits)

text \<open>
  Teardown: after the connection closed, failed or was reconfigured the engine is
  disconnected and not transcribing, whatever it was doing; a failure or close never asks for
  anything to be sent, and a reconfiguration asks for a disconnect exactly when there was
  activity.
\<close>

lemma teardown_resets:
  "\<forall>ev \<in> {ConnectionClosed, ConnectionFailed err, ConnectionConfigured r}.
     connectionState (fst (handle D ev e)) = kDisconnected \<and>
     \<not> transcribing (fst (handle D ev e)) \<and>
     (\<forall>x \<in> set (snd (handle D ev e)). case x of
        Log level text \<Rightarrow> True
      | Disconnect \<Rightarrow> ev = ConnectionConfigured r \<and>
          (connectionState e \<noteq> kDisconnected \<or> transcribing e)
      | _ \<Rightarrow> False)"
  by (auto simp: handle_def engine_defs Let_def split: engine_splits)

text \<open>
  A start succeeds: from any reachable disconnected and configured state, a toggle in a
  focused context followed by the authentication report opens the session of that context,
  with the generated id and sequence number 1, by exactly these effects in this order, as long
  as the id generator succeeds.
\<close>

lemma toggle_then_authenticated_starts:
  assumes "engineInv e" and "connectionState e = kDisconnected" and "connectionConfig e \<noteq> None"
    and "sessionIdGenerator D (genState e) = (Inr sid, g')"
  shows "\<exists>e'. run (handle D) e [Toggle c True, ConnectionAuthenticated] =
     (e', [AcceptKey, Connect, Log kInfo ''Transcriber connection ready'',
           SendEnvelope (StartSession \<lparr>ss_session_id = string_of_bytes sid\<rparr>),
           Log kInfo (''Transcription started for session '' @ uuidToString D sid)]) \<and>
     session e' = Some \<lparr>sess_context = c, sess_id = sid, nextSequenceNo = 1\<rparr> \<and>
     connectionState e' = kReady \<and> pendingContext e' = None"
  using assms
  by (auto simp: handle_def engine_defs engineInv_defs sessionIdToLogString_def Let_def
        split: option.splits)

end
