(* ===== verification/Engine_Spec.thy ===== *)
theory Engine_Spec
  imports Engine_Inv
begin

text \<open>
  The contract of the session engine as a smaller machine, and the proof that \<open>engine.cpp\<close>
  refines it. The specification has one phase instead of three members that must agree
  (connection state, pending context, session), one configuration status instead of two
  optionals, no table of context records and no liveness or focus checks: what a context is
  good for is decided by the focus alone.
\<close>

section \<open>The specification machine\<close>

datatype Phase =
    Offline
  | Dialing "ContextId option"
  | Online "SessionState option"

record 'g Spec =
  spGen :: 'g
  spConfig :: ConfigResult
  spFocus :: "ContextId option"
  spPhase :: Phase

definition specInterrupt :: "SessionState \<Rightarrow> InterruptReason \<Rightarrow> Effect" where
  "specInterrupt ss reason = SendEnvelope (InterruptSession
     \<lparr>is_session_id = string_of_bytes (sess_id ss), is_reason = reason\<rparr>)"

text \<open>Starting a session for a context on a ready connection.\<close>

definition specStart :: "'g EngineDeps \<Rightarrow> ContextId \<Rightarrow> 'g Spec \<Rightarrow> 'g Spec \<times> effects" where
  "specStart D c s =
     (case sessionIdGenerator D (spGen s) of
        (Inl _, g) \<Rightarrow> (s\<lparr>spGen := g, spPhase := Online None\<rparr>, [])
      | (Inr sid, g) \<Rightarrow>
          (s\<lparr>spGen := g, spPhase := Online (Some \<lparr>sess_context = c, sess_id = sid,
               nextSequenceNo = 1\<rparr>)\<rparr>,
           [SendEnvelope (StartSession \<lparr>ss_session_id = string_of_bytes sid\<rparr>)]))"

text \<open>A context stops being usable: whatever belongs to it ends.\<close>

definition specLeave ::
  "(ContextId \<Rightarrow> bool) \<Rightarrow> InterruptReason \<Rightarrow> 'g Spec \<Rightarrow> 'g Spec \<times> effects" where
  "specLeave gone reason s =
     (case spPhase s of
        Dialing (Some c) \<Rightarrow> if gone c then (s\<lparr>spPhase := Dialing None\<rparr>, []) else (s, [])
      | Online (Some ss) \<Rightarrow>
          if gone (sess_context ss)
          then (s\<lparr>spPhase := Online None\<rparr>, [specInterrupt ss reason]) else (s, [])
      | _ \<Rightarrow> (s, []))"

definition specToggle ::
  "'g EngineDeps \<Rightarrow> ContextId \<Rightarrow> bool \<Rightarrow> 'g Spec \<Rightarrow> 'g Spec \<times> effects" where
  "specToggle D c focused s =
     (case spPhase s of
        Online (Some ss) \<Rightarrow>
          (s\<lparr>spPhase := Online None\<rparr>, [specInterrupt ss INTERRUPT_REASON_TOGGLE, AcceptKey])
      | Online None \<Rightarrow>
          if focused then (let (s', fx) = specStart D c s in (s', AcceptKey # fx)) else (s, [])
      | Dialing p \<Rightarrow>
          if p = Some c then (s\<lparr>spPhase := Dialing None\<rparr>, [AcceptKey])
          else if focused then (s\<lparr>spPhase := Dialing (Some c)\<rparr>, [AcceptKey])
          else (s, [])
      | Offline \<Rightarrow>
          (case spConfig s of
             ConfigOk _ \<Rightarrow> if focused
               then (s\<lparr>spPhase := Dialing (Some c)\<rparr>, [AcceptKey, Connect]) else (s, [])
           | _ \<Rightarrow> (s, [])))"

text \<open>The active session with a given id, if there is one.\<close>

definition specActive :: "string \<Rightarrow> 'g Spec \<Rightarrow> SessionState option" where
  "specActive sid s =
     (case spPhase s of
        Online (Some ss) \<Rightarrow> if string_of_bytes (sess_id ss) = sid then Some ss else None
      | _ \<Rightarrow> None)"

definition specFocus :: "ContextId \<Rightarrow> bool \<Rightarrow> 'g Spec \<Rightarrow> 'g Spec" where
  "specFocus c focused s =
     s\<lparr>spFocus := if focused then Some c else if spFocus s = Some c then None else spFocus s\<rparr>"

fun specStep :: "'g EngineDeps \<Rightarrow> Event \<Rightarrow> 'g Spec \<Rightarrow> 'g Spec \<times> effects" where
  "specStep D (ConnectionConfigured r) s =
     (s\<lparr>spConfig := r, spPhase := Offline\<rparr>, if spPhase s = Offline then [] else [Disconnect])"
| "specStep D (Toggle c focused) s = specToggle D c focused (specFocus c focused s)"
| "specStep D (FocusIn c) s =
     specLeave (\<lambda>d. d \<noteq> c) INTERRUPT_REASON_FOCUS_CHANGED (specFocus c True s)"
| "specStep D (FocusOut c) s =
     specLeave (\<lambda>d. d = c) INTERRUPT_REASON_FOCUS_LOST (specFocus c False s)"
| "specStep D (ContextDestroyed c) s =
     specLeave (\<lambda>d. d = c) INTERRUPT_REASON_INPUT_CONTEXT_DESTROYED (specFocus c False s)"
| "specStep D ConnectionAuthenticated s =
     (case spPhase s of
        Dialing None \<Rightarrow> (s\<lparr>spPhase := Online None\<rparr>, [])
      | Dialing (Some c) \<Rightarrow> specStart D c s
      | _ \<Rightarrow> (s, [Disconnect]))"
| "specStep D ConnectionClosed s = (s\<lparr>spPhase := Offline\<rparr>, [])"
| "specStep D (ConnectionFailed _) s = (s\<lparr>spPhase := Offline\<rparr>, [])"
| "specStep D (ConnectionCommitText m) s =
     (case specActive (ct_session_id m) s of
        None \<Rightarrow> (s, [])
      | Some ss \<Rightarrow>
          if ct_sequence_no m = nextSequenceNo ss
          then (s\<lparr>spPhase := Online (Some (ss\<lparr>nextSequenceNo := nextSequenceNo ss + 1\<rparr>))\<rparr>,
                [CommitText (sess_context ss) (ct_text m)])
          else (s\<lparr>spPhase := Online None\<rparr>,
                [specInterrupt ss INTERRUPT_REASON_TRANSPORT_FAILURE]))"
| "specStep D (ConnectionVadTimeout m) s =
     (case specActive (vt_session_id m) s of
        None \<Rightarrow> (s, []) | Some _ \<Rightarrow> (s\<lparr>spPhase := Online None\<rparr>, []))"
| "specStep D (ConnectionErrorMessage m) s =
     (case specActive (em_session_id m) s of
        None \<Rightarrow> (s, []) | Some _ \<Rightarrow> (s\<lparr>spPhase := Online None\<rparr>, []))"

definition initSpec :: "'g \<Rightarrow> 'g Spec" where
  "initSpec g = \<lparr>spGen = g, spConfig = NoConfig, spFocus = None, spPhase = Offline\<rparr>"

section \<open>The abstraction\<close>

definition absPhase :: "'g Engine \<Rightarrow> Phase" where
  "absPhase e =
     (case connectionState e of
        kDisconnected \<Rightarrow> Offline
      | kConnecting \<Rightarrow> Dialing (pendingContext e)
      | kReady \<Rightarrow> Online (session e))"

definition absConfig :: "'g Engine \<Rightarrow> ConfigResult" where
  "absConfig e =
     (case connectionConfig e of
        Some c \<Rightarrow> ConfigOk c
      | None \<Rightarrow> (case connectionConfigError e of Some err \<Rightarrow> ConfigError err | None \<Rightarrow> NoConfig))"

definition absEngine :: "'g Engine \<Rightarrow> 'g Spec" where
  "absEngine e = \<lparr>spGen = genState e, spConfig = absConfig e, spFocus = focusedContext e,
     spPhase = absPhase e\<rparr>"

text \<open>Log lines are not part of the contract.\<close>

fun isLog :: "Effect \<Rightarrow> bool" where
  "isLog (Log _ _) = True"
| "isLog _ = False"

definition visible :: "effects \<Rightarrow> effects" where
  "visible fx = filter (\<lambda>x. \<not> isLog x) fx"

lemma visible_simps [simp]:
  "visible [] = []"
  "visible (x # fx) = (if isLog x then visible fx else x # visible fx)"
  "visible (fx @ gx) = visible fx @ visible gx"
  by (simp_all add: visible_def)

lemmas spec_defs = specStart_def specLeave_def specToggle_def specActive_def specFocus_def
  specInterrupt_def absEngine_def absPhase_def absConfig_def

section \<open>Simulation, handler by handler\<close>

definition simulated :: "'g EngineDeps \<Rightarrow> Event \<Rightarrow> 'g Engine \<Rightarrow> bool" where
  "simulated D ev e \<longleftrightarrow>
     specStep D ev (absEngine e) =
       (absEngine (fst (handle D ev e)), visible (snd (handle D ev e)))"

lemmas simulated_defs = simulated_def handle_def engine_defs engineInv_defs spec_defs

lemma simulated_configured: "engineInv e \<Longrightarrow> simulated D (ConnectionConfigured r) e"
  by (cases "connectionState e"; cases "session e"; cases "pendingContext e")
     (auto simp: simulated_defs Let_def split: engine_splits)

lemma simulated_toggle: "engineInv e \<Longrightarrow> simulated D (Toggle c f) e"
  by (cases "connectionState e"; cases "session e"; cases "pendingContext e")
     (auto simp: simulated_defs Let_def split: engine_splits)

lemma simulated_focusIn: "engineInv e \<Longrightarrow> simulated D (FocusIn c) e"
  by (cases "connectionState e"; cases "session e"; cases "pendingContext e")
     (auto simp: simulated_defs Let_def split: engine_splits)

lemma simulated_focusOut: "engineInv e \<Longrightarrow> simulated D (FocusOut c) e"
  by (cases "connectionState e"; cases "session e"; cases "pendingContext e")
     (auto simp: simulated_defs Let_def split: engine_splits)

lemma simulated_destroyed: "engineInv e \<Longrightarrow> simulated D (ContextDestroyed c) e"
  by (cases "connectionState e"; cases "session e"; cases "pendingContext e")
     (auto simp: simulated_defs Let_def split: engine_splits)

lemma simulated_authenticated: "engineInv e \<Longrightarrow> simulated D ConnectionAuthenticated e"
  by (cases "connectionState e"; cases "session e"; cases "pendingContext e")
     (auto simp: simulated_defs Let_def split: engine_splits)

lemma simulated_closed: "engineInv e \<Longrightarrow> simulated D ConnectionClosed e"
  by (cases "connectionState e"; cases "session e"; cases "pendingContext e")
     (auto simp: simulated_defs Let_def split: engine_splits)

lemma simulated_failed: "engineInv e \<Longrightarrow> simulated D (ConnectionFailed err) e"
  by (cases "connectionState e"; cases "session e"; cases "pendingContext e")
     (auto simp: simulated_defs Let_def split: engine_splits)

lemma simulated_commit: "engineInv e \<Longrightarrow> simulated D (ConnectionCommitText m) e"
  by (cases "connectionState e"; cases "session e"; cases "pendingContext e")
     (auto simp: simulated_defs Let_def split: engine_splits)

lemma simulated_vad: "engineInv e \<Longrightarrow> simulated D (ConnectionVadTimeout m) e"
  by (cases "connectionState e"; cases "session e"; cases "pendingContext e")
     (auto simp: simulated_defs Let_def split: engine_splits)

lemma simulated_error: "engineInv e \<Longrightarrow> simulated D (ConnectionErrorMessage m) e"
  by (cases "connectionState e"; cases "session e"; cases "pendingContext e")
     (auto simp: simulated_defs Let_def split: engine_splits)

lemmas simulated_handlers = simulated_configured simulated_toggle simulated_focusIn
  simulated_focusOut simulated_destroyed simulated_authenticated simulated_closed
  simulated_failed simulated_commit simulated_vad simulated_error

lemma handle_simulated: "engineInv e \<Longrightarrow> simulated D ev e"
  by (cases ev) (simp_all add: simulated_handlers)

interpretation refines: refined_machine "handle D" engineInv "specStep D" absEngine visible
  for D :: "'g EngineDeps"
  by unfold_locales (use handle_simulated in \<open>auto simp: simulated_def\<close>)

lemma absEngine_init [simp]: "absEngine (initEngine g) = initSpec g"
  by (simp add: spec_defs initSpec_def initEngine_def)

section \<open>Properties\<close>

text \<open>
  C10. The engine refines its contract: on every sequence of events from its initial state it
  emits, log lines aside, exactly the effects of the specification machine in the same order,
  and ends in a state whose abstraction is the specification's state. So the separate members
  of the class never disagree, and the checks of aliveness and focus that the contract leaves
  out never change an outcome.
\<close>

theorem engine_refines_spec:
  "run (specStep D) (initSpec g) es =
     (absEngine (fst (run (handle D) (initEngine g) es)),
      visible (snd (run (handle D) (initEngine g) es)))"
  using refines.run_simulates [of "initEngine g" D es] by simp

end
