(* ===== verification/Io.thy ===== *)
theory Io
  imports Protocol
begin

text \<open>
  \<open>src/src/addon/io.hpp\<close> and \<open>io.cpp\<close>: the transport actor.

  One worker thread runs coroutines over an \<open>io_context\<close>. A coroutine only gives up control at
  a \<open>co_await\<close>, so the model cuts each one there: a \<open>Task\<close> is a coroutine waiting for one
  asynchronous operation (or one that has been spawned and not begun), and \<open>resume\<close> runs it from
  there to its next \<open>co_await\<close> or its end. Which waiting coroutine continues next, and with
  which outcome, is not determined by the program; the step relation at the end allows every
  choice asio's documentation allows. An operation begun on an open socket may complete with
  success even when the socket is closed before the handler runs, because \<open>cancel\<close> and \<open>close\<close>
  do not take back a completion that is already queued; one begun on a closed socket fails.

  Undefined behaviour (reading an empty \<open>std::optional\<close>, \<open>pop_front\<close> on an empty deque) is
  the result \<^term>\<open>None\<close>. Callbacks scheduled on the fcitx dispatcher and writes handed to the
  socket are outputs.
\<close>

section \<open>State\<close>

datatype Command =
    ConnectCommand ConnectionConfig
  | DisconnectCommand
  | SendCommand "byte list"

datatype IoEvent =
    IoAuthenticated
  | IoClosed
  | IoFailure Error
  | IoCommitText CommitTextMsg
  | IoVadTimeout VadTimeoutMsg
  | IoErrorMessage ErrorMsg

datatype IoOut = Publish IoEvent | StartWrite "byte list"

datatype Task =
    ConnStart u64 ConnectionConfig
  | Connecting u64 ConnectionConfig
  | HelloWrite u64
  | HandshakeHeader u64
  | HandshakePayload u64 nat
  | ReadStart u64
  | ReadHeader u64
  | ReadPayload u64 nat
  | WriteStart u64
  | WriteFrame u64 "byte list"

text \<open>The completion of an operation: success with the bytes read, an error code (whether it
  is \<open>asio::error::eof\<close>, and its message), or an exception.\<close>

datatype Outcome = Completed "byte list" | Failed bool string | Threw string

record 'g IoLib =
  protobuf :: Protobuf
  openssl :: "'g OpenSSL"
  endpointError :: "string \<Rightarrow> string option"

record 'g Io =
  randState :: 'g
  stopping :: bool
  connected :: bool
  connectionActive :: bool
  writerRunning :: bool
  socketOpen :: bool
  generationCounter :: u64
  activeGeneration :: u64
  outgoingFrames :: "byte list list"
  currentConfig :: "ConnectionConfig option"
  clientNonce :: "Nonce option"
  commands :: "Command list"
  commandsOpen :: bool
  actorRunning :: bool
  contextStopped :: bool
  tasks :: "(Task \<times> bool) list"

definition initIo :: "'g \<Rightarrow> 'g Io" where
  "initIo g = \<lparr>randState = g, stopping = False, connected = False, connectionActive = False,
     writerRunning = False, socketOpen = False, generationCounter = 0, activeGeneration = 0,
     outgoingFrames = [], currentConfig = None, clientNonce = None, commands = [],
     commandsOpen = True, actorRunning = True, contextStopped = False, tasks = []\<rparr>"

definition commandCapacity :: nat where "commandCapacity = 128"

type_synonym outs = "IoOut list"

section \<open>Helpers\<close>

text \<open>The flag the mutex guards. A lock is held for one access only, so it orders nothing else.\<close>

definition isStopping :: "'g Io \<Rightarrow> bool" where
  [simp]: "isStopping io = stopping io"

definition setStopping :: "'g Io \<Rightarrow> 'g Io" where
  [simp]: "setStopping io = io\<lparr>stopping := True\<rparr>"

definition describeError :: "ErrorKind \<Rightarrow> string \<Rightarrow> string \<Rightarrow> Error" where
  [io_defs]: "describeError kind context msg = makeError kind (context @ '': '' @ msg)"

definition proofMatches :: "'g OpenSSL \<Rightarrow> string \<Rightarrow> byte list \<Rightarrow> bool" where
  "proofMatches ssl input proof \<longleftrightarrow>
     length input = length proof \<and> CRYPTO_memcmp ssl (bytes_of_string input) proof = 0"

text \<open>A coroutine that is spawned, or suspends on an operation of the socket. The flag says
  whether the operation can still succeed.\<close>

definition spawn :: "Task \<Rightarrow> 'g Io \<Rightarrow> 'g Io" where
  [io_defs]: "spawn t io = io\<lparr>tasks := tasks io @ [(t, True)]\<rparr>"

definition suspend :: "Task \<Rightarrow> 'g Io \<Rightarrow> 'g Io" where
  [io_defs]: "suspend t io = io\<lparr>tasks := tasks io @ [(t, socketOpen io)]\<rparr>"

definition publish :: "IoEvent \<Rightarrow> outs \<Rightarrow> outs" where
  [io_defs]: "publish ev out = out @ [Publish ev]"

definition closeConnection :: "Error option \<Rightarrow> bool \<Rightarrow> 'g Io \<Rightarrow> outs \<Rightarrow> 'g Io \<times> outs" where
  [io_defs]: "closeConnection error reportFailure io out =
     (let hadConnection = (connectionActive io \<or> connected io \<or> socketOpen io \<or>
                           writerRunning io)
      in if \<not> hadConnection then (io, out)
         else let wasConnected = connected io;
                  io = io\<lparr>connected := False, connectionActive := False, writerRunning := False,
                          activeGeneration := activeGeneration io + 1, outgoingFrames := [],
                          currentConfig := None, clientNonce := None, socketOpen := False\<rparr>
              in case (if reportFailure \<and> \<not> isStopping io then error else None) of
                   Some err \<Rightarrow> (io, publish (IoFailure err) out)
                 | None \<Rightarrow> if wasConnected then (io, publish IoClosed out) else (io, out))"

section \<open>Commands\<close>

fun handleCommand :: "Command \<Rightarrow> 'g Io \<Rightarrow> outs \<Rightarrow> 'g Io \<times> outs" where
  "handleCommand (ConnectCommand config) io out =
     (if isStopping io \<or> connectionActive io then (io, out)
      else let io = io\<lparr>connectionActive := True\<rparr>;
               io = io\<lparr>generationCounter := generationCounter io + 1\<rparr>;
               generation = generationCounter io
           in (spawn (ConnStart generation config) io, out))"
| "handleCommand DisconnectCommand io out = closeConnection None False io out"
| "handleCommand (SendCommand frame) io out =
     (if \<not> connected io \<or> \<not> socketOpen io then (io, out)
      else let io = io\<lparr>outgoingFrames := outgoingFrames io @ [frame]\<rparr>
           in if writerRunning io then (io, out)
              else let io = io\<lparr>writerRunning := True\<rparr>
                   in (spawn (WriteStart (activeGeneration io)) io, out))"

text \<open>
  The actor loop \<open>run()\<close>. \<open>actorRunning\<close> says that it waits in \<open>async_receive\<close>. A turn is one
  receive, what the body makes of it, and the test of \<open>stopping\<close> at the head of the loop. The
  channel delivers what it still holds after it is closed, and only then reports an error. The
  turn tells which command it took, if any.
\<close>

definition runHead :: "'g Io \<Rightarrow> 'g Io" where
  [simp]: "runHead io = io\<lparr>actorRunning := \<not> isStopping io\<rparr>"

definition receiveError :: "'g Io \<Rightarrow> 'g Io" where
  "receiveError io = (if isStopping io then io\<lparr>actorRunning := False\<rparr> else runHead io)"

definition receiveCommand :: "Command \<Rightarrow> 'g Io \<Rightarrow> 'g Io \<times> outs" where
  "receiveCommand c io = (let (io, out) = handleCommand c io [] in (runHead io, out))"

definition runTurn :: "'g Io \<Rightarrow> (Command option \<times> ('g Io \<times> outs)) option" where
  [simp]: "runTurn io =
     (if \<not> actorRunning io \<or> contextStopped io then None
      else case commands io of
             c # cs \<Rightarrow> Some (Some c, receiveCommand c (io\<lparr>commands := cs\<rparr>))
           | [] \<Rightarrow> if commandsOpen io then None else Some (None, (receiveError io, [])))"

section \<open>Handshake\<close>

definition clientHelloEnvelope :: "Nonce \<Rightarrow> Envelope" where
  "clientHelloEnvelope nonce = ClientHello \<lparr>ch_protocol_version = kProtocolVersion,
     ch_client_name = kClientName, ch_client_nonce = string_of_bytes nonce\<rparr>"

definition authenticate :: "'g IoLib \<Rightarrow> u64 \<Rightarrow> 'g Io \<Rightarrow> outs \<Rightarrow> 'g Io \<times> outs" where
  [io_defs]: "authenticate L generation io out =
     (if currentConfig io = None
      then closeConnection
             (Some (makeError kState ''handshake started without connection config'')) True io out
      else case generateNonce (openssl L) (randState io) of
             (Inl _, g) \<Rightarrow> closeConnection
               (Some (makeError kOpenSsl ''failed to generate client nonce'')) True
               (io\<lparr>randState := g\<rparr>) out
           | (Inr nonce, g) \<Rightarrow>
               let io = io\<lparr>randState := g, clientNonce := Some nonce\<rparr>
               in case encodeFrame (protobuf L) (clientHelloEnvelope nonce) of
                    Inl err \<Rightarrow> closeConnection (Some err) True io out
                  | Inr frame \<Rightarrow> (suspend (HelloWrite generation) io, out @ [StartWrite frame]))"

definition validateServerHello :: "'g IoLib \<Rightarrow> ServerHelloMsg \<Rightarrow> 'g Io \<Rightarrow> unit Result" where
  "validateServerHello L hello io =
     (if \<not> sh_accepted hello
      then Inl (makeError kProtocolViolation
             (if sh_error_message hello = [] then ''transcriber rejected handshake''
              else ''transcriber rejected handshake: '' @ sh_error_message hello))
      else if sh_protocol_version hello \<noteq> kProtocolVersion
      then Inl (makeError kProtocolViolation ''transcriber protocol version mismatch'')
      else case (currentConfig io, clientNonce io) of
             (Some config, Some nonce) \<Rightarrow>
               (let (ok, serverNonce) =
                      copyExactBytes (sh_server_nonce hello) (replicate kNonceSize 0)
                in if \<not> ok
                   then Inl (makeError kProtocolViolation
                          ''transcriber returned an invalid nonce'')
                   else case computeServerProof (openssl L) (authToken config) nonce
                               serverNonce of
                          Inl err \<Rightarrow> Inl err
                        | Inr expectedProof \<Rightarrow>
                            if \<not> proofMatches (openssl L) (sh_proof hello) expectedProof
                            then Inl (makeError kProtocolViolation
                                   ''transcriber authentication failed'')
                            else Inr ())
           | _ \<Rightarrow> Inl (makeError kState ''handshake state is incomplete''))"

section \<open>The coroutines, from one suspension to the next\<close>

definition startConnection ::
  "'g IoLib \<Rightarrow> u64 \<Rightarrow> ConnectionConfig \<Rightarrow> 'g Io \<Rightarrow> outs \<Rightarrow> 'g Io \<times> outs" where
  [io_defs]: "startConnection L generation config io out =
     (let io = io\<lparr>activeGeneration := generation\<rparr>;
          io = io\<lparr>currentConfig := Some config\<rparr>;
          io = io\<lparr>socketOpen := False\<rparr>
      in case endpointError L (socketPath config) of
           Some what \<Rightarrow> closeConnection (Some (makeError kTransport
               (''failed to connect to transcriber at '' @ socketPath config @ '': '' @ what)))
               True io out
         | None \<Rightarrow>
             let io = io\<lparr>socketOpen := True\<rparr>
             in (suspend (Connecting generation config) io, out))"

fun afterConnect ::
  "'g IoLib \<Rightarrow> u64 \<Rightarrow> ConnectionConfig \<Rightarrow> Outcome \<Rightarrow> 'g Io \<Rightarrow> outs \<Rightarrow> 'g Io \<times> outs" where
  "afterConnect L generation config (Failed eof msg) io out =
     closeConnection (Some (describeError kTransport
       (''failed to connect to transcriber at '' @ socketPath config) msg)) True io out"
| "afterConnect L generation config (Threw what) io out =
     closeConnection (Some (makeError kTransport
       (''failed to connect to transcriber at '' @ socketPath config @ '': '' @ what))) True io out"
| "afterConnect L generation config (Completed _) io out = authenticate L generation io out"

definition transportError :: "string \<Rightarrow> Outcome \<Rightarrow> Error" where
  "transportError context outcome =
     (case outcome of
        Failed _ msg \<Rightarrow> describeError kTransport context msg
      | Threw msg \<Rightarrow> describeError kTransport context msg
      | Completed _ \<Rightarrow> describeError kTransport context [])"

text \<open>The timed operations read \<open>currentConfig->connectTimeout\<close> when they begin.\<close>

fun afterHelloWrite :: "u64 \<Rightarrow> Outcome \<Rightarrow> 'g Io \<Rightarrow> outs \<Rightarrow> ('g Io \<times> outs) option" where
  "afterHelloWrite generation (Completed _) io out =
     (case currentConfig io of
        None \<Rightarrow> None
      | Some _ \<Rightarrow> Some (suspend (HandshakeHeader generation) io, out))"
| "afterHelloWrite generation failure io out =
     Some (closeConnection (Some (transportError ''failed to write ClientHello'' failure))
             True io out)"

definition invalidFrameSize :: "nat \<Rightarrow> bool" where
  "invalidFrameSize frameSize \<longleftrightarrow> frameSize = 0 \<or> frameSize > kMaxFrameSize"

fun afterHandshakeHeader ::
  "'g IoLib \<Rightarrow> u64 \<Rightarrow> Outcome \<Rightarrow> 'g Io \<Rightarrow> outs \<Rightarrow> ('g Io \<times> outs) option" where
  "afterHandshakeHeader L generation (Completed header) io out =
     (let frameSize = unat (getFrameSize (hostEndian (protobuf L)) header)
      in if invalidFrameSize frameSize
         then Some (closeConnection (Some (makeError kProtocolViolation
                ''invalid inbound handshake frame size'')) True io out)
         else case currentConfig io of
                None \<Rightarrow> None
              | Some _ \<Rightarrow> Some (suspend (HandshakePayload generation frameSize) io, out))"
| "afterHandshakeHeader L generation failure io out =
     Some (closeConnection
             (Some (transportError ''failed to read handshake frame length'' failure)) True io out)"

text \<open>The rest of \<open>runConnection\<close> once \<open>authenticate\<close> has succeeded.\<close>

definition connectionReady :: "u64 \<Rightarrow> 'g Io \<Rightarrow> outs \<Rightarrow> 'g Io \<times> outs" where
  [io_defs]: "connectionReady generation io out =
     (let io = io\<lparr>connected := True\<rparr>;
          out = publish IoAuthenticated out
      in (spawn (ReadStart generation) io, out))"

text \<open>The end of \<open>authenticate\<close>, with \<open>runConnection\<close>'s test of its result.\<close>

definition finishHandshake ::
  "'g IoLib \<Rightarrow> u64 \<Rightarrow> byte list \<Rightarrow> 'g Io \<Rightarrow> outs \<Rightarrow> 'g Io \<times> outs" where
  [io_defs]: "finishHandshake L generation payload io out =
     (case decodeFrame (protobuf L) payload of
        Inl err \<Rightarrow> closeConnection (Some err) True io out
      | Inr (ServerHello hello) \<Rightarrow>
          (case validateServerHello L hello io of
             Inl err \<Rightarrow> closeConnection (Some err) True io out
           | Inr _ \<Rightarrow>
               if generation \<noteq> activeGeneration io \<or> isStopping io \<or> \<not> socketOpen io
               then (io, out)
               else let io = io\<lparr>clientNonce := None\<rparr>
                    in connectionReady generation io out)
      | Inr _ \<Rightarrow> closeConnection (Some (makeError kProtocolViolation
                  ''expected ServerHello during handshake'')) True io out)"

fun afterHandshakePayload ::
  "'g IoLib \<Rightarrow> u64 \<Rightarrow> Outcome \<Rightarrow> 'g Io \<Rightarrow> outs \<Rightarrow> 'g Io \<times> outs" where
  "afterHandshakePayload L generation (Completed payload) io out =
     finishHandshake L generation payload io out"
| "afterHandshakePayload L generation failure io out =
     closeConnection (Some (transportError ''failed to read handshake frame'' failure))
       True io out"

text \<open>The head of the read loop.\<close>

definition readLoop :: "u64 \<Rightarrow> 'g Io \<Rightarrow> outs \<Rightarrow> 'g Io \<times> outs" where
  [io_defs]: "readLoop generation io out =
     (if \<not> isStopping io \<and> generation = activeGeneration io \<and> socketOpen io
      then (suspend (ReadHeader generation) io, out) else (io, out))"

fun afterReadHeader :: "'g IoLib \<Rightarrow> u64 \<Rightarrow> Outcome \<Rightarrow> 'g Io \<Rightarrow> outs \<Rightarrow> 'g Io \<times> outs" where
  "afterReadHeader L generation (Completed header) io out =
     (let frameSize = unat (getFrameSize (hostEndian (protobuf L)) header)
      in if invalidFrameSize frameSize
         then closeConnection (Some (makeError kProtocolViolation
                ''invalid inbound frame size'')) True io out
         else (suspend (ReadPayload generation frameSize) io, out))"
| "afterReadHeader L generation failure io out =
     (if (case failure of Failed eof _ \<Rightarrow> eof | _ \<Rightarrow> False) then closeConnection None False io out
      else closeConnection (Some (transportError ''failed to read frame length'' failure))
             True io out)"

fun afterReadPayload :: "'g IoLib \<Rightarrow> u64 \<Rightarrow> Outcome \<Rightarrow> 'g Io \<Rightarrow> outs \<Rightarrow> 'g Io \<times> outs" where
  "afterReadPayload L generation (Completed payload) io out =
     (case decodeFrame (protobuf L) payload of
        Inl err \<Rightarrow> closeConnection (Some err) True io out
      | Inr (CommitTextPayload m) \<Rightarrow> readLoop generation io (publish (IoCommitText m) out)
      | Inr (VadTimeoutPayload m) \<Rightarrow> readLoop generation io (publish (IoVadTimeout m) out)
      | Inr (ErrorPayload m) \<Rightarrow> readLoop generation io (publish (IoErrorMessage m) out)
      | Inr _ \<Rightarrow> closeConnection (Some (makeError kProtocolViolation
                  ''unexpected message from authenticated peer'')) True io out)"
| "afterReadPayload L generation failure io out =
     closeConnection (Some (transportError ''failed to read inbound frame'' failure)) True io out"

text \<open>The head of the write loop: the front frame is written and stays queued meanwhile.\<close>

definition writeLoop :: "u64 \<Rightarrow> 'g Io \<Rightarrow> outs \<Rightarrow> 'g Io \<times> outs" where
  [io_defs]: "writeLoop generation io out =
     (case outgoingFrames io of
        frame # _ \<Rightarrow>
          if \<not> isStopping io \<and> generation = activeGeneration io \<and> socketOpen io
          then (suspend (WriteFrame generation frame) io, out @ [StartWrite frame])
          else (io\<lparr>writerRunning := False\<rparr>, out)
      | [] \<Rightarrow> (io\<lparr>writerRunning := False\<rparr>, out))"

fun afterWrite :: "u64 \<Rightarrow> Outcome \<Rightarrow> 'g Io \<Rightarrow> outs \<Rightarrow> ('g Io \<times> outs) option" where
  "afterWrite generation (Completed _) io out =
     (case outgoingFrames io of
        [] \<Rightarrow> None
      | _ # frames \<Rightarrow> Some (writeLoop generation (io\<lparr>outgoingFrames := frames\<rparr>) out))"
| "afterWrite generation failure io out =
     Some (closeConnection (Some (transportError ''failed to write to transcriber'' failure))
             True (io\<lparr>writerRunning := False\<rparr>) out)"

fun resume :: "'g IoLib \<Rightarrow> Task \<Rightarrow> Outcome \<Rightarrow> 'g Io \<Rightarrow> ('g Io \<times> outs) option" where
  "resume L (ConnStart g config) r io = Some (startConnection L g config io [])"
| "resume L (Connecting g config) r io = Some (afterConnect L g config r io [])"
| "resume L (HelloWrite g) r io = afterHelloWrite g r io []"
| "resume L (HandshakeHeader g) r io = afterHandshakeHeader L g r io []"
| "resume L (HandshakePayload g n) r io = Some (afterHandshakePayload L g r io [])"
| "resume L (ReadStart g) r io = Some (readLoop g io [])"
| "resume L (ReadHeader g) r io = Some (afterReadHeader L g r io [])"
| "resume L (ReadPayload g n) r io = Some (afterReadPayload L g r io [])"
| "resume L (WriteStart g) r io = Some (writeLoop g io [])"
| "resume L (WriteFrame g frame) r io = afterWrite g r io []"

section \<open>The interface of the class\<close>

text \<open>\<open>concurrent_channel::try_send\<close>: a bounded queue that refuses when full or closed.\<close>

definition trySend :: "Command \<Rightarrow> 'g Io \<Rightarrow> bool \<times> 'g Io" where
  [io_defs]: "trySend c io =
     (if commandsOpen io \<and> length (commands io) < commandCapacity
      then (True, io\<lparr>commands := commands io @ [c]\<rparr>) else (False, io))"

definition ioConnect :: "ConnectionConfig \<Rightarrow> 'g Io \<Rightarrow> unit Result \<times> 'g Io" where
  [io_defs]: "ioConnect config io =
     (let (queued, io) = trySend (ConnectCommand config) io
      in if \<not> queued
         then (Inl (makeError kTransport
                 (''failed to queue connect command for socket '' @ socketPath config)), io)
         else (Inr (), io))"

definition ioDisconnect :: "'g Io \<Rightarrow> unit Result \<times> 'g Io" where
  [io_defs]: "ioDisconnect io =
     (let (queued, io) = trySend DisconnectCommand io
      in if \<not> queued then (Inl (makeError kTransport ''failed to queue disconnect command''), io)
         else (Inr (), io))"

definition ioSend :: "Protobuf \<Rightarrow> Envelope \<Rightarrow> 'g Io \<Rightarrow> unit Result \<times> 'g Io" where
  [io_defs]: "ioSend pb envelope io =
     (if \<not> connected io then (Inl (makeError kState ''transcriber connection not ready''), io)
      else case encodeFrame pb envelope of
             Inl err \<Rightarrow> (Inl err, io)
           | Inr frame \<Rightarrow>
               let (queued, io) = trySend (SendCommand frame) io
               in if \<not> queued
                  then (Inl (makeError kTransport ''failed to queue outbound frame''), io)
                  else (Inr (), io))"

text \<open>
  \<open>stop()\<close> runs on the fcitx thread while the worker goes on, so its last call, which halts the
  \<open>io_context\<close>, is a step of its own: handlers may run between the two, none after them.
  \<open>Io::~Io\<close> calls \<open>stop()\<close> and joins the worker, which returns from the halted context.
\<close>

definition stopIo :: "'g Io \<Rightarrow> 'g Io" where
  [io_defs]: "stopIo io = (setStopping io)\<lparr>commandsOpen := False, socketOpen := False\<rparr>"

definition haltContext :: "'g Io \<Rightarrow> 'g Io" where
  [io_defs]: "haltContext io = io\<lparr>contextStopped := True\<rparr>"

end
