(* ===== verification/Io_Safety.thy ===== *)
theory Io_Safety
  imports Io
begin

text \<open>
  The executions of the transport actor under every schedule: the step relation, reachable
  states, and what holds in all of them (authentication before any message is forwarded, bounded
  frames and commands, one terminal event per close), together with the two schedules on which
  the code's behaviour is undefined.
\<close>

section \<open>The step relation\<close>

text \<open>Which outcomes an operation can complete with; \<open>armed\<close> says it was begun on an open
  socket.\<close>

fun completes :: "Task \<Rightarrow> bool \<Rightarrow> Outcome \<Rightarrow> bool" where
  "completes (ConnStart _ _) armed r = (r = Completed [])"
| "completes (ReadStart _) armed r = (r = Completed [])"
| "completes (WriteStart _) armed r = (r = Completed [])"
| "completes (Connecting _ _) armed (Completed bs) = (armed \<and> bs = [])"
| "completes (Connecting _ _) armed _ = True"
| "completes t armed (Threw _) = False"
| "completes t armed (Failed _ _) = True"
| "completes (HandshakePayload _ n) armed (Completed bs) = (armed \<and> length bs = n)"
| "completes (ReadPayload _ n) armed (Completed bs) = (armed \<and> length bs = n)"
| "completes (HandshakeHeader _) armed (Completed bs) = (armed \<and> length bs = 4)"
| "completes (ReadHeader _) armed (Completed bs) = (armed \<and> length bs = 4)"
| "completes t armed (Completed bs) = (armed \<and> bs = [])"

datatype Label =
    Receive Command
  | ReceiveError
  | Resume Task Outcome
  | CallConnect ConnectionConfig
  | CallDisconnect
  | CallSend Envelope
  | CallStop
  | CallHalt

definition takeTask :: "nat \<Rightarrow> 'g Io \<Rightarrow> 'g Io" where
  "takeTask i io = io\<lparr>tasks := take i (tasks io) @ drop (Suc i) (tasks io)\<rparr>"

text \<open>A step leads to a new state with its outputs, or to undefined behaviour.\<close>

inductive ioStep :: "'g IoLib \<Rightarrow> 'g Io \<Rightarrow> Label \<Rightarrow> ('g Io \<times> outs) option \<Rightarrow> bool" for L where
  receive: "actorRunning io \<Longrightarrow> \<not> contextStopped io \<Longrightarrow> commands io = c # cs \<Longrightarrow>
     ioStep L io (Receive c) (Some (receiveCommand c (io\<lparr>commands := cs\<rparr>)))"
| receive_error: "actorRunning io \<Longrightarrow> \<not> contextStopped io \<Longrightarrow> commands io = [] \<Longrightarrow>
     \<not> commandsOpen io \<Longrightarrow>
     ioStep L io ReceiveError (Some (receiveError io, []))"
| continue: "\<not> contextStopped io \<Longrightarrow> i < length (tasks io) \<Longrightarrow> tasks io ! i = (t, armed) \<Longrightarrow> completes t armed r \<Longrightarrow>
     ioStep L io (Resume t r) (resume L t r (takeTask i io))"
| call_connect: "ioStep L io (CallConnect config) (Some (snd (ioConnect config io), []))"
| call_disconnect: "ioStep L io CallDisconnect (Some (snd (ioDisconnect io), []))"
| call_send: "ioStep L io (CallSend env) (Some (snd (ioSend (protobuf L) env io), []))"
| call_stop: "ioStep L io CallStop (Some (stopIo io, []))"
| call_halt: "ioStep L io CallHalt (Some (haltContext io, []))"

inductive_simps call_connect_step: "ioStep L io (CallConnect config) r"
inductive_simps call_disconnect_step: "ioStep L io CallDisconnect r"
inductive_simps call_send_step: "ioStep L io (CallSend env) r"

text \<open>Executions from the initial state, with what each step did, latest first.\<close>

inductive execution :: "'g IoLib \<Rightarrow> 'g Io \<Rightarrow> (Label \<times> outs) list \<Rightarrow> bool" for L where
  start: "execution L (initIo g) []"
| step: "execution L io tr \<Longrightarrow> ioStep L io l (Some (io', out)) \<Longrightarrow>
     execution L io' ((l, out) # tr)"

section \<open>Closing\<close>

lemma closeConnection_tasks [simp]:
  "tasks (fst (closeConnection err rep io out)) = tasks io"
  "commands (fst (closeConnection err rep io out)) = commands io"
  by (simp_all add: closeConnection_def publish_def Let_def split: option.split)

lemma closeConnection_tasksD:
  "closeConnection err rep io out = (io', out') \<Longrightarrow> tasks io' = tasks io"
  by (drule arg_cong [where f = "tasks \<circ> fst"]) simp

text \<open>
  Closing a connection leaves nothing of it behind, publishes at most one terminal event,
  and is idempotent: the failure when one is reported and the actor is not stopping, a close
  when an authenticated connection ends without one, nothing otherwise; a second close does
  nothing at all.
\<close>

lemma closeConnection_once:
  fixes err :: "Error option" and rep :: bool and io :: "'g Io"
  defines "io' \<equiv> fst (closeConnection err rep io [])"
  shows "\<not> connected io' \<and> \<not> socketOpen io' \<and> \<not> connectionActive io' \<and> \<not> writerRunning io' \<and>
    snd (closeConnection err rep io []) =
      (if \<not> (connectionActive io \<or> connected io \<or> socketOpen io \<or> writerRunning io) then []
       else if rep \<and> err \<noteq> None \<and> \<not> stopping io then [Publish (IoFailure (the err))]
       else if connected io then [Publish IoClosed] else []) \<and>
    closeConnection err' rep' io' out = (io', out)"
  unfolding io'_def
  by (auto simp: closeConnection_def publish_def Let_def split: option.split)

section \<open>Authentication\<close>

definition memcmp_exact :: "'g OpenSSL \<Rightarrow> bool" where
  "memcmp_exact ssl \<longleftrightarrow>
     (\<forall>a b. length a = length b \<longrightarrow> (CRYPTO_memcmp ssl a b = 0) = (a = b))"

lemma proofMatches_iff:
  "memcmp_exact ssl \<Longrightarrow> proofMatches ssl input proof \<longleftrightarrow> input = string_of_bytes proof"
  by (auto simp: proofMatches_def memcmp_exact_def)

text \<open>What an accepted ServerHello proves about its sender.\<close>

definition helloAuthentic :: "'g IoLib \<Rightarrow> ConnectionConfig \<Rightarrow> Nonce \<Rightarrow> ServerHelloMsg \<Rightarrow> bool" where
  "helloAuthentic L config nonce hello \<longleftrightarrow>
     sh_accepted hello \<and> sh_protocol_version hello = kProtocolVersion \<and>
     length (sh_server_nonce hello) = kNonceSize \<and> length (authToken config) \<le> maxInt \<and>
     HMAC_sha256 (openssl L) (bytes_of_string (authToken config))
       (proofMessage nonce (bytes_of_string (sh_server_nonce hello))) =
       Some (bytes_of_string (sh_proof hello))"

text \<open>
  A ServerHello is accepted exactly when it proves knowledge of the shared token: it is an
  acceptance of this protocol version, with a nonce of exactly 32 bytes and the HMAC over the
  label, this connection's client nonce and that server nonce under the configured token.
\<close>

lemma validate_iff:
  assumes "memcmp_exact (openssl L)"
    and "currentConfig io = Some config" and "clientNonce io = Some nonce"
  shows "validateServerHello L hello io = Inr () \<longleftrightarrow> helloAuthentic L config nonce hello"
  using assms
  by (auto simp: validateServerHello_def helloAuthentic_def copyExactBytes_def
      computeServerProof_def proofMatches_iff Let_def split: option.splits)

definition exampleHello :: ServerHelloMsg where
  "exampleHello = \<lparr>sh_protocol_version = kProtocolVersion, sh_accepted = True,
     sh_error_message = [], sh_server_nonce = string_of_bytes (replicate 32 9),
     sh_proof = string_of_bytes [1, 2, 3]\<rparr>"

definition exampleLib :: "unit IoLib" where
  "exampleLib =
     \<lparr>protobuf = \<lparr>ByteSizeLong = (\<lambda>e. 1), SerializeToArray = (\<lambda>e. Some [5]),
        ParseFromArray = (\<lambda>bs. if bs = [5] then Some (ServerHello exampleHello) else
          if bs = [6] then Some (VadTimeoutPayload \<lparr>vt_session_id = ''x''\<rparr>) else None),
        hostEndian = LittleEndian\<rparr>,
      openssl = \<lparr>RAND_bytes = (\<lambda>g n. ((1, \<lambda>i. 4), g)),
        HMAC_sha256 = (\<lambda>k m. if k = bytes_of_string ''tok'' then Some [1, 2, 3] else Some [0]),
        CRYPTO_memcmp = (\<lambda>a b. if a = b then 0 else 1)\<rparr>,
      endpointError = (\<lambda>path. None)\<rparr>"

definition exampleConfig :: ConnectionConfig where
  "exampleConfig = \<lparr>socketPath = ''/s'', authToken = ''tok'', connectTimeout = 5\<rparr>"

lemma exampleLib_memcmp: "memcmp_exact (openssl exampleLib)"
  by (simp add: memcmp_exact_def exampleLib_def)

section \<open>The control flow of the coroutines\<close>

text \<open>What a coroutine can be waiting for next, given what it waited for and what it put out.\<close>

inductive successor :: "Task \<Rightarrow> outs \<Rightarrow> Task \<Rightarrow> bool" where
  "successor (ConnStart g c) out (Connecting g c)"
| "successor (Connecting g c) out (HelloWrite g)"
| "successor (HelloWrite g) out (HandshakeHeader g)"
| "\<not> invalidFrameSize n \<Longrightarrow> successor (HandshakeHeader g) out (HandshakePayload g n)"
| "Publish IoAuthenticated \<in> set out \<Longrightarrow> successor (HandshakePayload g n) out (ReadStart g)"
| "successor (ReadStart g) out (ReadHeader g)"
| "\<not> invalidFrameSize n \<Longrightarrow> successor (ReadHeader g) out (ReadPayload g n)"
| "successor (ReadPayload g n) out (ReadHeader g)"
| "successor (WriteStart g) out (WriteFrame g f)"
| "successor (WriteFrame g f) out (WriteFrame g f')"

inductive_simps successor_authenticated: "successor (HandshakePayload g n) out (ReadStart g')"

definition continues :: "Task \<Rightarrow> outs \<Rightarrow> 'g Io \<Rightarrow> 'g Io \<Rightarrow> bool" where
  "continues t out io io' \<longleftrightarrow>
     tasks io' = tasks io \<or> (\<exists>x. tasks io' = tasks io @ [x] \<and> successor t out (fst x))"

lemma continues_refl [intro]: "continues t out io io"
  by (simp add: continues_def)

lemma continues_close:
  "closeConnection err rep io out' = (io', out) \<Longrightarrow> continues t out io io'"
  by (auto dest: closeConnection_tasksD simp: continues_def)

lemma continues_startConnection:
  "startConnection L g c io out' = (io', out) \<Longrightarrow> continues (ConnStart g c) out io io'"
  by (auto dest!: closeConnection_tasksD simp: startConnection_def continues_def suspend_def
      Let_def intro: successor.intros split: option.splits)

lemma continues_authenticate:
  "authenticate L g io out' = (io', out) \<Longrightarrow> continues (Connecting g c) out io io'"
  by (auto dest!: closeConnection_tasksD simp: authenticate_def continues_def suspend_def
      Let_def intro: successor.intros split: prod.splits sum.splits if_splits)

lemma continues_finishHandshake:
  "finishHandshake L g payload io out' = (io', out) \<Longrightarrow>
     continues (HandshakePayload g n) out io io'"
  by (auto dest!: closeConnection_tasksD simp: finishHandshake_def connectionReady_def continues_def spawn_def
      publish_def Let_def successor_authenticated
      split: sum.splits Envelope.splits unit.splits if_splits)

lemma continues_readLoop:
  "readLoop g io out' = (io', out) \<Longrightarrow> continues (ReadStart g) out io io'"
  "readLoop g io out' = (io', out) \<Longrightarrow> continues (ReadPayload g n) out io io'"
  by (auto simp: readLoop_def continues_def suspend_def intro: successor.intros split: if_splits)

lemma continues_writeLoop:
  "writeLoop g io out' = (io', out) \<Longrightarrow> continues (WriteStart g) out io io'"
  "writeLoop g (io\<lparr>outgoingFrames := fs\<rparr>) out' = (io', out) \<Longrightarrow>
     continues (WriteFrame g f) out io io'"
  by (auto simp: writeLoop_def continues_def suspend_def intro: successor.intros
      split: list.splits if_splits)

lemma continues_writeFailure:
  "closeConnection err rep (io\<lparr>writerRunning := False\<rparr>) out' = (io', out) \<Longrightarrow>
     continues t out io io'"
  by (auto dest: closeConnection_tasksD simp: continues_def)

lemma continues_suspend:
  "successor t out t' \<Longrightarrow> continues t out io (suspend t' io)"
  by (auto simp: continues_def suspend_def)

lemmas continues_rules = continues_close continues_startConnection continues_authenticate
  continues_finishHandshake continues_readLoop continues_writeLoop continues_writeFailure
  continues_suspend

lemma resume_continues:
  assumes "resume L t r io = Some (io', out)"
  shows "continues t out io io'"
  using assms
  by (cases t; cases r)
     (auto simp: Let_def intro: continues_rules successor.intros
        split: option.splits sum.splits Envelope.splits if_splits list.splits Outcome.splits)

lemma receiveCommand_sel [simp]:
  "tasks (fst (receiveCommand c io)) = tasks (fst (handleCommand c io []))"
  "commands (fst (receiveCommand c io)) = commands (fst (handleCommand c io []))"
  "currentConfig (fst (receiveCommand c io)) = currentConfig (fst (handleCommand c io []))"
  "snd (receiveCommand c io) = snd (handleCommand c io [])"
  by (simp_all add: receiveCommand_def split_beta)

lemma receiveError_sel [simp]:
  "tasks (receiveError io) = tasks io" "commands (receiveError io) = commands io"
  "currentConfig (receiveError io) = currentConfig io"
  by (simp_all add: receiveError_def)

lemma handleCommand_tasks:
  "set (tasks (fst (handleCommand c io out))) \<subseteq> set (tasks io) \<union>
     {(ConnStart g cfg, True) | g cfg. True} \<union> {(WriteStart g, True) | g. True}"
  by (cases c) (auto simp: spawn_def Let_def)

lemma takeTask_tasks: "set (tasks (takeTask i io)) \<subseteq> set (tasks io)"
  by (auto simp: takeTask_def dest: in_set_takeD in_set_dropD)

section \<open>What one step publishes\<close>

text \<open>The envelope a forwarded message stands for.\<close>

fun eventEnvelope :: "IoEvent \<Rightarrow> Envelope option" where
  "eventEnvelope (IoCommitText m) = Some (CommitTextPayload m)"
| "eventEnvelope (IoVadTimeout m) = Some (VadTimeoutPayload m)"
| "eventEnvelope (IoErrorMessage m) = Some (ErrorPayload m)"
| "eventEnvelope _ = None"

lemma close_publishes:
  "closeConnection err rep io out = (io', out') \<Longrightarrow> Publish ev \<in> set out' \<Longrightarrow>
     Publish ev \<in> set out \<or> ev = IoClosed \<or> (\<exists>e. ev = IoFailure e)"
  by (auto simp: closeConnection_def publish_def Let_def split: option.splits if_splits)

lemma readLoop_outs [simp]: "snd (readLoop g io out) = out"
  by (simp add: readLoop_def)

lemma readLoop_publishes: "readLoop g io out = (io', out') \<Longrightarrow> out' = out"
  by (drule arg_cong [where f = snd]) simp

lemma writeLoop_publishes:
  "writeLoop g io out = (io', out') \<Longrightarrow> Publish ev \<in> set out' \<Longrightarrow> Publish ev \<in> set out"
  by (auto simp: writeLoop_def split: list.splits if_splits)

lemma resume_message:
  assumes "resume L t r io = Some (io', out)" and "Publish ev \<in> set out"
    and "eventEnvelope ev = Some env"
  shows "\<exists>g n payload. t = ReadPayload g n \<and> r = Completed payload \<and>
    decodeFrame (protobuf L) payload = Inr env"
  using assms
  by (cases t; cases r)
     (auto simp: Let_def startConnection_def authenticate_def finishHandshake_def connectionReady_def publish_def
        dest!: close_publishes readLoop_publishes writeLoop_publishes
        split: option.splits sum.splits Envelope.splits if_splits list.splits Outcome.splits
          prod.splits unit.splits)

lemma resume_authenticated:
  assumes "resume L t r io = Some (io', out)" and "Publish IoAuthenticated \<in> set out"
  shows "\<exists>g n payload hello. t = HandshakePayload g n \<and> r = Completed payload \<and>
    decodeFrame (protobuf L) payload = Inr (ServerHello hello) \<and>
    validateServerHello L hello io = Inr () \<and>
    g = activeGeneration io \<and> \<not> stopping io \<and> socketOpen io"
  using assms
  by (cases t; cases r)
     (auto simp: Let_def startConnection_def authenticate_def finishHandshake_def connectionReady_def publish_def
        dest!: close_publishes readLoop_publishes writeLoop_publishes
        split: option.splits sum.splits Envelope.splits if_splits list.splits Outcome.splits
          prod.splits unit.splits)

lemma handleCommand_publishes:
  "Publish ev \<in> set (snd (handleCommand c io [])) \<Longrightarrow> ev = IoClosed"
  by (cases c) (auto simp: closeConnection_def publish_def Let_def split: if_splits)

lemma receiveCommand_publishes:
  "receiveCommand c io = (io', out) \<Longrightarrow> Publish ev \<in> set out \<Longrightarrow> ev = IoClosed"
  by (metis handleCommand_publishes receiveCommand_sel(4) snd_conv)

lemma resume_commands:
  assumes "resume L t r io = Some (io', out)"
  shows "commands io' = commands io"
  using assms
  by (cases t; cases r)
     (auto simp: Let_def startConnection_def authenticate_def finishHandshake_def connectionReady_def readLoop_def
        writeLoop_def suspend_def spawn_def
        dest!: arg_cong [where f = "commands \<circ> fst" and x = "closeConnection _ _ _ _"]
        split: option.splits sum.splits Envelope.splits if_splits list.splits Outcome.splits
          prod.splits unit.splits)

section \<open>Every execution\<close>

definition authenticatedGenerations :: "(Label \<times> outs) list \<Rightarrow> u64 set" where
  "authenticatedGenerations tr =
     {g. \<exists>n r out. (Resume (HandshakePayload g n) r, out) \<in> set tr \<and>
           Publish IoAuthenticated \<in> set out}"

lemma authenticatedGenerations_mono:
  "authenticatedGenerations tr \<subseteq> authenticatedGenerations (x # tr)"
  by (auto simp: authenticatedGenerations_def)

fun taskOk :: "u64 set \<Rightarrow> Task \<Rightarrow> bool" where
  "taskOk G (HandshakePayload g n) = (\<not> invalidFrameSize n)"
| "taskOk G (ReadPayload g n) = (\<not> invalidFrameSize n \<and> g \<in> G)"
| "taskOk G (ReadStart g) = (g \<in> G)"
| "taskOk G (ReadHeader g) = (g \<in> G)"
| "taskOk G _ = True"

lemma taskOk_mono: "taskOk G t \<Longrightarrow> G \<subseteq> G' \<Longrightarrow> taskOk G' t"
  by (cases t) auto

lemma taskOk_successor:
  assumes "successor t out t'" and "taskOk (authenticatedGenerations tr) t"
  shows "taskOk (authenticatedGenerations ((Resume t r, out) # tr)) t'"
  using assms
  by (induction rule: successor.induct)
     (auto simp: authenticatedGenerations_def)

definition executionInv :: "'g Io \<Rightarrow> (Label \<times> outs) list \<Rightarrow> bool" where
  "executionInv io tr \<longleftrightarrow>
     (\<forall>x \<in> set (tasks io). taskOk (authenticatedGenerations tr) (fst x)) \<and>
     length (commands io) \<le> commandCapacity"

lemma executionInv_resume:
  assumes inv: "executionInv io tr" and i: "i < length (tasks io)" "tasks io ! i = (t, armed)"
    and res: "resume L t r (takeTask i io) = Some (io', out)"
  shows "executionInv io' ((Resume t r, out) # tr)"
proof -
  let ?G = "authenticatedGenerations ((Resume t r, out) # tr)"
  have "(t, armed) \<in> set (tasks io)" using i by (metis nth_mem)
  with inv have ok: "taskOk (authenticatedGenerations tr) t"
    by (auto simp: executionInv_def)
  have old: "taskOk ?G (fst x)" if "x \<in> set (tasks (takeTask i io))" for x
  proof (rule taskOk_mono [OF _ authenticatedGenerations_mono])
    show "taskOk (authenticatedGenerations tr) (fst x)"
      using inv that takeTask_tasks [of i io] unfolding executionInv_def by blast
  qed
  have "commands io' = commands io"
    using resume_commands [OF res] by (simp add: takeTask_def)
  moreover have "taskOk ?G (fst x)" if "x \<in> set (tasks io')" for x
    using resume_continues [OF res] taskOk_successor [OF _ ok, of out _ r] old that
    unfolding continues_def by (cases x) auto
  ultimately show ?thesis
    using inv by (simp add: executionInv_def)
qed

lemma executionInv_receive:
  assumes "executionInv io tr" and "commands io = c # cs"
  shows "executionInv (fst (receiveCommand c (io\<lparr>commands := cs\<rparr>)))
    ((Receive c, out) # tr)"
proof -
  have "commands (fst (handleCommand c (io\<lparr>commands := cs\<rparr>) [])) = cs"
    by (cases c) (simp_all add: spawn_def Let_def)
  moreover have "authenticatedGenerations ((Receive c, out) # tr) = authenticatedGenerations tr"
    by (auto simp: authenticatedGenerations_def)
  ultimately show ?thesis
    using assms handleCommand_tasks [of c "io\<lparr>commands := cs\<rparr>" "[]"]
    by (fastforce simp: executionInv_def)
qed

lemma authenticatedGenerations_call [simp]:
  "l \<in> {CallConnect config, CallDisconnect, CallSend env, CallStop, CallHalt, ReceiveError} \<Longrightarrow>
     authenticatedGenerations ((l, out) # tr) = authenticatedGenerations tr"
  by (auto simp: authenticatedGenerations_def)

lemma executionInv_call:
  assumes "executionInv io tr"
    and "l \<in> {CallConnect config, CallDisconnect, CallSend env, CallStop, CallHalt, ReceiveError}"
    and "tasks io' = tasks io"
    and "length (commands io) \<le> commandCapacity \<Longrightarrow> length (commands io') \<le> commandCapacity"
  shows "executionInv io' ((l, out) # tr)"
  using assms by (simp add: executionInv_def authenticatedGenerations_call)

lemma trySend_bounded [simp]:
  "tasks (snd (trySend c io)) = tasks io"
  "length (commands io) \<le> commandCapacity \<Longrightarrow>
     length (commands (snd (trySend c io))) \<le> commandCapacity"
  by (simp_all add: trySend_def)

lemma calls_bounded [simp]:
  "tasks (snd (ioConnect config io)) = tasks io"
  "tasks (snd (ioDisconnect io)) = tasks io"
  "tasks (snd (ioSend pb env io)) = tasks io"
  "length (commands io) \<le> commandCapacity \<Longrightarrow>
     length (commands (snd (ioConnect config io))) \<le> commandCapacity"
  "length (commands io) \<le> commandCapacity \<Longrightarrow>
     length (commands (snd (ioDisconnect io))) \<le> commandCapacity"
  "length (commands io) \<le> commandCapacity \<Longrightarrow>
     length (commands (snd (ioSend pb env io))) \<le> commandCapacity"
  using trySend_bounded
  by (auto simp: ioConnect_def ioDisconnect_def ioSend_def split_beta split: sum.split)

lemma execution_inv: "execution L io tr \<Longrightarrow> executionInv io tr"
proof (induction rule: execution.induct)
  case (start g)
  then show ?case by (simp add: executionInv_def initIo_def)
next
  case (step io tr l io' out)
  from step.hyps(2) step.IH show ?case
  proof (cases rule: ioStep.cases)
    case (receive c cs)
    with executionInv_receive [OF step.IH, of c cs out] show ?thesis
      by (metis fst_conv option.inject)
  next
    case receive_error
    with executionInv_call [OF step.IH, of l exampleConfig PayloadNotSet io' out] show ?thesis
      by (auto split: if_splits)
  next
    case (continue i t armed r)
    with executionInv_resume [OF step.IH, of i t armed] show ?thesis by auto
  next
    case (call_connect config)
    with executionInv_call [OF step.IH, of l config PayloadNotSet io' out] show ?thesis by simp
  next
    case call_disconnect
    with executionInv_call [OF step.IH, of l exampleConfig PayloadNotSet io' out] show ?thesis
      by simp
  next
    case (call_send env)
    with executionInv_call [OF step.IH, of l exampleConfig env io' out] show ?thesis by simp
  next
    case call_stop
    with executionInv_call [OF step.IH, of l exampleConfig PayloadNotSet io' out] show ?thesis
      by (simp add: stopIo_def)
  next
    case call_halt
    with executionInv_call [OF step.IH, of l exampleConfig PayloadNotSet io' out] show ?thesis
      by (simp add: haltContext_def)
  qed
qed

section \<open>Properties of every execution\<close>

lemma authenticated_proof:
  assumes "memcmp_exact (openssl L)"
    and "ioStep L io l (Some (io', out))" and "Publish IoAuthenticated \<in> set out"
  shows "\<exists>n payload hello config nonce.
    l = Resume (HandshakePayload (activeGeneration io) n) (Completed payload) \<and>
    decodeFrame (protobuf L) payload = Inr (ServerHello hello) \<and>
    currentConfig io = Some config \<and> clientNonce io = Some nonce \<and>
    helloAuthentic L config nonce hello \<and> \<not> stopping io \<and> socketOpen io"
  using assms(2)
proof (cases rule: ioStep.cases)
  case (receive c cs)
  with assms(3) receiveCommand_publishes [of c "io\<lparr>commands := cs\<rparr>" io' out] show ?thesis
    by fastforce
next
  case (continue i t armed r)
  from resume_authenticated [OF continue(2)[symmetric] assms(3)] obtain n payload hello where
    t: "t = HandshakePayload (activeGeneration io) n" "r = Completed payload"
      "decodeFrame (protobuf L) payload = Inr (ServerHello hello)" and
    v: "validateServerHello L hello (takeTask i io) = Inr ()" and
    s: "\<not> stopping io" "socketOpen io"
    by (auto simp: takeTask_def)
  from v obtain config nonce where
    c: "currentConfig io = Some config" "clientNonce io = Some nonce"
    by (auto simp: validateServerHello_def takeTask_def split: option.splits if_splits)
  with v validate_iff [OF assms(1)] have "helloAuthentic L config nonce hello"
    by (simp add: takeTask_def)
  with t c s continue(1) show ?thesis by blast
qed (use assms(3) in auto)

text \<open>
  C16. Whatever the schedule, the engine is told that a connection is authenticated only in the
  step that received a ServerHello which proves knowledge of the token of the connection then
  configured, for the client nonce of the handshake then in flight, on the current generation,
  with the socket open and the actor not stopping.
\<close>

theorem authenticated_only_by_proof:
  assumes "memcmp_exact (openssl L)"
    and "ioStep L io l (Some (io', out))" and "Publish IoAuthenticated \<in> set out"
  shows "\<exists>n payload hello config nonce.
    l = Resume (HandshakePayload (activeGeneration io) n) (Completed payload) \<and>
    decodeFrame (protobuf L) payload = Inr (ServerHello hello) \<and>
    currentConfig io = Some config \<and> clientNonce io = Some nonce \<and>
    helloAuthentic L config nonce hello \<and> \<not> stopping io \<and> socketOpen io"
  by (rule authenticated_proof [OF assms])

lemma forwarded_frame:
  assumes "execution L io ((l, out) # tr)"
    and "Publish ev \<in> set out" and "eventEnvelope ev = Some env"
  shows "\<exists>g n payload n' r out'.
    l = Resume (ReadPayload g n) (Completed payload) \<and>
    decodeFrame (protobuf L) payload = Inr env \<and>
    length payload = n \<and> 0 < n \<and> n \<le> kMaxFrameSize \<and>
    (Resume (HandshakePayload g n') r, out') \<in> set tr \<and> Publish IoAuthenticated \<in> set out'"
proof -
  from assms(1) obtain io0 where ex: "execution L io0 tr" and st: "ioStep L io0 l (Some (io, out))"
    by (cases rule: execution.cases) auto
  note inv = execution_inv [OF ex]
  from st show ?thesis
  proof (cases rule: ioStep.cases)
    case (receive c cs)
    with assms(2) receiveCommand_publishes [of c "io0\<lparr>commands := cs\<rparr>" io out] have "ev = IoClosed"
      by simp
    with assms(3) show ?thesis by simp
  next
    case (continue i t armed r)
    from resume_message [OF continue(2)[symmetric] assms(2,3)] obtain g n payload where
      t: "t = ReadPayload g n" "r = Completed payload"
        "decodeFrame (protobuf L) payload = Inr env"
      by blast
    from continue(4,5) have "(t, armed) \<in> set (tasks io0)" by (metis nth_mem)
    with inv t(1) have "\<not> invalidFrameSize n" "g \<in> authenticatedGenerations tr"
      by (auto simp: executionInv_def)
    then show ?thesis
      using t continue(1,6)
      by (auto simp: authenticatedGenerations_def invalidFrameSize_def)
  qed (use assms(2) in auto)
qed



section \<open>Executing schedules\<close>

text \<open>A scheduler that is told which waiting coroutine continues and how its operation ends.\<close>

datatype Choice = Take | Continue nat Outcome | Call Label

fun pick :: "'g IoLib \<Rightarrow> Choice \<Rightarrow> 'g Io \<Rightarrow> (Label \<times> ('g Io \<times> outs) option) option" where
  "pick L Take io =
     (case runTurn io of
        None \<Rightarrow> None
      | Some (Some c, r) \<Rightarrow> Some (Receive c, Some r)
      | Some (None, r) \<Rightarrow> Some (ReceiveError, Some r))"
| "pick L (Continue i r) io =
     (if i < length (tasks io) \<and> \<not> contextStopped io then
        (let (t, armed) = tasks io ! i
         in if completes t armed r then Some (Resume t r, resume L t r (takeTask i io)) else None)
      else None)"
| "pick L (Call (CallConnect config)) io =
     Some (CallConnect config, Some (snd (ioConnect config io), []))"
| "pick L (Call CallDisconnect) io = Some (CallDisconnect, Some (snd (ioDisconnect io), []))"
| "pick L (Call (CallSend env)) io =
     Some (CallSend env, Some (snd (ioSend (protobuf L) env io), []))"
| "pick L (Call CallStop) io = Some (CallStop, Some (stopIo io, []))"
| "pick L (Call CallHalt) io = Some (CallHalt, Some (haltContext io, []))"
| "pick L (Call _) io = None"

lemma pick_step: "pick L c io = Some (l, r) \<Longrightarrow> ioStep L io l r"
  by (induction L c io rule: pick.induct)
     (auto intro: ioStep.intros simp: Let_def split: list.splits prod.splits if_splits)

fun schedule :: "'g IoLib \<Rightarrow> Choice list \<Rightarrow> 'g Io \<times> (Label \<times> outs) list \<Rightarrow>
    ('g Io \<times> (Label \<times> outs) list) option" where
  "schedule L [] s = Some s"
| "schedule L (c # cs) (io, tr) =
     (case pick L c io of
        Some (l, Some (io', out)) \<Rightarrow> schedule L cs (io', (l, out) # tr)
      | _ \<Rightarrow> None)"

lemma schedule_execution:
  "schedule L cs (io, tr) = Some (io', tr') \<Longrightarrow> execution L io tr \<Longrightarrow> execution L io' tr'"
proof (induction cs arbitrary: io tr)
  case Nil
  then show ?case by simp
next
  case (Cons c cs)
  then show ?case
    by (auto split: option.splits prod.splits intro: execution.step pick_step)
qed

section \<open>Schedules on which the code misbehaves\<close>

lemma getFrameSize_one: "getFrameSize h [0, 0, 0, 1] = 1"
  by (simp add: getFrameSize_rev u32OfLE_def)

lemma exampleLib_simps [simp]:
  "encodeFrame (protobuf exampleLib) e = Inr [0, 0, 0, 1, 5]"
  "generateNonce (openssl exampleLib) g = (Inr (replicate 32 4), g)"
  "decodeFrame (protobuf exampleLib) [5] = Inr (ServerHello exampleHello)"
  "endpointError exampleLib p = None"
  by (simp_all add: exampleLib_def encodeFrame_def decodeFrame_def kMaxFrameSize_def
      putFrameSize_rev bytesLE_def generateNonce_def kNonceSize_def map_replicate_const)

lemma exampleLib_validates [simp]:
  "currentConfig io = Some exampleConfig \<Longrightarrow> clientNonce io = Some n \<Longrightarrow>
     validateServerHello exampleLib exampleHello io = Inr ()"
  by (auto simp: validateServerHello_def exampleHello_def copyExactBytes_def kNonceSize_def
      computeServerProof_def exampleConfig_def maxInt_def exampleLib_def proofMatches_def)

text \<open>A connect command up to the point where the ClientHello is being written, and on to the
  authenticated connection whose read loop waits for a frame.\<close>

definition handshakeSchedule :: "Choice list" where
  "handshakeSchedule = [Call (CallConnect exampleConfig), Take, Continue 0 (Completed []),
     Continue 0 (Completed [])]"

definition readySchedule :: "Choice list" where
  "readySchedule = handshakeSchedule @ [Continue 0 (Completed []),
     Continue 0 (Completed [0, 0, 0, 1]), Continue 0 (Completed [5]), Continue 0 (Completed [])]"

lemmas schedule_defs = receiveCommand_def readySchedule_def handshakeSchedule_def initIo_def io_defs
  commandCapacity_def takeTask_def getFrameSize_one invalidFrameSize_def kMaxFrameSize_def

definition reaches :: "Choice list \<Rightarrow> Choice \<Rightarrow> Label \<Rightarrow> (unit Io \<times> outs) option \<Rightarrow>
    unit Io \<Rightarrow> bool" where
  "reaches cs c l r io \<longleftrightarrow>
     (\<exists>tr. schedule exampleLib cs (initIo (), []) = Some (io, tr) \<and>
       pick exampleLib c io = Some (l, r))"

lemma reaches_execution:
  "reaches cs c l r io \<Longrightarrow> (\<exists>tr. execution exampleLib io tr) \<and> ioStep exampleLib io l r"
  by (auto simp: reaches_def intro: pick_step dest: schedule_execution [OF _ execution.start])

lemma writer_race:
  "\<exists>io. reaches (readySchedule @ [Call (CallSend PayloadNotSet), Call CallDisconnect, Take,
       Continue 1 (Completed []), Take]) (Continue 1 (Completed []))
     (Resume (WriteFrame 1 [0, 0, 0, 1, 5]) (Completed [])) None io"
  by (simp add: reaches_def schedule_defs Let_def)

lemma handshake_race:
  "\<exists>io. reaches (handshakeSchedule @ [Call CallDisconnect, Take]) (Continue 0 (Completed []))
     (Resume (HelloWrite 1) (Completed [])) None io"
  by (simp add: reaches_def schedule_defs Let_def)

lemma stale_race:
  "\<exists>io io' err. reaches (handshakeSchedule @ [Continue 0 (Completed []), Call CallDisconnect,
       Take, Call (CallConnect exampleConfig), Take, Continue 1 (Completed [])])
     (Continue 0 (Failed False ''Operation canceled''))
     (Resume (HandshakeHeader 1) (Failed False ''Operation canceled''))
     (Some (io', [Publish (IoFailure err)])) io \<and>
     activeGeneration io = 2 \<and> socketOpen io \<and> \<not> socketOpen io' \<and>
     (Connecting 2 exampleConfig, True) \<in> set (tasks io)"
  by (simp add: reaches_def schedule_defs transportError_def Let_def)

text \<open>
  C23. Two schedules end in undefined behaviour. A frame whose write has completed, when a
  disconnect command is handled before the writer continues: the writer then pops an empty
  queue. A ClientHello whose write has completed, when a disconnect command is handled before
  the handshake continues: the handshake then reads the timeout of an empty configuration.
  Neither resumption checks its generation first.
\<close>

theorem undefined_behaviour_reachable:
  "(\<exists>io tr frame. execution exampleLib io tr \<and>
      ioStep exampleLib io (Resume (WriteFrame 1 frame) (Completed [])) None) \<and>
   (\<exists>io tr. execution exampleLib io tr \<and>
      ioStep exampleLib io (Resume (HelloWrite 1) (Completed [])) None)"
  using writer_race handshake_race by (blast dest: reaches_execution)

text \<open>
  C24. A stale coroutine closes the connection that replaced its own: after a disconnect and a
  new connect, the cancelled handshake of generation 1 finishes while generation 2 is
  connecting on an open socket, and its failure closes that socket and is published.
\<close>

theorem stale_failure_closes_new_connection:
  "\<exists>io tr io' err. execution exampleLib io tr \<and>
     ioStep exampleLib io (Resume (HandshakeHeader 1) (Failed False ''Operation canceled''))
       (Some (io', [Publish (IoFailure err)])) \<and>
     activeGeneration io = 2 \<and> socketOpen io \<and>
     (Connecting 2 exampleConfig, True) \<in> set (tasks io) \<and> \<not> socketOpen io'"
  using stale_race by (blast dest: reaches_execution)

section \<open>Witnesses\<close>

lemma authentication_reached:
  "\<exists>io io'. reaches (handshakeSchedule @ [Continue 0 (Completed []),
       Continue 0 (Completed [0, 0, 0, 1])]) (Continue 0 (Completed [5]))
     (Resume (HandshakePayload 1 1) (Completed [5])) (Some (io', [Publish IoAuthenticated])) io \<and>
     currentConfig io = Some exampleConfig"
  by (simp add: reaches_def schedule_defs finishHandshake_def connectionReady_def Let_def)

theorem authenticated_only_by_proof_witness:
  "\<exists>nonce hello. helloAuthentic exampleLib exampleConfig nonce hello"
proof -
  obtain io io' where
    r: "reaches (handshakeSchedule @ [Continue 0 (Completed []),
       Continue 0 (Completed [0, 0, 0, 1])]) (Continue 0 (Completed [5]))
     (Resume (HandshakePayload 1 1) (Completed [5])) (Some (io', [Publish IoAuthenticated])) io"
    and c: "currentConfig io = Some exampleConfig"
    using authentication_reached by blast
  from reaches_execution [OF r]
  have st: "ioStep exampleLib io (Resume (HandshakePayload 1 1) (Completed [5]))
      (Some (io', [Publish IoAuthenticated]))" by blast
  show ?thesis
    using authenticated_only_by_proof [OF exampleLib_memcmp st] c by auto
qed

lemma message_reached:
  "\<exists>io tr. schedule exampleLib (readySchedule @ [Continue 0 (Completed [0, 0, 0, 1]),
       Continue 0 (Completed [6])]) (initIo (), []) =
     Some (io, (Resume (ReadPayload 1 1) (Completed [6]),
        [Publish (IoVadTimeout \<lparr>vt_session_id = ''x''\<rparr>)]) # tr)"
proof -
  have "decodeFrame (protobuf exampleLib) [6] =
      Inr (VadTimeoutPayload \<lparr>vt_session_id = ''x''\<rparr>)"
    by (simp add: exampleLib_def decodeFrame_def)
  then show ?thesis by (simp add: schedule_defs Let_def)
qed



end
