(* ===== verification/Channel.thy ===== *)
theory Channel
  imports Io_Safety
begin

text \<open>
  The side of the transport the fcitx thread sees: \<open>Io::connect\<close>, \<open>Io::disconnect\<close> and
  \<open>Io::send\<close> as requests on the bounded command channel. A request either puts one command at
  the end of the queue or changes nothing and returns the error.
\<close>

datatype Request = RequestConnect ConnectionConfig | RequestDisconnect | RequestSend Envelope

fun submit :: "Protobuf \<Rightarrow> Request \<Rightarrow> 'g Io \<Rightarrow> unit Result \<times> 'g Io" where
  "submit pb (RequestConnect config) io = ioConnect config io"
| "submit pb RequestDisconnect io = ioDisconnect io"
| "submit pb (RequestSend envelope) io = ioSend pb envelope io"

text \<open>The command a request stands for; a message that cannot be framed has none.\<close>

fun commandFor :: "Protobuf \<Rightarrow> Request \<Rightarrow> Command option" where
  "commandFor pb (RequestConnect config) = Some (ConnectCommand config)"
| "commandFor pb RequestDisconnect = Some DisconnectCommand"
| "commandFor pb (RequestSend envelope) =
     (case encodeFrame pb envelope of Inl err \<Rightarrow> None | Inr frame \<Rightarrow> Some (SendCommand frame))"

section \<open>The contract of a bounded queue\<close>

text \<open>Requests one after another, with those that were taken.\<close>

fun putAll :: "('r \<Rightarrow> 's \<Rightarrow> ('e + unit) \<times> 's) \<Rightarrow> 'r list \<Rightarrow> 's \<Rightarrow> 's \<times> 'r list" where
  "putAll put [] s = (s, [])"
| "putAll put (r # rs) s =
     (let (res, s') = put r s; (s'', taken) = putAll put rs s'
      in (s'', if isl res then taken else r # taken))"

locale bounded_queue =
  fixes put :: "'r \<Rightarrow> 's \<Rightarrow> ('e + unit) \<times> 's"
    and queued :: "'s \<Rightarrow> 'c list"
    and meaning :: "'r \<Rightarrow> 'c option"
    and capacity :: nat
  assumes refused: "fst (put r s) = Inl err \<Longrightarrow> snd (put r s) = s"
    and taken: "fst (put r s) = Inr u \<Longrightarrow>
          \<exists>c. meaning r = Some c \<and> queued (snd (put r s)) = queued s @ [c]"
    and room: "fst (put r s) = Inr u \<Longrightarrow> length (queued s) < capacity"
begin

lemma putAll_queue:
  "queued (fst (putAll put rs s)) = queued s @ List.map_filter meaning (snd (putAll put rs s))"
proof (induction rs arbitrary: s)
  case Nil
  then show ?case by (simp add: List.map_filter_def)
next
  case (Cons r rs)
  from Cons.IH [of "snd (put r s)"] refused [of r s] taken [of r s] show ?case
    by (cases "fst (put r s)") (auto simp: List.map_filter_simps Let_def split: prod.splits)
qed

lemma putAll_bound:
  "length (queued s) \<le> capacity \<Longrightarrow> length (queued (fst (putAll put rs s))) \<le> capacity"
proof (induction rs arbitrary: s)
  case Nil
  then show ?case by simp
next
  case (Cons r rs)
  have "length (queued (snd (put r s))) \<le> capacity"
    using Cons.prems refused [of r s] taken [of r s] room [of r s]
    by (cases "fst (put r s)") fastforce+
  from Cons.IH [OF this] show ?case by (simp add: Let_def case_prod_beta)
qed

end

interpretation channel: bounded_queue "submit pb" commands "commandFor pb" commandCapacity
  for pb :: Protobuf
proof
  fix r :: Request and s :: "'g Io" and err u
  show "fst (submit pb r s) = Inl err \<Longrightarrow> snd (submit pb r s) = s"
    by (cases r) (auto simp: io_defs Let_def split: if_splits sum.splits)
  show "fst (submit pb r s) = Inr u \<Longrightarrow>
      \<exists>c. commandFor pb r = Some c \<and> commands (snd (submit pb r s)) = commands s @ [c]"
    by (cases r) (auto simp: io_defs Let_def split: if_splits sum.splits)
  show "fst (submit pb r s) = Inr u \<Longrightarrow> length (commands s) < commandCapacity"
    by (cases r) (auto simp: io_defs Let_def split: if_splits sum.splits)
qed

text \<open>The requests the fcitx thread makes, one after another.\<close>

definition submitAll :: "Protobuf \<Rightarrow> Request list \<Rightarrow> 'g Io \<Rightarrow> 'g Io \<times> Request list" where
  "submitAll pb = putAll (submit pb)"

section \<open>Properties\<close>



end
