(* ===== verification/Io_Flow.thy ===== *)
theory Io_Flow
  imports Io_Safety
begin

text \<open>
  The data path of an established connection: what the read loop makes of a stream of frames,
  and the order in which the write loop hands queued frames to the socket.
\<close>

section \<open>Reading\<close>

text \<open>Everything an execution put out, in order.\<close>

definition outputs :: "(Label \<times> outs) list \<Rightarrow> outs" where
  "outputs tr = concat (map snd (rev tr))"

lemma outputs_Cons [simp]: "outputs (x # tr) = outputs tr @ snd x"
  by (simp add: outputs_def)

text \<open>A transport that has not been stopped.\<close>

definition operating :: "'g Io \<Rightarrow> bool" where
  "operating io \<longleftrightarrow> actorRunning io \<and> commandsOpen io \<and> \<not> stopping io \<and> \<not> contextStopped io"

text \<open>A read loop that waits for a header and can run.\<close>

definition readerWaiting :: "u64 \<Rightarrow> 'g Io \<Rightarrow> bool" where
  "readerWaiting g io \<longleftrightarrow> tasks io = [(ReadHeader g, True)] \<and> activeGeneration io = g \<and>
     \<not> stopping io \<and> \<not> contextStopped io \<and> socketOpen io"

text \<open>The bytes of one frame arrive as its header and its payload.\<close>

definition arrival :: "byte list \<Rightarrow> Choice list" where
  "arrival frame = [Continue 0 (Completed (take 4 frame)), Continue 0 (Completed (drop 4 frame))]"

lemma schedule_append:
  "schedule L (cs @ cs') s =
     (case schedule L cs s of Some s' \<Rightarrow> schedule L cs' s' | None \<Rightarrow> None)"
proof (induction cs arbitrary: s)
  case Nil
  then show ?case by simp
next
  case (Cons c cs)
  then show ?case by (cases s) (simp split: option.split prod.split)
qed

lemma encodeFrame_parts:
  assumes "envelope_serialises pb env" and "encodeFrame pb env = Inr frame"
    and "0 < ByteSizeLong pb env"
  shows "length (take 4 frame) = 4"
    and "unat (getFrameSize (hostEndian pb) (take 4 frame)) = length (drop 4 frame)"
    and "\<not> invalidFrameSize (length (drop 4 frame))"
    and "decodeFrame pb (drop 4 frame) = Inr env"
proof -
  have "ByteSizeLong pb env \<le> kMaxFrameSize"
    using assms(2) by (simp add: encodeFrame_def Let_def split: if_splits)
  moreover from this obtain payload where "length payload = ByteSizeLong pb env"
    and "ParseFromArray pb payload = Some env"
    and "frame = putFrameSize (hostEndian pb) (of_nat (length payload)) @ payload"
    using encodeFrame_serialises [OF assms(1)] assms(2) by (metis sum.inject(2))
  ultimately show "length (take 4 frame) = 4"
    and "unat (getFrameSize (hostEndian pb) (take 4 frame)) = length (drop 4 frame)"
    and "\<not> invalidFrameSize (length (drop 4 frame))"
    and "decodeFrame pb (drop 4 frame) = Inr env"
    using assms(3)
    by (simp_all add: prefix.length_put prefix.get_put unat_frameSize invalidFrameSize_def
        decodeFrame_def)
qed

lemma reader_one_frame:
  assumes ready: "readerWaiting g io" and ev: "eventEnvelope ev = Some env"
    and enc: "envelope_serialises (protobuf L) env" "encodeFrame (protobuf L) env = Inr frame"
      "0 < ByteSizeLong (protobuf L) env"
  shows "\<exists>tr'. schedule L (arrival frame) (io, tr) = Some (io, tr') \<and>
    outputs tr' = outputs tr @ [Publish ev]"
proof -
  note parts = encodeFrame_parts [OF enc]
  have t: "tasks io = [(ReadHeader g, True)]" and g: "activeGeneration io = g"
    and s: "\<not> stopping io" "socketOpen io" "\<not> contextStopped io"
    using ready by (simp_all add: readerWaiting_def)
  have loop: "readLoop g (takeTask 0 (io\<lparr>tasks := [(ReadPayload g n, True)]\<rparr>)) out = (io, out)"
    for n out
    using t g s by (simp add: readLoop_def suspend_def takeTask_def)
  have "resume L (ReadPayload g (length (drop 4 frame))) (Completed (drop 4 frame))
      (takeTask 0 (io\<lparr>tasks := [(ReadPayload g (length (drop 4 frame)), True)]\<rparr>)) =
      Some (io, [Publish ev])"
    using parts(4) ev loop by (cases ev) (auto simp: publish_def)
  moreover have "resume L (ReadHeader g) (Completed (take 4 frame)) (takeTask 0 io) =
      Some (io\<lparr>tasks := [(ReadPayload g (length (drop 4 frame)), True)]\<rparr>, [])"
    using parts(2,3) t s by (simp add: Let_def suspend_def takeTask_def)
  ultimately show ?thesis
    using t s parts(1) by (simp add: arrival_def Let_def)
qed

lemma frames_forwarded:
  assumes "readerWaiting g io"
    and "list_all2 (\<lambda>ev frame. \<exists>env. eventEnvelope ev = Some env \<and>
           envelope_serialises (protobuf L) env \<and> 0 < ByteSizeLong (protobuf L) env \<and>
           encodeFrame (protobuf L) env = Inr frame) evs frames"
  shows "\<exists>tr'. schedule L (concat (map arrival frames)) (io, tr) = Some (io, tr') \<and>
    outputs tr' = outputs tr @ map Publish evs"
  using assms(2)
proof (induction arbitrary: tr rule: list_all2_induct)
  case Nil
  show ?case by simp
next
  case (Cons ev evs frame frames)
  then obtain env where env: "eventEnvelope ev = Some env" "envelope_serialises (protobuf L) env"
    "0 < ByteSizeLong (protobuf L) env" "encodeFrame (protobuf L) env = Inr frame"
    by blast
  obtain tr1 where tr1: "schedule L (arrival frame) (io, tr) = Some (io, tr1)"
    "outputs tr1 = outputs tr @ [Publish ev]"
    using reader_one_frame [OF assms(1) env(1,2,4,3)] by blast
  from Cons.IH [of tr1] tr1 show ?case
    by (auto simp: schedule_append)
qed

section \<open>The handshake\<close>

text \<open>The turns of a handshake: the command, the begin of the connection, the completed connect and
  write, the reply in two reads, and the begin of the read loop.\<close>

definition handshakeTurns :: "byte list \<Rightarrow> Choice list" where
  "handshakeTurns bytes =
     Take # replicate 3 (Continue 0 (Completed [])) @ arrival bytes @ [Continue 0 (Completed [])]"

lemma honest_handshake:
  fixes io :: "'a Io" and L :: "'a IoLib"
  assumes mem: "memcmp_exact (openssl L)"
    and idle: "tasks io = []" "commands io = [ConnectCommand config]" "operating io"
      "\<not> connectionActive io" "endpointError L (socketPath config) = None"
    and nonce: "generateNonce (openssl L) (randState io) = (Inr nonce, g)"
    and hello: "encodeFrame (protobuf L) (clientHelloEnvelope nonce) = Inr frame"
    and auth: "helloAuthentic L config nonce reply"
    and enc: "envelope_serialises (protobuf L) (ServerHello reply)"
      "encodeFrame (protobuf L) (ServerHello reply) = Inr bytes"
      "0 < ByteSizeLong (protobuf L) (ServerHello reply)"
  shows "\<exists>io' tr'. schedule L (handshakeTurns bytes) (io, tr) = Some (io', tr') \<and>
    outputs tr' = outputs tr @ [StartWrite frame, Publish IoAuthenticated] \<and>
    connected io' \<and> readerWaiting (generationCounter io + 1) io' \<and>
    currentConfig io' = Some config \<and> clientNonce io' = None \<and>
    operating io' \<and> commands io' = [] \<and> outgoingFrames io' = outgoingFrames io \<and>
    writerRunning io' = writerRunning io"
proof -
  note parts = encodeFrame_parts [OF enc]
  have valid: "validateServerHello L reply io5 = Inr ()"
    if "currentConfig io5 = Some config" "clientNonce io5 = Some nonce" for io5 :: "'a Io"
    using validate_iff [OF mem that] auth by simp
  show ?thesis
    using idle nonce hello parts valid unfolding operating_def
    by (simp add: handshakeTurns_def numeral_3_eq_3 arrival_def receiveCommand_def io_defs
        takeTask_def Let_def readerWaiting_def)
qed

section \<open>Writing\<close>

text \<open>
  An established connection on which only the run loop and the writer move: sends are taken
  from the queue, and writes complete.
\<close>

fun sentFrame :: "Command \<Rightarrow> byte list list" where
  "sentFrame (SendCommand frame) = [frame]"
| "sentFrame _ = []"

definition writing :: "u64 \<Rightarrow> 'g Io \<Rightarrow> bool" where
  "writing g io \<longleftrightarrow> activeGeneration io = g \<and> \<not> stopping io \<and> socketOpen io \<and> connected io \<and>
     actorRunning io \<and> commandsOpen io \<and> \<not> contextStopped io \<and>
     (\<forall>c \<in> set (commands io). \<exists>frame. c = SendCommand frame) \<and>
     (tasks io = [] \<and> \<not> writerRunning io \<and> outgoingFrames io = [] \<or>
      tasks io = [(WriteStart g, True)] \<and> writerRunning io \<and> outgoingFrames io \<noteq> [] \<or>
      (\<exists>frame rest. tasks io = [(WriteFrame g frame, True)] \<and> writerRunning io \<and>
         outgoingFrames io = frame # rest))"

text \<open>The frames accepted from the addon that the socket has not been given yet.\<close>

definition unwritten :: "'g Io \<Rightarrow> byte list list" where
  "unwritten io =
     (case tasks io of
        (WriteFrame g frame, a) # ts \<Rightarrow> tl (outgoingFrames io)
      | _ \<Rightarrow> outgoingFrames io) @ concat (map sentFrame (commands io))"

fun writesOf :: "outs \<Rightarrow> byte list list" where
  "writesOf [] = []"
| "writesOf (StartWrite frame # out) = frame # writesOf out"
| "writesOf (_ # out) = writesOf out"

lemma writesOf_append [simp]: "writesOf (xs @ ys) = writesOf xs @ writesOf ys"
  by (induction xs rule: writesOf.induct) simp_all

text \<open>What is left to do: take a command, begin the writer, finish a write.\<close>

definition writeWork :: "'g Io \<Rightarrow> nat" where
  "writeWork io = 3 * length (commands io) + length (outgoingFrames io) +
     (case tasks io of (WriteStart g, a) # ts \<Rightarrow> 1 | _ \<Rightarrow> 0)"

lemma writing_take:
  assumes "writing g io" and "pick L Take io = Some (l, Some (io', out))"
  shows "writing g io' \<and> writesOf out @ unwritten io' = unwritten io \<and> writeWork io' < writeWork io"
proof -
  from assms obtain frame cs where c: "commands io = SendCommand frame # cs"
    and r: "(io', out) = receiveCommand (SendCommand frame) (io\<lparr>commands := cs\<rparr>)"
    by (auto simp: writing_def split: list.splits)
  from assms(1) c r show ?thesis
    by (auto simp: writing_def unwritten_def writeWork_def spawn_def receiveCommand_def Let_def
        split: if_splits)
qed

lemma writeLoop_Nil:
  "outgoingFrames io = [] \<Longrightarrow> writeLoop g io [] = (io\<lparr>writerRunning := False\<rparr>, [])"
  by (simp add: writeLoop_def)

lemma writeLoop_Cons:
  "outgoingFrames io = frame # rest \<Longrightarrow> \<not> stopping io \<Longrightarrow> activeGeneration io = g \<Longrightarrow>
     socketOpen io \<Longrightarrow>
     writeLoop g io [] = (io\<lparr>tasks := tasks io @ [(WriteFrame g frame, True)]\<rparr>, [StartWrite frame])"
  by (simp add: writeLoop_def suspend_def)

lemma writing_continue:
  assumes w: "writing g io" and p: "pick L (Continue 0 (Completed [])) io = Some (l, r)"
  shows "\<exists>io' out. r = Some (io', out) \<and> writing g io' \<and>
    writesOf out @ unwritten io' = unwritten io \<and> writeWork io' < writeWork io"
proof -
  from p have "tasks io \<noteq> []" by (simp split: if_splits)
  with w consider frame rest where "tasks io = [(WriteStart g, True)]"
      "outgoingFrames io = frame # rest"
    | frame rest where "tasks io = [(WriteFrame g frame, True)]"
      "outgoingFrames io = frame # rest"
    unfolding writing_def neq_Nil_conv by auto
  then show ?thesis
  proof cases
    case 1
    with p have "r = Some (writeLoop g (takeTask 0 io) [])"
      by (simp add: Let_def split: if_splits)
    moreover have "writeLoop g (takeTask 0 io) [] =
        (io\<lparr>tasks := [(WriteFrame g frame, True)]\<rparr>, [StartWrite frame])"
      using 1 w by (subst writeLoop_Cons) (simp_all add: writing_def takeTask_def)
    ultimately show ?thesis
      using 1 w by (simp add: writing_def unwritten_def writeWork_def)
  next
    case 2
    with p have r: "r = Some (writeLoop g ((takeTask 0 io)\<lparr>outgoingFrames := rest\<rparr>) [])"
      by (simp add: Let_def takeTask_def split: if_splits)
    show ?thesis
    proof (cases rest)
      case Nil
      with 2 r have "r = Some (io\<lparr>tasks := [], outgoingFrames := [], writerRunning := False\<rparr>, [])"
        by (simp add: writeLoop_Nil takeTask_def)
      with 2 w Nil show ?thesis
        by (simp add: writing_def unwritten_def writeWork_def)
    next
      case (Cons frame' rest')
      have "writeLoop g ((takeTask 0 io)\<lparr>outgoingFrames := rest\<rparr>) [] =
          (io\<lparr>outgoingFrames := rest, tasks := [(WriteFrame g frame', True)]\<rparr>, [StartWrite frame'])"
        using 2 w Cons by (subst writeLoop_Cons) (simp_all add: writing_def takeTask_def)
      with 2 w r Cons show ?thesis
        by (simp add: writing_def unwritten_def writeWork_def)
    qed
  qed
qed


definition writingIo :: "unit Io" where
  "writingIo = (initIo ())\<lparr>activeGeneration := 1, socketOpen := True, connected := True,
     connectionActive := True, commands := [SendCommand [1], SendCommand [2]]\<rparr>"



lemma writing_progress:
  assumes "writing g io" and "commands io \<noteq> [] \<or> tasks io \<noteq> []"
  obtains c l r where "c \<in> {Take, Continue 0 (Completed [])}" "pick L c io = Some (l, r)"
proof (cases "commands io")
  case (Cons c cs)
  with assms(1) that [of Take] show ?thesis by (simp add: writing_def)
next
  case Nil
  with assms that [of "Continue 0 (Completed [])"] show ?thesis
    by (auto simp: writing_def Let_def)
qed

lemma writing_step:
  assumes "writing g io" "c \<in> {Take, Continue 0 (Completed [])}" "pick L c io = Some (l, r)"
  obtains io1 out where "r = Some (io1, out)" "writing g io1"
    "writesOf out @ unwritten io1 = unwritten io" "writeWork io1 < writeWork io"
proof (cases "c = Take")
  case True
  with assms(3) have "r \<noteq> None" by (auto split: list.splits if_splits)
  then obtain io1 out where "r = Some (io1, out)" by auto
  with True assms(1,3) writing_take that show ?thesis by blast
next
  case False
  with assms writing_continue that show ?thesis by blast
qed



text \<open>One send on an established connection whose read loop waits.\<close>

definition sendTurns :: "Choice list" where
  "sendTurns = [Take, Continue 1 (Completed []), Continue 1 (Completed [])]"

lemma send_written:
  assumes "readerWaiting g io" "operating io" "connected io" "commands io = [SendCommand frame]"
    and "outgoingFrames io = []" "\<not> writerRunning io"
  shows "\<exists>io' tr'. schedule L sendTurns (io, tr) = Some (io', tr') \<and>
    outputs tr' = outputs tr @ [StartWrite frame] \<and> readerWaiting g io' \<and> operating io' \<and>
    connected io' \<and> commands io' = []"
  using assms
  by (simp add: sendTurns_def readerWaiting_def operating_def receiveCommand_def spawn_def
      takeTask_def writeLoop_Nil writeLoop_Cons Let_def)

end
