(* ===== verification/Io_Wire.thy ===== *)
theory Io_Wire
  imports Io_Flow
begin

text \<open>
  What leaves the transport, under every schedule: the reports to the addon mirror the flag
  that \<open>Io::send\<close> tests, and each frame written to the socket is the ClientHello of a handshake
  or an envelope the addon has asked to send.
\<close>

section \<open>Reports\<close>

text \<open>
  A watcher of the reports alone. It holds whether the last report was an authentication, and
  refuses a close that no authentication precedes.
\<close>

fun watchReport :: "bool \<Rightarrow> IoOut \<Rightarrow> bool option" where
  "watchReport b (Publish IoAuthenticated) = Some True"
| "watchReport b (Publish IoClosed) = (if b then Some False else None)"
| "watchReport b (Publish (IoFailure err)) = Some False"
| "watchReport b _ = Some b"

fun watchReports :: "bool \<Rightarrow> outs \<Rightarrow> bool option" where
  "watchReports b [] = Some b"
| "watchReports b (x # out) =
     (case watchReport b x of None \<Rightarrow> None | Some b' \<Rightarrow> watchReports b' out)"

lemma watchReports_append:
  "watchReports b out = Some b' \<Longrightarrow> watchReports b (out @ out') = watchReports b' out'"
  by (induction out arbitrary: b) (auto split: option.splits)

text \<open>The outputs of a segment that leads from \<open>io\<close> to \<open>io'\<close> agree with the flag.\<close>

definition mirrors :: "'g Io \<Rightarrow> 'g Io \<Rightarrow> outs \<Rightarrow> bool" where
  "mirrors io io' out \<longleftrightarrow> watchReports (connected io) out = Some (connected io')"

lemma mirrors_refl [simp]: "mirrors io io []"
  by (simp add: mirrors_def)

lemma mirrors_close:
  "closeConnection err rep io [] = (io', out) \<Longrightarrow> mirrors io io' out"
  by (auto simp: mirrors_def closeConnection_def publish_def Let_def
      split: option.splits if_splits)

lemma mirrors_resume:
  assumes "resume L t r io = Some (io', out)"
  shows "mirrors io io' out"
  using assms
  by (cases t; cases r)
     (auto simp: Let_def startConnection_def authenticate_def finishHandshake_def
        connectionReady_def readLoop_def writeLoop_def suspend_def spawn_def publish_def
        dest!: mirrors_close
        split: option.splits sum.splits Envelope.splits if_splits list.splits Outcome.splits
          prod.splits unit.splits, simp_all add: mirrors_def)

lemma mirrors_command: "mirrors io (fst (receiveCommand c io)) (snd (receiveCommand c io))"
  by (cases c)
     (auto simp: mirrors_def receiveCommand_def spawn_def closeConnection_def publish_def Let_def)

lemma connected_calls [simp]:
  "connected (snd (ioConnect config io)) = connected io"
  "connected (snd (ioDisconnect io)) = connected io"
  "connected (snd (ioSend pb env io)) = connected io"
  "connected (stopIo io) = connected io" "connected (haltContext io) = connected io"
  "connected (receiveError io) = connected io" "connected (takeTask i io) = connected io"
  by (simp_all add: io_defs receiveError_def takeTask_def split: sum.split)

lemma mirrors_step:
  assumes "ioStep L io l (Some (io', out))"
  shows "mirrors io io' out"
  using assms
proof (cases rule: ioStep.cases)
  case (receive c cs)
  then have "io' = fst (receiveCommand c (io\<lparr>commands := cs\<rparr>))"
    "out = snd (receiveCommand c (io\<lparr>commands := cs\<rparr>))"
    by (metis fst_conv option.inject, metis option.inject snd_conv)
  with mirrors_command [of "io\<lparr>commands := cs\<rparr>" c] show ?thesis by (simp add: mirrors_def)
next
  case (continue i t armed r)
  with mirrors_resume [of L t r "takeTask i io" io' out] show ?thesis by (simp add: mirrors_def)
qed (simp_all add: mirrors_def)

text \<open>
  C18. The reports mirror the connection, under every schedule: the flag \<open>connected\<close>, which
  \<open>Io::send\<close> tests, is set exactly when the last report of authentication, close or failure was an
  authentication; and a close is only ever reported for a connection that was reported
  authenticated and has not been reported closed or failed since.
\<close>

theorem reports_mirror_connection:
  assumes "execution L io tr"
  shows "watchReports False (outputs tr) = Some (connected io)"
  using assms
proof (induction rule: execution.induct)
  case (start g)
  then show ?case by (simp add: outputs_def initIo_def)
next
  case (step io tr l io' out)
  from watchReports_append [OF step.IH, of out] mirrors_step [OF step.hyps(2)] show ?case
    by (simp add: mirrors_def)
qed

theorem reports_mirror_connection_witness:
  "\<exists>io tr. execution exampleLib io tr \<and> connected io \<and>
     watchReports False (outputs tr) = Some True"
proof -
  obtain io tr where "schedule exampleLib readySchedule (initIo (), []) = Some (io, tr)"
    and c: "connected io"
    by (simp add: schedule_defs finishHandshake_def connectionReady_def Let_def)
  then have ex: "execution exampleLib io tr"
    by (rule_tac schedule_execution) (auto intro: execution.start)
  with reports_mirror_connection [OF ex] c show ?thesis by auto
qed

section \<open>Frames\<close>

text \<open>The frames on their way to the socket, and what they may be.\<close>

definition framesIn :: "'g Io \<Rightarrow> byte list set" where
  "framesIn io = {frame. SendCommand frame \<in> set (commands io)} \<union> set (outgoingFrames io)"

definition sendAsked :: "'g IoLib \<Rightarrow> (Label \<times> outs) list \<Rightarrow> byte list \<Rightarrow> bool" where
  "sendAsked L tr frame \<longleftrightarrow>
     (\<exists>env. (CallSend env, []) \<in> set tr \<and> encodeFrame (protobuf L) env = Inr frame)"

definition helloFrame :: "'g IoLib \<Rightarrow> byte list \<Rightarrow> bool" where
  "helloFrame L frame \<longleftrightarrow>
     (\<exists>nonce. length nonce = kNonceSize \<and>
        encodeFrame (protobuf L) (clientHelloEnvelope nonce) = Inr frame)"

lemma generateNonce_size: "generateNonce ssl g = (Inr n, g') \<Longrightarrow> length n = kNonceSize"
  by (auto simp: generateNonce_def Let_def split: prod.splits if_splits)

lemma outgoing_close:
  "closeConnection err rep io out' = (io', out) \<Longrightarrow>
     set (outgoingFrames io') \<subseteq> set (outgoingFrames io) \<and>
     (StartWrite f \<in> set out \<longrightarrow> StartWrite f \<in> set out')"
  by (auto simp: closeConnection_def publish_def Let_def split: option.splits if_splits)

lemma resume_frames:
  assumes "resume L t r io = Some (io', out)"
  shows "set (outgoingFrames io') \<subseteq> set (outgoingFrames io) \<and>
    (StartWrite f \<in> set out \<longrightarrow> f \<in> set (outgoingFrames io) \<or> helloFrame L f)"
  using assms
  by (cases t; cases r)
     (auto simp: Let_def startConnection_def authenticate_def finishHandshake_def
        connectionReady_def readLoop_def writeLoop_def suspend_def spawn_def publish_def
        helloFrame_def
        dest!: outgoing_close [where f = f] generateNonce_size
        split: option.splits sum.splits Envelope.splits if_splits list.splits Outcome.splits
          prod.splits unit.splits)

lemma framesIn_resume:
  assumes "resume L t r (takeTask i io) = Some (io', out)"
  shows "framesIn io' \<subseteq> framesIn io"
    and "StartWrite f \<in> set out \<Longrightarrow> f \<in> framesIn io \<or> helloFrame L f"
  using resume_frames [OF assms, of f] resume_commands [OF assms]
  by (auto simp: framesIn_def takeTask_def)

lemma framesIn_command:
  assumes "commands io = c # cs"
  shows "framesIn (fst (receiveCommand c (io\<lparr>commands := cs\<rparr>))) \<subseteq> framesIn io"
    and "StartWrite f \<notin> set (snd (receiveCommand c (io\<lparr>commands := cs\<rparr>)))"
  using assms
  by (cases c; auto simp: framesIn_def receiveCommand_def spawn_def closeConnection_def publish_def
      Let_def split: if_splits)+

lemma framesIn_calls [simp]:
  "framesIn (snd (ioConnect config io)) = framesIn io"
  "framesIn (snd (ioDisconnect io)) = framesIn io"
  "framesIn (stopIo io) = framesIn io" "framesIn (haltContext io) = framesIn io"
  "framesIn (receiveError io) = framesIn io"
  by (auto simp: framesIn_def io_defs receiveError_def)

lemma framesIn_send:
  "frame \<in> framesIn (snd (ioSend pb env io)) \<Longrightarrow>
     frame \<in> framesIn io \<or> encodeFrame pb env = Inr frame"
  by (auto simp: framesIn_def io_defs split: sum.splits if_splits)

definition wireInv :: "'g IoLib \<Rightarrow> 'g Io \<Rightarrow> (Label \<times> outs) list \<Rightarrow> bool" where
  "wireInv L io tr \<longleftrightarrow> (\<forall>f \<in> framesIn io. sendAsked L tr f) \<and>
     (\<forall>f. StartWrite f \<in> set (outputs tr) \<longrightarrow> helloFrame L f \<or> sendAsked L tr f)"

lemma sendAsked_mono: "sendAsked L tr f \<Longrightarrow> sendAsked L (x # tr) f"
  by (auto simp: sendAsked_def)

lemma wireInv_quiet:
  assumes "wireInv L io tr" and "framesIn io' \<subseteq> framesIn io"
    and "\<And>f. StartWrite f \<in> set out \<Longrightarrow> f \<in> framesIn io \<or> helloFrame L f"
  shows "wireInv L io' ((l, out) # tr)"
  using assms by (auto simp: wireInv_def dest: sendAsked_mono)

lemma execution_wire: "execution L io tr \<Longrightarrow> wireInv L io tr"
proof (induction rule: execution.induct)
  case (start g)
  then show ?case by (simp add: wireInv_def framesIn_def initIo_def outputs_def)
next
  case (step io tr l io' out)
  note quiet = wireInv_quiet [OF step.IH]
  from step.hyps(2) show ?case
  proof (cases rule: ioStep.cases)
    case (receive c cs)
    then have "io' = fst (receiveCommand c (io\<lparr>commands := cs\<rparr>))"
      "out = snd (receiveCommand c (io\<lparr>commands := cs\<rparr>))"
      by (metis fst_conv option.inject, metis option.inject snd_conv)
    with framesIn_command [OF receive(5)] show ?thesis by (intro quiet) auto
  next
    case (continue i t armed r)
    with framesIn_resume [of L t r i io io' out] show ?thesis by (intro quiet) auto
  next
    case (call_send env)
    then have "sendAsked L ((l, out) # tr) f" if "f \<in> framesIn io'" for f
      using framesIn_send [of f "protobuf L" env io] that step.IH
      by (auto simp: sendAsked_def wireInv_def)
    with step.IH call_send show ?thesis by (auto simp: wireInv_def dest: sendAsked_mono)
  qed (auto intro!: quiet)
qed

text \<open>
  Nothing else is ever written: under every schedule each frame handed to the socket is the
  encoding of a ClientHello with a 32-byte nonce, or of an envelope the addon asked to send
  before.
\<close>

lemma written_frames:
  assumes "execution L io tr" and "(l, out) \<in> set tr" and "StartWrite frame \<in> set out"
  shows "(\<exists>nonce. length nonce = kNonceSize \<and>
      encodeFrame (protobuf L) (clientHelloEnvelope nonce) = Inr frame) \<or>
    (\<exists>env. (CallSend env, []) \<in> set tr \<and> encodeFrame (protobuf L) env = Inr frame)"
proof -
  have "StartWrite frame \<in> set (outputs tr)"
    using assms(2,3) by (force simp: outputs_def)
  with execution_wire [OF assms(1)] show ?thesis
    by (auto simp: wireInv_def helloFrame_def sendAsked_def)
qed

end
