(* ===== verification/Io_Order.thy ===== *)
theory Io_Order
  imports Io_Wire
begin

text \<open>
  One connection at a time. A connection begins with \<open>co_spawn\<close>, and asio enters the coroutine
  before the worker goes on to another one or to the next command. Schedules that keep this
  order are \<open>orderly\<close>; in them the transport's flags belong to one connection, and frames of the
  session are written to an authenticated peer only. Schedules that delay the start do not keep
  this, although the generations are there to keep stale coroutines apart.
\<close>

section \<open>Orderly executions\<close>

fun beginsConnection :: "Task \<Rightarrow> bool" where
  "beginsConnection (ConnStart _ _) = True"
| "beginsConnection _ = False"

definition pendingStarts :: "'g Io \<Rightarrow> (Task \<times> bool) list" where
  "pendingStarts io = filter (beginsConnection \<circ> fst) (tasks io)"

text \<open>The steps that may come while a connection is about to begin: its first one, and those of the
  fcitx thread.\<close>

fun mayPrecede :: "Label \<Rightarrow> bool" where
  "mayPrecede (Receive _) = False"
| "mayPrecede ReceiveError = False"
| "mayPrecede (Resume t _) = beginsConnection t"
| "mayPrecede _ = True"

inductive orderlyExecution :: "'g IoLib \<Rightarrow> 'g Io \<Rightarrow> (Label \<times> outs) list \<Rightarrow> bool" for L where
  start: "orderlyExecution L (initIo g) []"
| step: "orderlyExecution L io tr \<Longrightarrow> ioStep L io l (Some (io', out)) \<Longrightarrow>
     pendingStarts io = [] \<or> mayPrecede l \<Longrightarrow> orderlyExecution L io' ((l, out) # tr)"

lemma orderly_execution: "orderlyExecution L io tr \<Longrightarrow> execution L io tr"
  by (induction rule: orderlyExecution.induct) (auto intro: execution.intros)

section \<open>The flags belong to one connection\<close>

fun taskGeneration :: "Task \<Rightarrow> u64" where
  "taskGeneration (ConnStart g _) = g"
| "taskGeneration (Connecting g _) = g"
| "taskGeneration (HelloWrite g) = g"
| "taskGeneration (HandshakeHeader g) = g"
| "taskGeneration (HandshakePayload g _) = g"
| "taskGeneration (ReadStart g) = g"
| "taskGeneration (ReadHeader g) = g"
| "taskGeneration (ReadPayload g _) = g"
| "taskGeneration (WriteStart g) = g"
| "taskGeneration (WriteFrame g _) = g"

lemma successor_generation:
  "successor t out t' \<Longrightarrow> taskGeneration t' = taskGeneration t \<and> \<not> beginsConnection t'"
  by (induction rule: successor.induct) simp_all

text \<open>
  Whatever is open or queued belongs to an active connection; an active connection is about to
  begin, with nothing established, or it is the current generation; and while none is active, no
  coroutine is of the current generation.
\<close>

definition oneConnection :: "'g Io \<Rightarrow> bool" where
  "oneConnection io \<longleftrightarrow>
     (connected io \<or> socketOpen io \<or> writerRunning io \<longrightarrow> connectionActive io) \<and>
     (outgoingFrames io \<noteq> [] \<longrightarrow> connected io) \<and>
     (\<forall>x \<in> set (tasks io). taskGeneration (fst x) \<le> generationCounter io) \<and>
     (if pendingStarts io = []
      then (connectionActive io \<longrightarrow> activeGeneration io = generationCounter io) \<and>
           (\<not> connectionActive io \<longrightarrow>
              (\<forall>x \<in> set (tasks io). taskGeneration (fst x) \<noteq> activeGeneration io))
      else connectionActive io \<and> \<not> connected io \<and>
           (\<exists>config armed.
              pendingStarts io = [(ConnStart (generationCounter io) config, armed)]))"

text \<open>What a resumed coroutine does to the flags: it leaves them, or closes, or reports the
  authentication of the current generation.\<close>

definition sameFlags :: "'g Io \<Rightarrow> 'g Io \<Rightarrow> bool" where
  "sameFlags io io' \<longleftrightarrow> generationCounter io' = generationCounter io \<and>
     activeGeneration io' = activeGeneration io \<and> connectionActive io' = connectionActive io \<and>
     socketOpen io' = socketOpen io \<and> (writerRunning io' \<longrightarrow> writerRunning io) \<and>
     (outgoingFrames io' \<noteq> [] \<longrightarrow> outgoingFrames io \<noteq> [])"

definition closedFlags :: "'g Io \<Rightarrow> 'g Io \<Rightarrow> bool" where
  "closedFlags io io' \<longleftrightarrow> generationCounter io' = generationCounter io \<and>
     activeGeneration io' = activeGeneration io + 1 \<and> \<not> connectionActive io' \<and>
     \<not> socketOpen io' \<and> \<not> writerRunning io' \<and> outgoingFrames io' = [] \<and> \<not> connected io' \<and>
     (connectionActive io \<or> connected io \<or> socketOpen io \<or> writerRunning io)"

lemma sameFlags_refl [simp]: "sameFlags io io"
  by (simp add: sameFlags_def)

definition resumed :: "Task \<Rightarrow> 'g Io \<Rightarrow> 'g Io \<Rightarrow> outs \<Rightarrow> bool" where
  "resumed t io io' out \<longleftrightarrow> closedFlags io io' \<or> sameFlags io io' \<and>
     (connected io' = connected io \<or>
      connected io' \<and> (\<exists>n. t = HandshakePayload (activeGeneration io) n) \<and> socketOpen io \<and>
      Publish IoAuthenticated \<in> set out)"

lemma closed_or_same:
  assumes "closeConnection err rep io out' = (io', out)"
  shows "closedFlags io io' \<or> sameFlags io io' \<and> connected io' = connected io"
proof (cases "connectionActive io \<or> connected io \<or> socketOpen io \<or> writerRunning io")
  case True
  have "\<exists>io1. closedFlags io io1 \<and> io' = io1"
    using assms True
    by (cases "if rep \<and> \<not> stopping io then err else None")
       (auto simp: closeConnection_def closedFlags_def Let_def simp del: ex_simps split: if_split_asm)
  then show ?thesis by simp
next
  case False
  with assms show ?thesis by (simp add: closeConnection_def)
qed

lemma resumed_other:
  assumes "resume L t r io = Some (io', out)" "\<not> beginsConnection t"
  shows "resumed t io io' out"
  using assms
  by (cases t; cases r)
     (auto simp: Let_def authenticate_def finishHandshake_def connectionReady_def
        readLoop_def writeLoop_def suspend_def spawn_def publish_def
        dest!: closed_or_same
        split: option.splits sum.splits Envelope.splits if_splits list.splits Outcome.splits
          prod.splits unit.splits,
      auto simp: resumed_def sameFlags_def closedFlags_def)

text \<open>Taking a coroutine out of those that wait.\<close>

lemma tasks_at: "i < length (tasks io) \<Longrightarrow> tasks io ! i = x \<Longrightarrow>
    tasks io = take i (tasks io) @ x # drop (Suc i) (tasks io)"
  using id_take_nth_drop by blast

lemma pendingStarts_takeTask:
  assumes "i < length (tasks io)" "tasks io ! i = (t, armed)"
  shows "beginsConnection t \<Longrightarrow> (t, armed) \<in> set (pendingStarts io) \<and>
      length (pendingStarts io) = Suc (length (pendingStarts (takeTask i io)))"
    and "\<not> beginsConnection t \<Longrightarrow> pendingStarts (takeTask i io) = pendingStarts io"
proof -
  have "pendingStarts io = filter (beginsConnection \<circ> fst)
      (take i (tasks io) @ (t, armed) # drop (Suc i) (tasks io))"
    using tasks_at [OF assms] by (simp add: pendingStarts_def)
  then show "beginsConnection t \<Longrightarrow> (t, armed) \<in> set (pendingStarts io) \<and>
      length (pendingStarts io) = Suc (length (pendingStarts (takeTask i io)))"
    and "\<not> beginsConnection t \<Longrightarrow> pendingStarts (takeTask i io) = pendingStarts io"
    by (simp_all add: pendingStarts_def takeTask_def)
qed

lemma takeTask_flags [simp]:
  "generationCounter (takeTask i io) = generationCounter io"
  "activeGeneration (takeTask i io) = activeGeneration io"
  "connectionActive (takeTask i io) = connectionActive io"
  "connected (takeTask i io) = connected io" "socketOpen (takeTask i io) = socketOpen io"
  "writerRunning (takeTask i io) = writerRunning io"
  "outgoingFrames (takeTask i io) = outgoingFrames io"
  by (simp_all add: takeTask_def)

lemma beyond_counter:
  fixes C :: u64
  assumes "unat C + 1 < 2 ^ 64"
  shows "g \<le> C \<Longrightarrow> g < C + 1"
proof -
  have "unat (C + 1) = unat C + 1"
    using assms by (simp add: unat_word_ariths)
  then show "g \<le> C \<Longrightarrow> g < C + 1" by (simp add: word_less_nat_alt word_le_nat_alt)
qed

lemma oneConnection_resume:
  assumes inv: "oneConnection io" "pendingStarts io = []" "unat (generationCounter io) + 1 < 2 ^ 64"
    and i: "i < length (tasks io)" "tasks io ! i = (t, armed)"
    and res: "resume L t r (takeTask i io) = Some (io', out)"
  shows "oneConnection io' \<and> pendingStarts io' = []"
proof -
  have t: "(t, armed) \<in> set (tasks io)" using i by (metis nth_mem)
  have nb: "\<not> beginsConnection t" using pendingStarts_takeTask(1) [OF i] inv(2) by auto
  have take: "set (tasks (takeTask i io)) \<subseteq> set (tasks io)" by (rule takeTask_tasks)
  have p: "pendingStarts (takeTask i io) = []" using pendingStarts_takeTask(2) [OF i nb] inv(2) by simp
  from resume_continues [OF res] have
    "(\<forall>x \<in> set (tasks io'). \<exists>y \<in> set (tasks io). taskGeneration (fst x) = taskGeneration (fst y)) \<and>
     pendingStarts io' = []"
    unfolding continues_def
  proof
    assume "tasks io' = tasks (takeTask i io)"
    with take p show ?thesis by (auto simp: pendingStarts_def)
  next
    assume "\<exists>x. tasks io' = tasks (takeTask i io) @ [x] \<and> successor t out (fst x)"
    then obtain x where x: "tasks io' = tasks (takeTask i io) @ [x]" "successor t out (fst x)" by blast
    from successor_generation [OF x(2)] x(1) take p t show ?thesis
      by (auto simp: pendingStarts_def intro: bexI [of _ "(t, armed)"])
  qed
  then have p': "pendingStarts io' = []" and
    gens: "\<And>x. x \<in> set (tasks io') \<Longrightarrow>
      \<exists>y \<in> set (tasks io). taskGeneration (fst x) = taskGeneration (fst y)"
    by auto
  have le: "taskGeneration (fst x) \<le> generationCounter io" if "x \<in> set (tasks io')" for x
    using gens [OF that] inv(1) by (auto simp: oneConnection_def)
  from resumed_other [OF res nb] show ?thesis
    unfolding resumed_def
  proof
    assume c: "closedFlags (takeTask i io) io'"
    then have "activeGeneration io' = generationCounter io + 1"
      using inv(1,2) by (auto simp: closedFlags_def oneConnection_def)
    moreover have "taskGeneration (fst x) \<noteq> generationCounter io + 1" if "x \<in> set (tasks io')" for x
      using beyond_counter [OF inv(3) le [OF that]] by auto
    ultimately show ?thesis
      using c p' le by (simp add: oneConnection_def closedFlags_def)
  next
    assume s: "sameFlags (takeTask i io) io' \<and> (connected io' = connected (takeTask i io) \<or>
      connected io' \<and> (\<exists>n. t = HandshakePayload (activeGeneration (takeTask i io)) n) \<and>
      socketOpen (takeTask i io) \<and> Publish IoAuthenticated \<in> set out)"
    have act: "socketOpen io \<Longrightarrow> connectionActive io" using inv(1) by (simp add: oneConnection_def)
    have ne: "taskGeneration (fst x) \<noteq> activeGeneration io"
      if "x \<in> set (tasks io')" "\<not> connectionActive io" for x
      using gens [OF that(1)] inv(1,2) that(2) by (auto simp: oneConnection_def)
    from s inv(1,2) p' le act ne show ?thesis
      by (auto simp: oneConnection_def sameFlags_def)
  qed
qed

lemma oneConnection_start:
  assumes inv: "oneConnection io" "unat (generationCounter io) + 1 < 2 ^ 64"
    and i: "i < length (tasks io)" "tasks io ! i = (ConnStart g config, armed)"
    and res: "startConnection L g config (takeTask i io) [] = (io', out)"
  shows "oneConnection io' \<and> pendingStarts io' = []"
proof -
  have "(ConnStart g config, armed) \<in> set (pendingStarts io)"
    and l: "length (pendingStarts io) = Suc (length (pendingStarts (takeTask i io)))"
    using pendingStarts_takeTask(1) [OF i] by simp_all
  with inv(1) have g: "g = generationCounter io" "connectionActive io" "\<not> connected io"
      "outgoingFrames io = []" and p: "pendingStarts (takeTask i io) = []"
    by (auto simp: oneConnection_def split: if_splits)
  have le: "taskGeneration (fst x) \<le> generationCounter io" if "x \<in> set (tasks (takeTask i io))" for x
    using inv(1) takeTask_tasks [of i io] that by (auto simp: oneConnection_def)
  show ?thesis
  proof (cases "endpointError L (socketPath config)")
    case None
    with res g p le show ?thesis
      by (auto simp: startConnection_def suspend_def Let_def oneConnection_def pendingStarts_def)
  next
    case (Some what)
    let ?io = "(takeTask i io)\<lparr>activeGeneration := g, currentConfig := Some config, socketOpen := False\<rparr>"
    from Some res obtain err where c: "closeConnection (Some err) True ?io [] = (io', out)"
      by (auto simp: startConnection_def Let_def)
    have ts: "tasks io' = tasks (takeTask i io)" using closeConnection_tasksD [OF c] by simp
    have ne: "taskGeneration (fst x) \<noteq> generationCounter io + 1" if "x \<in> set (tasks io')" for x
      using beyond_counter [OF inv(2) le [of x]] that by (simp add: ts)
    from closed_or_same [OF c] show ?thesis
      using g p le ts ne by (auto simp: closedFlags_def sameFlags_def oneConnection_def pendingStarts_def)
  qed
qed

lemma oneConnection_receive:
  assumes inv: "oneConnection io" "pendingStarts io = []" "unat (generationCounter io) + 1 < 2 ^ 64"
  shows "oneConnection (fst (handleCommand c io []))"
proof (cases c)
  case (ConnectCommand config)
  have "taskGeneration (fst x) \<le> generationCounter io + 1" if "x \<in> set (tasks io)" for x
    using beyond_counter [OF inv(3), of "taskGeneration (fst x)"] inv(1) that
    by (auto simp: oneConnection_def)
  with ConnectCommand inv(1,2) show ?thesis
    by (auto simp: oneConnection_def spawn_def pendingStarts_def Let_def)
next
  case DisconnectCommand
  obtain io' out where c: "closeConnection None False io [] = (io', out)" by fastforce
  have ne: "taskGeneration (fst x) \<noteq> generationCounter io + 1" if "x \<in> set (tasks io)" for x
    using beyond_counter [OF inv(3), of "taskGeneration (fst x)"] inv(1) that
    by (auto simp: oneConnection_def)
  from closed_or_same [OF c] closeConnection_tasksD [OF c] inv(1,2) ne show ?thesis
    using DisconnectCommand c by (auto simp: closedFlags_def sameFlags_def oneConnection_def pendingStarts_def)
next
  case (SendCommand frame)
  with inv(1,2) show ?thesis
    by (auto simp: oneConnection_def spawn_def pendingStarts_def Let_def)
qed

section \<open>Every orderly execution\<close>

definition orderlyInv :: "'g Io \<Rightarrow> (Label \<times> outs) list \<Rightarrow> bool" where
  "orderlyInv io tr \<longleftrightarrow> oneConnection io \<and> unat (generationCounter io) \<le> length tr \<and>
     (connected io \<longrightarrow> activeGeneration io \<in> authenticatedGenerations tr)"

lemma unat_next: "unat (x + 1 :: u64) \<le> Suc (unat x)"
proof -
  have "unat (x + 1) = Suc (unat x) mod 2 ^ 64" by (simp add: unat_word_ariths)
  then show ?thesis by (metis mod_less_eq_dividend)
qed

lemma closeConnection_counter [simp]:
  "generationCounter (fst (closeConnection err rep io out)) = generationCounter io"
  by (simp add: closeConnection_def Let_def split: option.split)

lemma handleCommand_counter:
  "unat (generationCounter (fst (handleCommand c io []))) \<le> Suc (unat (generationCounter io))"
proof (cases c)
  case (ConnectCommand config)
  then show ?thesis using unat_next [of "generationCounter io"] by (simp add: spawn_def Let_def)
qed (simp_all add: spawn_def Let_def)

lemma handleCommand_connected:
  "connected (fst (handleCommand c io [])) \<Longrightarrow> connected io \<and>
     activeGeneration (fst (handleCommand c io [])) = activeGeneration io"
  by (cases c) (auto simp: spawn_def closeConnection_def publish_def Let_def split: if_splits)

lemma receive_flags:
  assumes "receiveCommand c io = (io', out)" and "handleCommand c io [] = (io1, out1)"
  shows "oneConnection io' = oneConnection io1" "generationCounter io' = generationCounter io1"
    "connected io' = connected io1" "activeGeneration io' = activeGeneration io1"
proof -
  have io': "io' = io1\<lparr>actorRunning := \<not> stopping io1\<rparr>"
    using assms by (simp add: receiveCommand_def)
  show "oneConnection io' = oneConnection io1" "generationCounter io' = generationCounter io1"
    "connected io' = connected io1" "activeGeneration io' = activeGeneration io1"
    unfolding io' by (simp_all add: oneConnection_def pendingStarts_def)
qed

lemma orderlyInv_receive:
  assumes "orderlyInv io tr" "pendingStarts io = []" "length tr + 1 < 2 ^ 64"
    and r: "receiveCommand c (io\<lparr>commands := cs\<rparr>) = (io', out)"
  shows "orderlyInv io' ((l, out) # tr)"
proof -
  let ?io = "io\<lparr>commands := cs\<rparr>"
  obtain io1 out1 where h: "handleCommand c ?io [] = (io1, out1)" by fastforce
  have "oneConnection ?io" "pendingStarts ?io = []" "unat (generationCounter ?io) + 1 < 2 ^ 64"
    using assms(1-3) by (auto simp: orderlyInv_def oneConnection_def pendingStarts_def)
  from oneConnection_receive [OF this, of c] h have "oneConnection io1" by simp
  moreover have "unat (generationCounter io1) \<le> Suc (unat (generationCounter io))"
    using handleCommand_counter [of c ?io] h by simp
  moreover have "connected io1 \<Longrightarrow> connected io \<and> activeGeneration io1 = activeGeneration io"
    using handleCommand_connected [of c ?io] h by simp
  ultimately show ?thesis
    using receive_flags [OF r h] assms(1) authenticatedGenerations_mono [of tr "(l, out)"]
    by (auto simp: orderlyInv_def)
qed

lemma resume_start:
  assumes "resume L t r io = Some (io', out)" "beginsConnection t"
  obtains g config where "t = ConnStart g config" "startConnection L g config io [] = (io', out)"
  using assms by (cases t) auto

lemma startConnection_counter:
  "startConnection L g config io [] = (io', out) \<Longrightarrow> generationCounter io' = generationCounter io \<and>
     (connected io' \<longrightarrow> connected io)"
  by (auto simp: startConnection_def suspend_def closeConnection_def publish_def Let_def
      split: option.splits if_splits)

lemma authenticated_now:
  "Publish IoAuthenticated \<in> set out \<Longrightarrow>
     g \<in> authenticatedGenerations ((Resume (HandshakePayload g n) r, out) # tr)"
  by (auto simp: authenticatedGenerations_def)

lemma orderlyInv_resume:
  assumes inv: "orderlyInv io tr" "pendingStarts io = [] \<or> beginsConnection t" "length tr + 1 < 2 ^ 64"
    and i: "i < length (tasks io)" "tasks io ! i = (t, armed)"
    and res: "resume L t r (takeTask i io) = Some (io', out)"
  shows "orderlyInv io' ((Resume t r, out) # tr)"
proof -
  have one: "oneConnection io" and C: "unat (generationCounter io) + 1 < 2 ^ 64"
    using inv(1,3) by (auto simp: orderlyInv_def)
  note mono = authenticatedGenerations_mono [of tr "(Resume t r, out)"]
  show ?thesis
  proof (cases "beginsConnection t")
    case True
    from resume_start [OF res True] obtain g config where t: "t = ConnStart g config"
      and s: "startConnection L g config (takeTask i io) [] = (io', out)" .
    have "(t, armed) \<in> set (pendingStarts io)" using pendingStarts_takeTask(1) [OF i True] by simp
    with one have "\<not> connected io" by (auto simp: oneConnection_def split: if_splits)
    with startConnection_counter [OF s] oneConnection_start [OF one C _ _ s] i t inv(1) show ?thesis
      by (simp add: orderlyInv_def)
  next
    case False
    with inv(2) have p: "pendingStarts io = []" by simp
    have new: "oneConnection io'" using oneConnection_resume [OF one p C i res] by simp
    from resumed_other [OF res False] have "generationCounter io' = generationCounter io"
      and "connected io' \<Longrightarrow> activeGeneration io' \<in> authenticatedGenerations ((Resume t r, out) # tr)"
      using inv(1) mono authenticated_now [of out _ _ r tr]
      by (auto simp: resumed_def sameFlags_def closedFlags_def orderlyInv_def)
    with new inv(1) show ?thesis by (simp add: orderlyInv_def)
  qed
qed

text \<open>The calls of the fcitx thread leave the flags, but \<open>stop()\<close> closes the socket.\<close>

lemma oneConnection_calls:
  "oneConnection (snd (ioConnect config io)) = oneConnection io"
  "oneConnection (snd (ioDisconnect io)) = oneConnection io"
  "oneConnection (snd (ioSend pb env io)) = oneConnection io"
  "oneConnection io \<Longrightarrow> oneConnection (stopIo io)"
  "oneConnection (haltContext io) = oneConnection io"
  "oneConnection (receiveError io) = oneConnection io"
  by (auto simp: oneConnection_def pendingStarts_def io_defs receiveError_def split: sum.split)

lemma flags_calls:
  "generationCounter (snd (ioConnect config io)) = generationCounter io"
  "activeGeneration (snd (ioConnect config io)) = activeGeneration io"
  "generationCounter (snd (ioDisconnect io)) = generationCounter io"
  "activeGeneration (snd (ioDisconnect io)) = activeGeneration io"
  "generationCounter (snd (ioSend pb env io)) = generationCounter io"
  "activeGeneration (snd (ioSend pb env io)) = activeGeneration io"
  "generationCounter (stopIo io) = generationCounter io"
  "activeGeneration (stopIo io) = activeGeneration io"
  "generationCounter (haltContext io) = generationCounter io"
  "activeGeneration (haltContext io) = activeGeneration io"
  "generationCounter (receiveError io) = generationCounter io"
  "activeGeneration (receiveError io) = activeGeneration io"
  by (simp_all add: io_defs receiveError_def split: sum.split)

lemma orderly_inv: "orderlyExecution L io tr \<Longrightarrow> length tr < 2 ^ 64 \<Longrightarrow> orderlyInv io tr"
proof (induction rule: orderlyExecution.induct)
  case (start g)
  then show ?case by (simp add: orderlyInv_def oneConnection_def initIo_def pendingStarts_def)
next
  case (step io tr l io' out)
  then have inv: "orderlyInv io tr" and len: "length tr + 1 < 2 ^ 64" by simp_all
  note mono = authenticatedGenerations_mono [of tr "(l, out)"]
  from step.hyps(2) show ?case
  proof (cases rule: ioStep.cases)
    case (receive c cs)
    with step.hyps(3) show ?thesis
      by (intro orderlyInv_receive [OF inv _ len]) auto
  next
    case (continue i t armed r)
    with step.hyps(3) show ?thesis
      using orderlyInv_resume [OF inv _ len continue(4,5) continue(2) [symmetric]] by auto
  qed (use inv mono in \<open>auto simp: orderlyInv_def oneConnection_calls flags_calls\<close>)
qed

lemma resume_writes:
  assumes "resume L t r io = Some (io', out)" "StartWrite frame \<in> set out"
  shows "(\<exists>g config. t = Connecting g config) \<and> helloFrame L frame \<or>
    (t = WriteStart (activeGeneration io) \<or> (\<exists>f. t = WriteFrame (activeGeneration io) f)) \<and>
    outgoingFrames io \<noteq> []"
  using assms
  by (cases t; cases r)
     (auto simp: Let_def startConnection_def authenticate_def finishHandshake_def
        connectionReady_def readLoop_def writeLoop_def suspend_def spawn_def publish_def helloFrame_def
        dest!: outgoing_close [where f = frame] generateNonce_size
        split: option.splits sum.splits Envelope.splits if_splits list.splits Outcome.splits
          prod.splits unit.splits)

text \<open>
  C7. Nothing of the session is said to a stranger: in every orderly execution each frame handed
  to the socket is the ClientHello of a handshake, or is written by the writer of the current
  connection while this is up, with its peer's ServerHello accepted earlier on this very
  generation.
\<close>

theorem session_frames_after_authentication:
  assumes "orderlyExecution L io ((l, out) # tr)" and "StartWrite frame \<in> set out"
    and "length tr + 1 < 2 ^ 64"
  shows "(\<exists>g config r nonce. l = Resume (Connecting g config) r \<and>
      encodeFrame (protobuf L) (clientHelloEnvelope nonce) = Inr frame) \<or>
    (\<exists>io0 g r. orderlyExecution L io0 tr \<and> connected io0 \<and> activeGeneration io0 = g \<and>
      (l = Resume (WriteStart g) r \<or> (\<exists>f. l = Resume (WriteFrame g f) r)) \<and>
      (\<exists>n r' out'. (Resume (HandshakePayload g n) r', out') \<in> set tr \<and>
         Publish IoAuthenticated \<in> set out'))"
proof -
  from assms(1) obtain io0 where ex: "orderlyExecution L io0 tr"
    and st: "ioStep L io0 l (Some (io, out))"
    by (cases rule: orderlyExecution.cases) auto
  have inv: "orderlyInv io0 tr" using orderly_inv [OF ex] assms(3) by simp
  from st show ?thesis
  proof (cases rule: ioStep.cases)
    case (receive c cs)
    with assms(2) framesIn_command(2) [of io0 c cs frame] show ?thesis
      by (metis option.inject snd_conv)
  next
    case (continue i t armed r)
    from resume_writes [OF continue(2) [symmetric] assms(2)] show ?thesis
    proof
      assume "(\<exists>g config. t = Connecting g config) \<and> helloFrame L frame"
      with continue(1) show ?thesis by (auto simp: helloFrame_def)
    next
      assume w: "(t = WriteStart (activeGeneration (takeTask i io0)) \<or>
        (\<exists>f. t = WriteFrame (activeGeneration (takeTask i io0)) f)) \<and>
        outgoingFrames (takeTask i io0) \<noteq> []"
      with inv have "connected io0" "activeGeneration io0 \<in> authenticatedGenerations tr"
        by (auto simp: orderlyInv_def oneConnection_def)
      with ex w continue(1) show ?thesis by (auto simp: authenticatedGenerations_def)
    qed
  qed (use assms(2) in auto)
qed

section \<open>Schedules in and out of order\<close>

fun keepsOrder :: "'g IoLib \<Rightarrow> Choice list \<Rightarrow> 'g Io \<Rightarrow> bool" where
  "keepsOrder L [] io = True"
| "keepsOrder L (c # cs) io =
     (case pick L c io of
        Some (l, Some (io', out)) \<Rightarrow> (pendingStarts io = [] \<or> mayPrecede l) \<and> keepsOrder L cs io'
      | _ \<Rightarrow> False)"

lemma schedule_orderly:
  "schedule L cs (io, tr) = Some (io', tr') \<Longrightarrow> keepsOrder L cs io \<Longrightarrow> orderlyExecution L io tr \<Longrightarrow>
     orderlyExecution L io' tr'"
proof (induction cs arbitrary: io tr)
  case Nil
  then show ?case by simp
next
  case (Cons c cs)
  then obtain l io1 out where p: "pick L c io = Some (l, Some (io1, out))"
    by (auto split: option.splits prod.splits)
  have "orderlyExecution L io1 ((l, out) # tr)"
    using Cons.prems p by (intro orderlyExecution.step [OF _ pick_step [OF p]]) auto
  with Cons.IH Cons.prems p show ?case by simp
qed

definition sendSchedule :: "Choice list" where
  "sendSchedule = readySchedule @ [Call (CallSend PayloadNotSet), Take, Continue 1 (Completed [])]"

lemma session_frame_written:
  "\<exists>io tr. schedule exampleLib sendSchedule (initIo (), []) =
     Some (io, (Resume (WriteStart 1) (Completed []), [StartWrite [0, 0, 0, 1, 5]]) # tr) \<and>
   keepsOrder exampleLib sendSchedule (initIo ()) \<and> length tr + 1 < 2 ^ 64"
  by (simp add: sendSchedule_def schedule_defs finishHandshake_def connectionReady_def
      pendingStarts_def Let_def)

theorem session_frames_after_authentication_witness:
  "\<exists>io tr io0. orderlyExecution exampleLib io
       ((Resume (WriteStart 1) (Completed []), [StartWrite [0, 0, 0, 1, 5]]) # tr) \<and>
     orderlyExecution exampleLib io0 tr \<and> connected io0 \<and>
     (\<exists>n r out. (Resume (HandshakePayload 1 n) r, out) \<in> set tr \<and> Publish IoAuthenticated \<in> set out)"
proof -
  obtain io tr where s: "schedule exampleLib sendSchedule (initIo (), []) =
     Some (io, (Resume (WriteStart 1) (Completed []), [StartWrite [0, 0, 0, 1, 5]]) # tr)"
    "keepsOrder exampleLib sendSchedule (initIo ())" "length tr + 1 < 2 ^ 64"
    using session_frame_written by blast
  have ex: "orderlyExecution exampleLib io
      ((Resume (WriteStart 1) (Completed []), [StartWrite [0, 0, 0, 1, 5]]) # tr)"
    by (rule schedule_orderly [OF s(1,2)]) (rule orderlyExecution.start)
  from session_frames_after_authentication [OF ex _ s(3)]
  have "\<exists>io0. orderlyExecution exampleLib io0 tr \<and> connected io0 \<and>
      (\<exists>n r out. (Resume (HandshakePayload 1 n) r, out) \<in> set tr \<and> Publish IoAuthenticated \<in> set out)"
    by simp metis
  with ex show ?thesis by blast
qed

text \<open>
  The order matters. If two starts are still to come when a disconnect has been handled between
  their connect commands, the first becomes an authenticated connection, the second takes its
  place with the flag still set, and a frame of the session goes to a peer that has proved
  nothing. asio happens to enter a spawned coroutine at once; the generations alone would not
  prevent this.
\<close>

definition lateStart :: "Choice list" where
  "lateStart = [Call (CallConnect exampleConfig), Call CallDisconnect,
     Call (CallConnect exampleConfig), Take, Take, Take, Continue 0 (Completed []),
     Continue 1 (Completed []), Continue 1 (Completed []), Continue 1 (Completed [0, 0, 0, 1]),
     Continue 1 (Completed [5]), Continue 0 (Completed []), Call (CallSend PayloadNotSet), Take,
     Continue 1 (Completed [])]"

lemma late_start_unauthenticated:
  "\<exists>io tr io'. execution exampleLib io tr \<and>
     ioStep exampleLib io (Resume (WriteStart 2) (Completed [])) (Some (io', [StartWrite [0, 0, 0, 1, 5]])) \<and>
     2 \<notin> authenticatedGenerations tr"
proof -
  obtain io tr io' where
    s: "schedule exampleLib lateStart (initIo (), []) = Some (io, tr)"
    and p: "pick exampleLib (Continue 1 (Completed [])) io =
      Some (Resume (WriteStart 2) (Completed []), Some (io', [StartWrite [0, 0, 0, 1, 5]]))"
    and a: "2 \<notin> authenticatedGenerations tr"
    by (simp add: lateStart_def schedule_defs finishHandshake_def connectionReady_def
        authenticatedGenerations_def Let_def)
  from schedule_execution [OF s execution.start] pick_step [OF p] a show ?thesis by blast
qed

end
