(* ===== verification/Io_Stop.thy ===== *)
theory Io_Stop
  imports Io_Safety
begin

text \<open>
  The end of the transport actor: what \<open>stop()\<close> leads to. \<open>Io::~Io\<close> stops the actor and joins
  the worker thread; the loop \<open>run()\<close> must not keep it.
\<close>

section \<open>What decides that the actor runs\<close>

text \<open>No coroutine but the actor itself touches the flag, the channel or \<open>stopping\<close>.\<close>

definition actorState :: "'g Io \<Rightarrow> bool \<times> bool \<times> bool" where
  "actorState io = (stopping io, commandsOpen io, actorRunning io)"

lemma actorState_close:
  "closeConnection err rep io out = (io', out') \<Longrightarrow> actorState io' = actorState io"
  by (auto simp: actorState_def closeConnection_def publish_def Let_def
      split: option.splits if_splits)

lemma actorState_update [simp]:
  "actorState (io\<lparr>tasks := ts\<rparr>) = actorState io"
  "actorState (io\<lparr>commands := cs\<rparr>) = actorState io"
  "actorState (io\<lparr>writerRunning := b\<rparr>) = actorState io"
  by (simp_all add: actorState_def)

lemma actorState_takeTask [simp]: "actorState (takeTask i io) = actorState io"
  by (simp add: takeTask_def)

lemma actorState_resume:
  assumes "resume L t r io = Some (io', out)"
  shows "actorState io' = actorState io"
  using assms
  by (cases t; cases r)
     (auto simp: Let_def startConnection_def authenticate_def finishHandshake_def
        connectionReady_def readLoop_def writeLoop_def suspend_def spawn_def
        dest!: actorState_close
        split: option.splits sum.splits Envelope.splits if_splits list.splits Outcome.splits
          prod.splits unit.splits, simp_all add: actorState_def)

lemma actorState_handleCommand:
  "actorState (fst (handleCommand c io out)) = actorState io"
  by (cases c) (auto simp: actorState_def spawn_def closeConnection_def publish_def Let_def
      split: option.splits)

lemma receiveCommand_actor:
  "actorState (fst (receiveCommand c io)) = (stopping io, commandsOpen io, \<not> stopping io)"
  using actorState_handleCommand [of c io "[]"]
  by (simp add: receiveCommand_def actorState_def split_beta)

lemma actorState_calls:
  "actorState (snd (ioConnect config io)) = actorState io"
  "actorState (snd (ioDisconnect io)) = actorState io"
  "actorState (snd (ioSend pb env io)) = actorState io"
  by (simp_all add: actorState_def io_defs split: sum.split)

section \<open>Turns of the actor\<close>

fun actorTurn :: "Label \<Rightarrow> bool" where
  "actorTurn (Receive _) = True"
| "actorTurn ReceiveError = True"
| "actorTurn _ = False"

text \<open>How one step moves the actor: a turn needs it running and leaves it running unless the
  actor is stopping; \<open>stop()\<close> closes the channel; every other step leaves all of it alone.\<close>

lemma actor_step:
  assumes "ioStep L io l (Some (io', out))"
  shows "(actorTurn l \<longrightarrow> actorRunning io \<and>
      actorState io' = (stopping io, commandsOpen io, \<not> stopping io)) \<and>
    (l = CallStop \<longrightarrow> actorState io' = (True, False, actorRunning io)) \<and>
    (\<not> actorTurn l \<longrightarrow> l \<noteq> CallStop \<longrightarrow> actorState io' = actorState io) \<and>
    (l = ReceiveError \<longrightarrow> \<not> commandsOpen io)"
  using assms
proof (cases rule: ioStep.cases)
  case (receive c cs)
  then have "io' = fst (receiveCommand c (io\<lparr>commands := cs\<rparr>))" by (metis fst_conv option.inject)
  then have "actorState io' = (stopping io, commandsOpen io, \<not> stopping io)"
    by (simp add: receiveCommand_actor)
  with receive(1,3) show ?thesis by simp
next
  case receive_error
  then show ?thesis by (auto simp: receiveError_def actorState_def split: if_splits)
next
  case (continue i t armed r)
  then show ?thesis using actorState_resume [of L t r "takeTask i io" io' out] by auto
next
  case call_stop
  then show ?thesis by (simp add: stopIo_def actorState_def)
next
  case call_halt
  then show ?thesis by (simp add: haltContext_def actorState_def)
qed (simp_all add: actorState_calls)

text \<open>In every execution: the channel is open and the actor runs exactly until \<open>stop()\<close>; only a
  stopped actor can have ended, and only a stopped one sees the channel's error.\<close>

definition actorInv :: "'g Io \<Rightarrow> Label list \<Rightarrow> bool" where
  "actorInv io ls \<longleftrightarrow> (commandsOpen io \<longleftrightarrow> \<not> stopping io) \<and> (stopping io \<longleftrightarrow> CallStop \<in> set ls) \<and>
     (\<not> actorRunning io \<longrightarrow> stopping io) \<and> (ReceiveError \<in> set ls \<longrightarrow> stopping io)"

lemma actorInv_step:
  assumes "actorInv io ls" and "ioStep L io l (Some (io', out))"
  shows "actorInv io' (l # ls)"
  using assms(1) actor_step [OF assms(2)]
  by (cases "actorTurn l"; cases l) (auto simp: actorInv_def actorState_def)

lemma execution_actorInv: "execution L io tr \<Longrightarrow> actorInv io (map fst tr)"
proof (induction rule: execution.induct)
  case (start g)
  then show ?case by (simp add: actorInv_def initIo_def)
next
  case (step io tr l io' out)
  from actorInv_step [OF step.IH step.hyps(2)] show ?case by simp
qed

lemma execution_Cons:
  assumes "execution L io ((l, out) # tr)"
  obtains io0 where "execution L io0 tr" "ioStep L io0 l (Some (io, out))"
  using assms by (cases rule: execution.cases) auto

text \<open>The turns since the last \<open>stop()\<close>.\<close>

definition turnsIn :: "(Label \<times> outs) list \<Rightarrow> nat" where
  "turnsIn tr = length (filter (actorTurn \<circ> fst) tr)"

lemma turns_after_stop:
  assumes "execution L io (tr1 @ (CallStop, out0) # tr0)"
  shows "turnsIn tr1 \<le> (if actorRunning io then 0 else 1)"
  using assms
proof (induction tr1 arbitrary: io)
  case Nil
  then show ?case by (simp add: turnsIn_def)
next
  case (Cons x tr1)
  obtain l out where x: "x = (l, out)" by fastforce
  with Cons.prems obtain io0 where ex: "execution L io0 (tr1 @ (CallStop, out0) # tr0)"
    and st: "ioStep L io0 l (Some (io, out))"
    using execution_Cons by (metis append_Cons)
  have "stopping io0" using execution_actorInv [OF ex] by (simp add: actorInv_def)
  with Cons.IH [OF ex] actor_step [OF st] show ?case
    by (cases "actorTurn l"; cases "l = CallStop")
       (auto simp: x turnsIn_def actorState_def split: if_splits)
qed

lemma stopped_turn:
  assumes "actorRunning io" "stopping io" "\<not> commandsOpen io" "\<not> contextStopped io"
  shows "\<exists>c io' out. runTurn io = Some (c, (io', out)) \<and> \<not> actorRunning io'"
proof (cases "commands io")
  case Nil
  with assms show ?thesis by (simp add: receiveError_def)
next
  case (Cons c cs)
  obtain io' out where r: "receiveCommand c (io\<lparr>commands := cs\<rparr>) = (io', out)" by fastforce
  have "\<not> actorRunning io'"
    using receiveCommand_actor [of c "io\<lparr>commands := cs\<rparr>"] assms(2) by (simp add: r actorState_def)
  with Cons assms(1,4) r show ?thesis by simp
qed

text \<open>After the context is halted only calls of the fcitx thread are left, and they put nothing out.\<close>

lemma halted_step:
  assumes "ioStep L io l (Some (io', out))" and "contextStopped io"
  shows "contextStopped io' \<and> out = [] \<and> \<not> actorTurn l"
  using assms(1)
  by (cases rule: ioStep.cases)
     (use assms(2) in \<open>auto simp: io_defs split: sum.split\<close>)

lemma silent_after_halt:
  assumes "execution L io (tr1 @ (CallHalt, out0) # tr0)"
  shows "contextStopped io \<and> list_all (\<lambda>x. snd x = [] \<and> \<not> actorTurn (fst x)) tr1"
  using assms
proof (induction tr1 arbitrary: io)
  case Nil
  then obtain io0 where "ioStep L io0 CallHalt (Some (io, out0))"
    using execution_Cons by (metis append_Nil)
  then show ?case by (cases rule: ioStep.cases) (simp add: haltContext_def)
next
  case (Cons x tr1)
  obtain l out where x: "x = (l, out)" by fastforce
  with Cons.prems obtain io0 where ex: "execution L io0 (tr1 @ (CallHalt, out0) # tr0)"
    and st: "ioStep L io0 l (Some (io, out))"
    using execution_Cons by (metis append_Cons)
  from Cons.IH [OF ex] halted_step [OF st] show ?case by (simp add: x)
qed

text \<open>
  C21. The actor ends when it is stopped, and not before. After \<open>stop()\<close> has begun the loop
  \<open>run()\<close> makes at most one more turn, in every execution; while it has not made that turn and
  the context is not halted, the turn is possible (the closed channel delivers or reports its
  error) and ends the loop. Once the context is halted nothing is published or written any
  more. Before \<open>stop()\<close> the loop runs, and its receive never reports an error, so the loop
  never spins on one.
\<close>

theorem stopped_actor_ends:
  assumes "execution L io tr"
  shows "(\<forall>tr1 out0 tr0. tr = tr1 @ (CallStop, out0) # tr0 \<longrightarrow>
      turnsIn tr1 \<le> 1 \<and>
      (actorRunning io \<and> \<not> contextStopped io \<longrightarrow> turnsIn tr1 = 0 \<and>
         (\<exists>c io' out. runTurn io = Some (c, (io', out)) \<and> \<not> actorRunning io'))) \<and>
    (\<forall>tr1 out0 tr0. tr = tr1 @ (CallHalt, out0) # tr0 \<longrightarrow>
      turnsIn tr1 = 0 \<and> concat (map snd tr1) = []) \<and>
    (CallStop \<notin> fst ` set tr \<longrightarrow> actorRunning io \<and> ReceiveError \<notin> fst ` set tr)"
proof -
  have inv: "actorInv io (map fst tr)" by (rule execution_actorInv [OF assms])
  show ?thesis
  proof (intro conjI allI impI)
    fix tr1 out0 tr0
    assume tr: "tr = tr1 @ (CallStop, out0) # tr0"
    from turns_after_stop [of L io tr1 out0 tr0] assms tr
    have t: "turnsIn tr1 \<le> (if actorRunning io then 0 else 1)" by simp
    then show "turnsIn tr1 \<le> 1" by (simp split: if_splits)
    assume run: "actorRunning io \<and> \<not> contextStopped io"
    with t show "turnsIn tr1 = 0" by simp
    from inv tr have "stopping io" "\<not> commandsOpen io" by (simp_all add: actorInv_def)
    with run show "\<exists>c io' out. runTurn io = Some (c, (io', out)) \<and> \<not> actorRunning io'"
      by (intro stopped_turn) simp_all
  next
    fix tr1 out0 tr0
    assume tr: "tr = tr1 @ (CallHalt, out0) # tr0"
    with silent_after_halt [of L io tr1 out0 tr0] assms
    have "list_all (\<lambda>x. snd x = [] \<and> \<not> actorTurn (fst x)) tr1" by simp
    then show "turnsIn tr1 = 0" "concat (map snd tr1) = []"
      by (simp_all add: turnsIn_def list_all_iff)
  qed (use inv in \<open>auto simp: actorInv_def\<close>)
qed

theorem stopped_actor_ends_witness:
  "\<exists>io. execution exampleLib io [(CallStop, []), (CallDisconnect, [])] \<and> actorRunning io \<and>
     (\<exists>c io' out. runTurn io = Some (c, (io', out)) \<and> \<not> actorRunning io')"
proof -
  let ?io = "stopIo (snd (ioDisconnect (initIo ())))"
  have "schedule exampleLib [Call CallDisconnect, Call CallStop] (initIo (), []) =
      Some (?io, [(CallStop, []), (CallDisconnect, [])])" by simp
  then have ex: "execution exampleLib ?io [(CallStop, []), (CallDisconnect, [])]"
    by (rule schedule_execution) (rule execution.start)
  moreover have run: "actorRunning ?io" "\<not> contextStopped ?io" by (simp_all add: initIo_def io_defs commandCapacity_def)
  ultimately show ?thesis
    using conjunct1 [OF stopped_actor_ends [OF ex], rule_format, of "[]" "[]" "[(CallDisconnect, [])]"]
    by (intro exI [of _ ?io]) simp
qed

end
