(* ===== verification/Registry.thy ===== *)
theory Registry
  imports Errors
begin

text \<open>
  The context registry of \<open>src/src/addon/addon.hpp\<close> and \<open>addon.cpp\<close>: fcitx input contexts,
  known by their address, are given opaque ids; each id keeps a weak reference to the object
  it was given to.

  fcitx's objects are a parameter: \<open>objectAt p\<close> is the object alive at the address \<open>p\<close>, if any,
  so an address may be used again by another object. A \<open>TrackableObjectReference\<close> is the
  address with the object that was there when \<open>watch()\<close> was called, and \<open>get()\<close> returns the
  address while that very object lives. The \<open>boost::bimap\<close> is the list of its pairs; its
  \<open>insert\<close> does nothing when either side is taken.
\<close>

section \<open>Objects and weak references\<close>

type_synonym ('p, 'o) Objects = "'p \<Rightarrow> 'o option"
type_synonym ('p, 'o) WeakRef = "'p \<times> 'o option"

definition watch :: "('p, 'o) Objects \<Rightarrow> 'p \<Rightarrow> ('p, 'o) WeakRef" where
  "watch objectAt p = (p, objectAt p)"

definition weakGet :: "('p, 'o) Objects \<Rightarrow> ('p, 'o) WeakRef \<Rightarrow> 'p option" where
  "weakGet objectAt r = (if snd r \<noteq> None \<and> objectAt (fst r) = snd r then Some (fst r) else None)"

section \<open>The bidirectional map\<close>

type_synonym 'p ContextMap = "('p \<times> ContextId) list"

definition leftFind :: "'p ContextMap \<Rightarrow> 'p \<Rightarrow> ContextId option" where
  "leftFind m p = map_of m p"

definition rightFind :: "'p ContextMap \<Rightarrow> ContextId \<Rightarrow> 'p option" where
  "rightFind m c = map_of (map (\<lambda>(p, c). (c, p)) m) c"

definition bimapInsert :: "'p \<Rightarrow> ContextId \<Rightarrow> 'p ContextMap \<Rightarrow> 'p ContextMap" where
  "bimapInsert p c m =
     (if leftFind m p = None \<and> rightFind m c = None then (p, c) # m else m)"

definition rightErase :: "ContextId \<Rightarrow> 'p ContextMap \<Rightarrow> 'p ContextMap" where
  "rightErase c m = filter (\<lambda>(p, c'). c' \<noteq> c) m"

section \<open>Operations\<close>

record ('p, 'o) Registry =
  nextContextId :: ContextId
  contextMap :: "'p ContextMap"
  contextsById :: "ContextId \<rightharpoonup> ('p, 'o) WeakRef"

definition ensureContextId ::
  "('p, 'o) Objects \<Rightarrow> 'p \<Rightarrow> ('p, 'o, 'z) Registry_scheme \<Rightarrow>
     ContextId \<times> ('p, 'o, 'z) Registry_scheme" where
  "ensureContextId objectAt p r =
     (case leftFind (contextMap r) p of
        Some c \<Rightarrow> (c, r)
      | None \<Rightarrow>
          let c = nextContextId r;
              r = r\<lparr>nextContextId := nextContextId r + 1\<rparr>;
              ref = watch objectAt p;
              r = (if contextsById r c = None
                   then r\<lparr>contextsById := (contextsById r)(c \<mapsto> ref)\<rparr> else r);
              r = r\<lparr>contextMap := bimapInsert p c (contextMap r)\<rparr>
          in (c, r))"

definition findContextId :: "'p \<Rightarrow> ('p, 'o, 'z) Registry_scheme \<Rightarrow> ContextId option" where
  "findContextId p r =
     (case leftFind (contextMap r) p of Some c \<Rightarrow> Some c | None \<Rightarrow> None)"

definition eraseContext ::
  "ContextId \<Rightarrow> ('p, 'o, 'z) Registry_scheme \<Rightarrow> ('p, 'o, 'z) Registry_scheme" where
  "eraseContext c r =
     (case contextsById r c of
        None \<Rightarrow> r
      | Some _ \<Rightarrow>
          let r = (case rightFind (contextMap r) c of
                     Some _ \<Rightarrow> r\<lparr>contextMap := rightErase c (contextMap r)\<rparr>
                   | None \<Rightarrow> r)
          in r\<lparr>contextsById := (contextsById r)(c := None)\<rparr>)"

section \<open>The invariant\<close>

text \<open>
  Ids and addresses correspond one to one; each registered id has a weak reference taken at
  its own address, and each reference is registered; all ids were given out before the next.
\<close>

definition registryInv :: "('p, 'o, 'z) Registry_scheme \<Rightarrow> bool" where
  "registryInv r \<longleftrightarrow>
     distinct (map fst (contextMap r)) \<and> distinct (map snd (contextMap r)) \<and>
     (\<forall>p c. (p, c) \<in> set (contextMap r) \<longleftrightarrow> (\<exists>ob. contextsById r c = Some (p, ob))) \<and>
     (\<forall>c \<in> snd ` set (contextMap r). 0 < c \<and> c < nextContextId r)"

text \<open>There is an id left: the 64-bit counter has not reached its end.\<close>

definition roomLeft :: "('p, 'o, 'z) Registry_scheme \<Rightarrow> bool" where
  "roomLeft r \<longleftrightarrow> 0 < nextContextId r \<and> nextContextId r + 1 \<noteq> 0"

lemma leftFind_iff:
  "registryInv r \<Longrightarrow> leftFind (contextMap r) p = Some c \<longleftrightarrow> (p, c) \<in> set (contextMap r)"
  by (simp add: registryInv_def leftFind_def)

lemma rightFind_iff:
  "registryInv r \<Longrightarrow> rightFind (contextMap r) c = Some p \<longleftrightarrow> (p, c) \<in> set (contextMap r)"
proof -
  assume "registryInv r"
  then have "distinct (map fst (map (\<lambda>(p, c). (c, p)) (contextMap r)))"
    by (simp add: registryInv_def comp_def case_prod_beta)
  then show ?thesis
    unfolding rightFind_def by (subst map_of_eq_Some_iff) force+
qed

lemma find_eq: "findContextId p r = leftFind (contextMap r) p"
  by (simp add: findContextId_def split: option.splits)

lemma find_unregistered:
  "registryInv r \<Longrightarrow> leftFind (contextMap r) p = None \<longleftrightarrow> p \<notin> fst ` set (contextMap r)"
  by (simp add: leftFind_def map_of_eq_None_iff)

text \<open>An id at or above the counter is free on the right side.\<close>

lemma next_free:
  assumes "registryInv r"
  shows "contextsById r (nextContextId r) = None"
    and "rightFind (contextMap r) (nextContextId r) = None"
proof -
  have nin: "(p, nextContextId r) \<notin> set (contextMap r)" for p
    using assms unfolding registryInv_def by force
  then show "contextsById r (nextContextId r) = None"
    using assms unfolding registryInv_def by (metis not_Some_eq surj_pair)
  show "rightFind (contextMap r) (nextContextId r) = None"
    using nin rightFind_iff [OF assms] by (metis not_Some_eq)
qed

lemma ensure_new:
  assumes "registryInv r" and "leftFind (contextMap r) p = None"
  shows "ensureContextId objectAt p r =
    (nextContextId r,
     r\<lparr>nextContextId := nextContextId r + 1,
       contextMap := (p, nextContextId r) # contextMap r,
       contextsById := (contextsById r)(nextContextId r \<mapsto> (p, objectAt p))\<rparr>)"
  using assms next_free [OF assms(1)]
  by (simp add: ensureContextId_def bimapInsert_def watch_def Let_def)

lemma ensure_old:
  "leftFind (contextMap r) p = Some c \<Longrightarrow> ensureContextId objectAt p r = (c, r)"
  by (simp add: ensureContextId_def)

lemma ensure_inv:
  assumes inv: "registryInv r" and room: "roomLeft r"
  shows "registryInv (snd (ensureContextId objectAt p r))"
proof (cases "leftFind (contextMap r) p")
  case (Some c)
  with inv show ?thesis by (simp add: ensure_old)
next
  case None
  let ?n = "nextContextId r"
  have lt: "?n < ?n + 1" and pos: "0 < ?n"
    using room unatSuc [of ?n] by (simp_all add: roomLeft_def word_less_nat_alt add.commute)
  have fresh: "(q, ?n) \<notin> set (contextMap r)" for q
    using inv unfolding registryInv_def by force
  have free: "contextsById r ?n = None" by (rule next_free [OF inv])
  have pf: "p \<notin> fst ` set (contextMap r)" using None inv by (simp add: find_unregistered)
  have old: "0 < c \<and> c < ?n" if "c \<in> snd ` set (contextMap r)" for c
    using inv that unfolding registryInv_def by blast
  have bounds: "\<forall>c \<in> snd ` set ((p, ?n) # contextMap r). 0 < c \<and> c < ?n + 1"
    using old lt pos by (auto intro: less_trans)
  have corr: "(q, c) \<in> set ((p, ?n) # contextMap r) \<longleftrightarrow>
      (\<exists>ob. ((contextsById r)(?n \<mapsto> (p, objectAt p))) c = Some (q, ob))" for q c
    using inv fresh unfolding registryInv_def by auto
  show ?thesis
    unfolding ensure_new [OF inv None] registryInv_def
    using inv fresh pf bounds corr by (auto simp: registryInv_def image_iff)
qed


lemma erase_gone:
  assumes inv: "registryInv r"
  shows "eraseContext c r =
    r\<lparr>contextMap := rightErase c (contextMap r), contextsById := (contextsById r)(c := None)\<rparr>"
proof (cases "contextsById r c")
  case None
  then have "rightErase c (contextMap r) = contextMap r"
    using inv unfolding registryInv_def rightErase_def by (intro filter_True) auto
  moreover have "(contextsById r)(c := None) = contextsById r"
    using None by auto
  ultimately show ?thesis
    using None by (simp add: eraseContext_def)
next
  case (Some ref)
  then have "(fst ref, c) \<in> set (contextMap r)"
    using inv unfolding registryInv_def by (metis prod.collapse)
  with inv have "rightFind (contextMap r) c = Some (fst ref)"
    by (simp add: rightFind_iff)
  with Some show ?thesis
    by (simp add: eraseContext_def)
qed

lemma set_rightErase [simp]: "(p, c') \<in> set (rightErase c m) \<longleftrightarrow> (p, c') \<in> set m \<and> c' \<noteq> c"
  by (auto simp: rightErase_def)

lemma distinct_rightErase:
  "distinct (map f m) \<Longrightarrow> distinct (map f (rightErase c m))"
  by (simp add: rightErase_def distinct_map_filter)

lemma erase_inv:
  assumes inv: "registryInv r"
  shows "registryInv (eraseContext c r)"
proof -
  have "\<forall>c' \<in> snd ` set (rightErase c (contextMap r)). 0 < c' \<and> c' < nextContextId r"
    using inv unfolding registryInv_def by (auto simp: image_iff)
  with inv show ?thesis
    unfolding erase_gone [OF inv] registryInv_def
    by (simp add: distinct_rightErase registryInv_def)
qed

section \<open>The contract of the registry\<close>

text \<open>
  What the addon relies on: looking an address up returns the id it was given, ids of
  different addresses differ, and forgetting an id forgets nothing else.
\<close>

locale context_registry =
  fixes find :: "'p \<Rightarrow> 's \<Rightarrow> 'c option"
    and ensure :: "'p \<Rightarrow> 's \<Rightarrow> 'c \<times> 's"
    and erase :: "'c \<Rightarrow> 's \<Rightarrow> 's"
    and inv :: "'s \<Rightarrow> bool"
    and room :: "'s \<Rightarrow> bool"
  assumes inv_ensure: "inv s \<Longrightarrow> room s \<Longrightarrow> inv (snd (ensure p s))"
    and inv_erase: "inv s \<Longrightarrow> inv (erase c s)"
    and find_ensure: "inv s \<Longrightarrow>
          find q (snd (ensure p s)) = (if q = p then Some (fst (ensure p s)) else find q s)"
    and ensure_known: "find p s = Some c \<Longrightarrow> ensure p s = (c, s)"
    and find_erase: "inv s \<Longrightarrow>
          find q (erase c s) = (if find q s = Some c then None else find q s)"
    and find_inj: "inv s \<Longrightarrow> find p s = Some c \<Longrightarrow> find q s = Some c \<Longrightarrow> p = q"
begin

lemma ensure_other:
  "inv s \<Longrightarrow> find q s = Some c \<Longrightarrow> find q (snd (ensure p s)) = Some c"
  by (auto simp: find_ensure ensure_known)

lemma ensure_distinct:
  assumes "inv s" "room s" "find q s = Some c" "q \<noteq> p"
  shows "fst (ensure p s) \<noteq> c"
proof
  assume same: "fst (ensure p s) = c"
  have "find q (snd (ensure p s)) = Some c" "find p (snd (ensure p s)) = Some c"
    using assms same by (simp_all add: find_ensure)
  with inv_ensure [OF assms(1,2)] have "q = p" by (rule find_inj)
  with assms(4) show False by simp
qed

lemma erase_forgets: "inv s \<Longrightarrow> find q (erase c s) \<noteq> Some c"
  by (simp add: find_erase)

lemma erase_other: "inv s \<Longrightarrow> find q s = Some d \<Longrightarrow> d \<noteq> c \<Longrightarrow> find q (erase c s) = Some d"
  by (simp add: find_erase)

end

lemma leftFind_ensure:
  "registryInv r \<Longrightarrow> leftFind (contextMap (snd (ensureContextId objectAt p r))) q =
     (if q = p then Some (fst (ensureContextId objectAt p r)) else leftFind (contextMap r) q)"
  by (cases "leftFind (contextMap r) p")
     (auto simp: ensure_new ensure_old, simp_all add: leftFind_def)

lemma leftFind_erase:
  assumes inv: "registryInv r"
  shows "leftFind (contextMap (eraseContext c r)) q =
    (if leftFind (contextMap r) q = Some c then None else leftFind (contextMap r) q)"
  (is "?l = ?r")
proof -
  have uniq: "x = y" if "(q, x) \<in> set (contextMap r)" "(q, y) \<in> set (contextMap r)" for x y
    using that by (metis leftFind_iff [OF inv] option.inject)
  have l: "?l = Some d \<longleftrightarrow> (q, d) \<in> set (contextMap r) \<and> d \<noteq> c" for d
    by (subst leftFind_iff [OF erase_inv [OF inv]]) (simp add: erase_gone [OF inv])
  have "?l = Some d \<longleftrightarrow> ?r = Some d" for d
    by (auto simp: l leftFind_iff [OF inv] dest: uniq)
  then show ?thesis by (metis not_None_eq)
qed

lemma leftFind_inj:
  assumes "registryInv r" "leftFind (contextMap r) p = Some c" "leftFind (contextMap r) q = Some c"
  shows "p = q"
  using assms by (metis rightFind_iff leftFind_iff option.inject)

interpretation registry: context_registry findContextId "ensureContextId objectAt" eraseContext
    registryInv roomLeft
  for objectAt :: "('p, 'o) Objects"
  by unfold_locales
     (auto simp: ensure_inv erase_inv find_eq leftFind_ensure leftFind_erase ensure_old
       intro: leftFind_inj)


section \<open>Runs\<close>

datatype ('p, 'o) RegistryOp = EnsureOp "('p, 'o) Objects" 'p | EraseOp ContextId

definition initRegistry :: "('p, 'o) Registry" where
  "initRegistry = \<lparr>nextContextId = 1, contextMap = [], contextsById = Map.empty\<rparr>"

text \<open>The outputs of a run are the grants: which address was given which id.\<close>

fun registryStep :: "('p, 'o) RegistryOp \<Rightarrow> ('p, 'o) Registry \<Rightarrow>
    ('p, 'o) Registry \<times> ('p \<times> ContextId) list" where
  "registryStep (EnsureOp objectAt p) r =
     (let (c, r') = ensureContextId objectAt p r in (r', [(p, c)]))"
| "registryStep (EraseOp c) r = (eraseContext c r, [])"

text \<open>Every grant so far was below the counter, and the registered pairs are grants.\<close>

definition grantsInv :: "('p \<times> ContextId) set \<Rightarrow> ('p, 'o) Registry \<Rightarrow> bool" where
  "grantsInv G r \<longleftrightarrow> registryInv r \<and> set (contextMap r) \<subseteq> G \<and>
     (\<forall>(p, c) \<in> G. c < nextContextId r) \<and>
     (\<forall>p q c. (p, c) \<in> G \<longrightarrow> (q, c) \<in> G \<longrightarrow> p = q)"

definition roomFor :: "nat \<Rightarrow> ('p, 'o) Registry \<Rightarrow> bool" where
  "roomFor n r \<longleftrightarrow> 0 < unat (nextContextId r) \<and> unat (nextContextId r) + n < 2 ^ 64"

lemma roomLeft_for: "roomFor (Suc n) r \<Longrightarrow> roomLeft r"
  by (auto simp: roomFor_def roomLeft_def word_less_nat_alt unat_word_ariths
      simp flip: unat_eq_zero)

lemma nextContextId_step:
  "nextContextId (fst (registryStep op r)) = nextContextId r \<or>
   nextContextId (fst (registryStep op r)) = nextContextId r + 1"
  by (cases op) (auto simp: ensureContextId_def eraseContext_def Let_def split: option.splits)

lemma roomFor_step:
  assumes "roomFor (Suc n) r"
  shows "roomFor n (fst (registryStep op r))"
  using assms nextContextId_step [of op r]
  by (auto simp: roomFor_def unat_word_ariths)

lemma registryInv_step:
  assumes "registryInv r" "roomLeft r"
  shows "registryInv (fst (registryStep op r))"
  using assms
  by (cases op) (simp_all add: case_prod_beta Let_def registry.inv_ensure registry.inv_erase)

lemma contextMap_step:
  assumes inv: "registryInv r"
  shows "set (contextMap (fst (registryStep op r))) \<subseteq>
    set (contextMap r) \<union> set (snd (registryStep op r))"
proof (cases op)
  case (EnsureOp ob p)
  with inv show ?thesis
    by (cases "leftFind (contextMap r) p") (auto simp: ensure_new ensure_old Let_def)
next
  case (EraseOp c)
  with inv show ?thesis by (auto simp: erase_gone)
qed

lemma grant_step:
  assumes inv: "registryInv r" and g: "(q, c) \<in> set (snd (registryStep op r))"
  shows "(q, c) \<in> set (contextMap r) \<or>
    (c = nextContextId r \<and> nextContextId (fst (registryStep op r)) = nextContextId r + 1)"
proof (cases op)
  case (EnsureOp ob p)
  with inv g show ?thesis
    by (cases "leftFind (contextMap r) p")
       (auto simp: ensure_new ensure_old Let_def leftFind_iff)
next
  case (EraseOp c')
  with g show ?thesis by simp
qed

lemma grantsInv_step:
  assumes G: "grantsInv G r" and room: "roomFor (Suc n) r"
  shows "grantsInv (G \<union> set (snd (registryStep op r))) (fst (registryStep op r))"
proof -
  let ?n = "nextContextId r" and ?r = "fst (registryStep op r)" and ?O = "set (snd (registryStep op r))"
  from G have inv: "registryInv r" and sub: "set (contextMap r) \<subseteq> G"
    and below: "\<And>p c. (p, c) \<in> G \<Longrightarrow> c < ?n"
    and fn: "\<And>p q c. (p, c) \<in> G \<Longrightarrow> (q, c) \<in> G \<Longrightarrow> p = q"
    by (auto simp: grantsInv_def)
  have lt: "?n < ?n + 1"
    using room by (auto simp: roomFor_def word_less_nat_alt unat_word_ariths)
  have below': "c < ?n + 1" if "(p, c) \<in> G" for p c
    using below [OF that] lt by (rule less_trans)
  have "registryInv ?r"
    by (rule registryInv_step [OF inv roomLeft_for [OF room]])
  moreover have "set (contextMap ?r) \<subseteq> G \<union> ?O"
    using contextMap_step [OF inv] sub by blast
  moreover have "c < nextContextId ?r" if "(p, c) \<in> G \<union> ?O" for p c
    using that below below' sub grant_step [OF inv, of p c op] nextContextId_step [of op r] lt
    by auto
  moreover have "?O \<subseteq> G \<or> (\<exists>p. ?O = {(p, ?n)})"
  proof (cases op)
    case (EnsureOp ob p)
    with inv sub show ?thesis
      by (cases "leftFind (contextMap r) p")
         (auto simp: ensure_new ensure_old Let_def leftFind_iff)
  qed simp
  then have "p = q" if p: "(p, c) \<in> G \<union> ?O" and q: "(q, c) \<in> G \<union> ?O" for p q c
  proof (elim disjE exE)
    assume "?O \<subseteq> G"
    with p q fn show ?thesis by blast
  next
    fix p' assume O: "?O = {(p', ?n)}"
    have "(p'', ?n) \<notin> G" for p'' using below by blast
    with O p q fn show ?thesis by auto
  qed
  ultimately show ?thesis by (auto simp: grantsInv_def)
qed

lemma roomFor_run:
  "roomFor (length ops + n) r \<Longrightarrow> roomFor n (fst (run registryStep r ops))"
  by (induction ops arbitrary: r) (simp_all add: roomFor_step del: run.simps(2))

lemma grantsInv_run:
  assumes "grantsInv G r" and "roomFor (length ops) r"
  shows "grantsInv (G \<union> set (snd (run registryStep r ops))) (fst (run registryStep r ops))"
  using assms
proof (induction ops arbitrary: r G)
  case Nil
  then show ?case by simp
next
  case (Cons op ops)
  from Cons.prems have "roomFor (length ops) (fst (registryStep op r))"
    by (intro roomFor_step) simp
  from Cons.IH [OF grantsInv_step [OF Cons.prems(1)] this] Cons.prems(2) show ?case
    by (simp add: snd_run_Cons Un_assoc del: run.simps)
qed


lemma old_grant:
  assumes "registryInv r" and "roomFor (length ops) r"
    and "(q, c) \<in> set (snd (run registryStep r ops))" and "c < nextContextId r"
  shows "(q, c) \<in> set (contextMap r)"
  using assms
proof (induction ops arbitrary: r)
  case Nil
  then show ?case by simp
next
  case (Cons op ops)
  let ?r = "fst (registryStep op r)"
  have room: "roomFor (Suc (length ops)) r" using Cons.prems(2) by simp
  have here: "(q, c) \<in> set (contextMap r)" if "(q, c) \<in> set (snd (registryStep op r))"
    using grant_step [OF Cons.prems(1) that] Cons.prems(4) by auto
  have "nextContextId r < nextContextId r + 1"
    using room by (auto simp: roomFor_def word_less_nat_alt unat_word_ariths)
  then have "c < nextContextId ?r"
    using nextContextId_step [of op r] Cons.prems(4) by (metis less_trans)
  then have "(q, c) \<in> set (contextMap ?r)" if "(q, c) \<in> set (snd (run registryStep ?r ops))"
    using Cons.IH [OF registryInv_step [OF Cons.prems(1) roomLeft_for [OF room]]
        roomFor_step [OF room] that] by blast
  moreover have "(q, c) \<in> set (snd (registryStep op r)) \<or>
      (q, c) \<in> set (snd (run registryStep ?r ops))"
    using Cons.prems(3) by (simp add: snd_run_Cons del: run.simps)
  ultimately show ?case
    using here contextMap_step [OF Cons.prems(1), of op] by blast
qed

lemma grantsInv_init: "grantsInv {} initRegistry"
  by (simp add: grantsInv_def registryInv_def initRegistry_def)

text \<open>
  C34. The registry is a bijection: after any sequence of lookups and erasures, fewer than the
  64-bit counter can number, an address has an id exactly when that id's weak reference is to
  this address, and no two addresses share an id; another lookup keeps every registered id and
  gives a different address a different id, and an erasure forgets its own id and no other.
\<close>

theorem registry_bijection:
  assumes "length ops + 1 < 2 ^ 64 - 1" and "r = fst (run registryStep initRegistry ops)"
  shows "(findContextId p r = Some c \<longleftrightarrow> (\<exists>ob. contextsById r c = Some (p, ob))) \<and>
    (findContextId p r = Some c \<longrightarrow>
       (findContextId q r = Some c \<longrightarrow> q = p) \<and>
       findContextId p (snd (ensureContextId objectAt q r)) = Some c \<and>
       (q \<noteq> p \<longrightarrow> fst (ensureContextId objectAt q r) \<noteq> c) \<and>
       (findContextId p (eraseContext d r) = Some c \<longleftrightarrow> d \<noteq> c))"
proof -
  have room: "roomFor (length ops + 1) (initRegistry :: ('a, 'b) Registry)"
    using assms(1) by (simp add: roomFor_def initRegistry_def)
  then have "roomFor (length ops) (initRegistry :: ('a, 'b) Registry)"
    by (simp add: roomFor_def)
  from grantsInv_run [OF grantsInv_init this] assms(2) have inv: "registryInv r"
    by (auto simp: grantsInv_def)
  have left: "roomLeft r" using roomFor_run [OF room] assms(2) by (simp add: roomLeft_for)
  have "findContextId p r = Some c \<longleftrightarrow> (\<exists>ob. contextsById r c = Some (p, ob))"
    using inv by (simp add: find_eq leftFind_iff) (simp add: registryInv_def)
  moreover have "(findContextId q r = Some c \<longrightarrow> q = p) \<and>
      findContextId p (snd (ensureContextId objectAt q r)) = Some c \<and>
      (q \<noteq> p \<longrightarrow> fst (ensureContextId objectAt q r) \<noteq> c) \<and>
      (findContextId p (eraseContext d r) = Some c \<longleftrightarrow> d \<noteq> c)"
    if "findContextId p r = Some c"
    using registry.find_inj [OF inv _ that] registry.ensure_other [OF inv that]
      registry.ensure_distinct [OF inv left that] registry.erase_forgets [OF inv]
      registry.erase_other [OF inv that]
    by metis
  ultimately show ?thesis by blast
qed

definition exampleOps :: "(nat, nat) RegistryOp list" where
  "exampleOps = [EnsureOp (\<lambda>p. Some p) 7, EnsureOp (\<lambda>p. Some p) 8, EraseOp 1]"

theorem registry_bijection_witness:
  "findContextId 8 (fst (run registryStep initRegistry exampleOps)) = Some 2 \<and>
   (\<exists>ob. contextsById (fst (run registryStep initRegistry exampleOps)) 2 = Some (8, ob))"
proof -
  have f: "findContextId 8 (fst (run registryStep initRegistry exampleOps)) = Some 2"
    by (simp add: exampleOps_def initRegistry_def ensureContextId_def eraseContext_def
        findContextId_def leftFind_def rightFind_def bimapInsert_def rightErase_def watch_def)
  then show ?thesis
    using registry_bijection [OF _ refl, of exampleOps 8 2] by (simp add: exampleOps_def)
qed

text \<open>
  C35. Ids are never reused: an id given to an address is later only ever given to that same
  address, and only because it is still registered; once erased it never comes back, so a
  context that replaces a destroyed one at the same address is a new context to the engine.
\<close>

theorem context_ids_never_reused:
  assumes "length ops + length ops' < 2 ^ 64 - 1"
    and "r = fst (run registryStep initRegistry ops)"
    and "(p, c) \<in> set (snd (run registryStep initRegistry ops))"
    and "(q, c) \<in> set (snd (run registryStep r ops'))"
  shows "q = p \<and> findContextId p r = Some c"
proof -
  let ?G = "set (snd (run registryStep initRegistry ops))"
  have room: "roomFor (length ops + length ops') (initRegistry :: ('a, 'b) Registry)"
    using assms(1) by (simp add: roomFor_def initRegistry_def)
  have G: "grantsInv ({} \<union> ?G) r" and room': "roomFor (length ops') r"
    using grantsInv_run [OF grantsInv_init, of ops] roomFor_run [OF room] room assms(2)
    by (simp_all add: roomFor_def)
  from G assms(3) have "c < nextContextId r" and inv: "registryInv r"
    by (auto simp: grantsInv_def)
  from old_grant [OF inv room' assms(4) this(1)] have "(q, c) \<in> set (contextMap r)" .
  moreover from this G assms(3) have "q = p" by (auto simp: grantsInv_def)
  ultimately show ?thesis using inv by (simp add: find_eq leftFind_iff)
qed

theorem context_ids_never_reused_witness:
  "\<not> (\<exists>q. (q, 1) \<in> set (snd (run registryStep
       (fst (run registryStep initRegistry exampleOps)) [EnsureOp (\<lambda>p. Some p) 7])))"
proof -
  have g: "(7, 1) \<in> set (snd (run registryStep initRegistry exampleOps))"
    and f: "findContextId 7 (fst (run registryStep initRegistry exampleOps)) = None"
    by (simp_all add: exampleOps_def initRegistry_def ensureContextId_def eraseContext_def
        findContextId_def leftFind_def rightFind_def bimapInsert_def rightErase_def watch_def)
  show ?thesis
    using context_ids_never_reused [OF _ refl g, of "[EnsureOp (\<lambda>p. Some p) 7]"] f
    by (auto simp: exampleOps_def)
qed

end
