(* ===== verification/Config.thy ===== *)
theory Config
  imports Protocol
begin

text \<open>
  \<open>src/src/addon/config.hpp\<close> and \<open>config.cpp\<close>: the persisted configuration, the resolved
  socket path, and the connection parameters after the debug overrides.

  The process environment, \<open>wordexp(3)\<close> and fcitx's readers for the configuration file and
  for raw configurations are functions of the record \<open>ConfigWorld\<close>. A \<open>char*\<close> is the string
  before its terminating NUL, so \<open>value[0] != '\0'\<close> reads \<^term>\<open>value \<noteq> []\<close>; \<open>c_str\<close> cuts a
  \<open>std::string\<close> at its first NUL. Saving returns the file writes.
\<close>

section \<open>Data\<close>

datatype WordexpFlag = WRDE_NOCMD | WRDE_UNDEF

record 'k ScribeConfigData =
  toggleTranscriptionKeys :: "'k list"
  cfgSocketPath :: string
  cfgAuthTokenEnv :: string
  cfgConnectTimeoutMs :: int

definition defaultConfigData :: "'k ScribeConfigData" where
  "defaultConfigData = \<lparr>toggleTranscriptionKeys = [], cfgSocketPath = '''',
     cfgAuthTokenEnv = '''', cfgConnectTimeoutMs = 1000\<rparr>"

record ('k, 'raw) ConfigWorld =
  getenv :: "string \<Rightarrow> string option"
  wordexp :: "string \<Rightarrow> WordexpFlag set \<Rightarrow> int \<times> string list"
  readAsIni :: "'k ScribeConfigData \<Rightarrow> string \<Rightarrow> 'k ScribeConfigData"
  loadRaw :: "'k ScribeConfigData \<Rightarrow> 'raw \<Rightarrow> bool \<Rightarrow> 'k ScribeConfigData"

record 'k Config =
  configData :: "'k ScribeConfigData"
  resolvedSocketPath :: string
  socketPathValid :: bool

record ResolvedConnectionConfig =
  connection :: ConnectionConfig
  socketPathSource :: string
  authTokenSource :: string

definition initConfig :: "'k Config" where
  "initConfig = \<lparr>configData = defaultConfigData, resolvedSocketPath = '''',
     socketPathValid = True\<rparr>"

definition kSocketPathEnv :: string where
  "kSocketPathEnv = ''FCITX5_SCRIBE_DEBUG_SOCKET_PATH''"

definition kAuthTokenEnv :: string where
  "kAuthTokenEnv = ''FCITX5_SCRIBE_DEBUG_AUTH_TOKEN''"

definition configFile :: string where
  "configFile = ''conf/scribe.conf''"

definition c_str :: "string \<Rightarrow> string" where
  "c_str s = takeWhile (\<lambda>c. c \<noteq> CHR 0x00) s"

section \<open>Operations\<close>

definition readEnv :: "('k, 'raw) ConfigWorld \<Rightarrow> string \<Rightarrow> string" where
  [config_defs]: "readEnv W name =
     (case getenv W name of
        Some value \<Rightarrow> if value \<noteq> [] then value else []
      | None \<Rightarrow> [])"

definition resolveSocketPath :: "('k, 'raw) ConfigWorld \<Rightarrow> 'k Config \<Rightarrow> 'k Config" where
  [config_defs]: "resolveSocketPath W c =
     (let c = c\<lparr>resolvedSocketPath := [], socketPathValid := True\<rparr>
      in if cfgSocketPath (configData c) = [] then c
         else let (rc, words) = wordexp W (c_str (cfgSocketPath (configData c)))
                    {WRDE_NOCMD, WRDE_UNDEF};
                  socketPathResolved = (rc = 0)
              in if \<not> socketPathResolved \<or> length words \<noteq> 1 \<or> words ! 0 = []
                 then c\<lparr>socketPathValid := False\<rparr>
                 else c\<lparr>resolvedSocketPath := words ! 0\<rparr>)"

definition configLoad :: "('k, 'raw) ConfigWorld \<Rightarrow> 'k Config \<Rightarrow> 'k Config" where
  [config_defs]: "configLoad W c =
     resolveSocketPath W (c\<lparr>configData := readAsIni W (configData c) configFile\<rparr>)"

definition configSave :: "'k Config \<Rightarrow> (string \<times> 'k ScribeConfigData) list" where
  [config_defs]: "configSave c = [(configFile, configData c)]"

definition configSet ::
  "('k, 'raw) ConfigWorld \<Rightarrow> 'raw \<Rightarrow> 'k Config \<Rightarrow>
     'k Config \<times> (string \<times> 'k ScribeConfigData) list" where
  [config_defs]: "configSet W raw c =
     (let c = c\<lparr>configData := loadRaw W (configData c) raw True\<rparr>;
          c = resolveSocketPath W c
      in (c, configSave c))"

definition configuration :: "'k Config \<Rightarrow> 'k ScribeConfigData" where
  [simp]: "configuration c = configData c"

definition toggleTranscriptionKey :: "'k Config \<Rightarrow> 'k list" where
  [simp]: "toggleTranscriptionKey c = toggleTranscriptionKeys (configData c)"

definition configuredSocketPath :: "'k Config \<Rightarrow> string" where
  [config_defs]: "configuredSocketPath c = resolvedSocketPath c"

definition effectiveSocketPath :: "('k, 'raw) ConfigWorld \<Rightarrow> 'k Config \<Rightarrow> string" where
  [config_defs]: "effectiveSocketPath W c =
     (let override = readEnv W kSocketPathEnv
      in if override \<noteq> [] then override else configuredSocketPath c)"

definition effectiveSocketPathSource :: "('k, 'raw) ConfigWorld \<Rightarrow> 'k Config \<Rightarrow> string" where
  [config_defs]: "effectiveSocketPathSource W c =
     (if readEnv W kSocketPathEnv \<noteq> [] then kSocketPathEnv else ''config'')"

definition configuredAuthToken :: "('k, 'raw) ConfigWorld \<Rightarrow> 'k Config \<Rightarrow> string" where
  [config_defs]: "configuredAuthToken W c =
     (if cfgAuthTokenEnv (configData c) \<noteq> []
      then (case getenv W (c_str (cfgAuthTokenEnv (configData c))) of
              Some value \<Rightarrow> if value \<noteq> [] then value else []
            | None \<Rightarrow> [])
      else [])"

definition effectiveAuthToken :: "('k, 'raw) ConfigWorld \<Rightarrow> 'k Config \<Rightarrow> string" where
  [config_defs]: "effectiveAuthToken W c =
     (let override = readEnv W kAuthTokenEnv
      in if override \<noteq> [] then override else configuredAuthToken W c)"

definition effectiveAuthTokenSource :: "('k, 'raw) ConfigWorld \<Rightarrow> 'k Config \<Rightarrow> string" where
  [config_defs]: "effectiveAuthTokenSource W c =
     (if readEnv W kAuthTokenEnv \<noteq> [] then kAuthTokenEnv
      else if cfgAuthTokenEnv (configData c) \<noteq> []
      then ''configured env var '' @ cfgAuthTokenEnv (configData c)
      else ''config'')"

definition resolveConnectionConfig ::
  "('k, 'raw) ConfigWorld \<Rightarrow> 'k Config \<Rightarrow> ResolvedConnectionConfig Result" where
  [config_defs]: "resolveConnectionConfig W c =
     (let socketPathOverride = readEnv W kSocketPathEnv
      in if cfgSocketPath (configData c) = [] \<and> socketPathOverride = []
         then Inl (makeError kConfig ''Cannot connect to transcriber: SocketPath is empty'')
         else if cfgSocketPath (configData c) \<noteq> [] \<and> \<not> socketPathValid c \<and>
                 socketPathOverride = []
         then Inl (makeError kConfig ''Cannot connect to transcriber: SocketPath is invalid'')
         else let token = effectiveAuthToken W c
              in if token = []
                 then Inl (makeError kConfig
                        ''Cannot connect to transcriber: auth token is empty'')
                 else Inr \<lparr>connection = \<lparr>socketPath = effectiveSocketPath W c,
                                          authToken = token,
                                          connectTimeout = cfgConnectTimeoutMs (configData c)\<rparr>,
                           socketPathSource = effectiveSocketPathSource W c,
                           authTokenSource = effectiveAuthTokenSource W c\<rparr>)"

section \<open>The resolved path\<close>

text \<open>
  What \<open>load\<close> and \<open>set\<close> establish: the cached path is the one non-empty word of the
  configured text, or the configuration is empty, or it is marked invalid.
\<close>

definition configInvariant :: "'k Config \<Rightarrow> bool" where
  "configInvariant c \<longleftrightarrow>
     (if cfgSocketPath (configData c) = [] then socketPathValid c \<and> resolvedSocketPath c = []
      else socketPathValid c = (resolvedSocketPath c \<noteq> []))"

lemma configInvariant_init [simp]: "configInvariant initConfig"
  by (simp add: configInvariant_def initConfig_def defaultConfigData_def)

lemma configInvariant_resolve [simp]: "configInvariant (resolveSocketPath W c)"
  by (simp add: configInvariant_def config_defs Let_def split: prod.splits)

lemma configInvariant_load [simp]: "configInvariant (configLoad W c)"
  by (simp add: configLoad_def)

lemma configInvariant_set [simp]: "configInvariant (fst (configSet W raw c))"
  by (simp add: configSet_def Let_def)

datatype 'raw ConfigOp = LoadOp | SetOp 'raw

fun configStep :: "('k, 'raw) ConfigWorld \<Rightarrow> 'raw ConfigOp \<Rightarrow> 'k Config \<Rightarrow>
    'k Config \<times> (string \<times> 'k ScribeConfigData) list" where
  "configStep W LoadOp c = (configLoad W c, [])"
| "configStep W (SetOp raw) c = configSet W raw c"

interpretation config: machine "configStep W" configInvariant
  for W :: "('k, 'raw) ConfigWorld"
proof
  fix c :: "'k Config" and op :: "'raw ConfigOp"
  show "configInvariant (fst (configStep W op c))" by (cases op) simp_all
qed

section \<open>Properties\<close>

text \<open>
  C37. Credentials: after any sequence of loads and sets, connection parameters are only ever
  produced with a non-empty socket path and a non-empty token. A debug override wins over the
  persisted setting, for the path and for the token independently, the reported sources name
  where each came from, and the source of a token is always an environment variable.
\<close>

theorem connection_config_complete:
  fixes W :: "('k, 'raw) ConfigWorld" and ops :: "'raw ConfigOp list"
  defines "c \<equiv> fst (run (configStep W) initConfig ops)"
  assumes "resolveConnectionConfig W c = Inr r"
  shows "socketPath (connection r) \<noteq> [] \<and> authToken (connection r) \<noteq> [] \<and>
    (if readEnv W kSocketPathEnv \<noteq> []
     then socketPath (connection r) = readEnv W kSocketPathEnv \<and>
          socketPathSource r = kSocketPathEnv
     else socketPath (connection r) = resolvedSocketPath c \<and> socketPathSource r = ''config'') \<and>
    (if readEnv W kAuthTokenEnv \<noteq> []
     then authToken (connection r) = readEnv W kAuthTokenEnv \<and> authTokenSource r = kAuthTokenEnv
     else getenv W (c_str (cfgAuthTokenEnv (configData c))) = Some (authToken (connection r)) \<and>
          authTokenSource r = ''configured env var '' @ cfgAuthTokenEnv (configData c))"
proof -
  have "configInvariant c" unfolding c_def by (rule config.run_inv) simp
  with assms(2) show ?thesis
    by (auto simp: configInvariant_def config_defs Let_def split: if_splits option.splits)
qed

definition exampleWorld :: "(nat, nat) ConfigWorld" where
  "exampleWorld =
     \<lparr>getenv = [''TOKEN'' \<mapsto> ''secret''],
      wordexp = (\<lambda>s fl. (0, [s])),
      readAsIni = (\<lambda>d f. d\<lparr>cfgSocketPath := ''/run/s'', cfgAuthTokenEnv := ''TOKEN''\<rparr>),
      loadRaw = (\<lambda>d raw b. d\<lparr>cfgSocketPath := '''' \<rparr>)\<rparr>"

theorem connection_config_complete_witness:
  "\<exists>r. resolveConnectionConfig exampleWorld
      (fst (run (configStep exampleWorld) initConfig [LoadOp])) = Inr r \<and>
     authToken (connection r) \<noteq> []"
proof -
  obtain r where r: "resolveConnectionConfig exampleWorld
      (fst (run (configStep exampleWorld) initConfig [LoadOp])) = Inr r"
    by (simp add: exampleWorld_def initConfig_def defaultConfigData_def config_defs c_str_def
        kSocketPathEnv_def kAuthTokenEnv_def)
  from connection_config_complete [OF r] r show ?thesis by blast
qed

end
