(* ===== verification/Addon.thy ===== *)
theory Addon
  imports Registry Engine Config Io
begin

text \<open>
  \<open>src/src/addon/addon.hpp\<close> and \<open>addon.cpp\<close>: the adapter between fcitx, the engine and the
  transport. Every operation runs on the fcitx thread, one after another.

  fcitx's part of the world at one call is the record \<open>AddonWorld\<close>: the live input contexts and
  their focus, the key matcher and the configuration readers, with the libraries the engine
  and the transport use. The worker thread runs at the same time and changes the transport
  behind the addon: before each call into \<open>io_\<close> the model lets it move, by an arbitrary function
  \<open>worker n\<close> (\<open>n\<close> counts the calls, so that each may differ). What the adapter does to fcitx
  (commits, key acceptance, log lines, writes of the configuration file) are outputs.
\<close>

section \<open>State\<close>

record ('p, 'o, 'key, 'k, 'raw, 'g, 'h) AddonWorld =
  objectAt :: "('p, 'o) Objects"
  hasFocus :: "'p \<Rightarrow> bool"
  checkKeyList :: "'key \<Rightarrow> 'k list \<Rightarrow> bool"
  configWorld :: "('k, 'raw) ConfigWorld"
  engineDeps :: "'g EngineDeps"
  protobufLib :: Protobuf
  worker :: "nat \<Rightarrow> 'h Io \<Rightarrow> 'h Io"

record ('p, 'o, 'k, 'g, 'h) Addon = "('p, 'o) Registry" +
  addonConfig :: "'k Config"
  addonEngine :: "'g Engine"
  addonIo :: "'h Io"
  ioCalls :: nat

datatype ('p, 'k) AddonOut =
    CommitString 'p string
  | FilterAndAccept
  | LogLine LogLevel string
  | SafeSaveAsIni string "'k ScribeConfigData"

definition initAddon :: "'g \<Rightarrow> 'h \<Rightarrow> ('p, 'o, 'k, 'g, 'h) Addon" where
  "initAddon g h =
     \<lparr>nextContextId = 1, contextMap = [], contextsById = Map.empty, addonConfig = initConfig,
      addonEngine = initEngine g, addonIo = initIo h, ioCalls = 0\<rparr>"

text \<open>The local variables of \<open>dispatch\<close> with the members they act on.\<close>

record ('p, 'o, 'k, 'g, 'h) Dispatch =
  addon :: "('p, 'o, 'k, 'g, 'h) Addon"
  accepted :: bool
  queue :: "Event list"
  outs :: "('p, 'k) AddonOut list"

definition emplaceBack ::
  "Event \<Rightarrow> ('p, 'o, 'k, 'g, 'h) Dispatch \<Rightarrow> ('p, 'o, 'k, 'g, 'h) Dispatch" where
  [addon_defs]: "emplaceBack ev d = d\<lparr>queue := queue d @ [ev]\<rparr>"

definition emit ::
  "('p, 'k) AddonOut \<Rightarrow> ('p, 'o, 'k, 'g, 'h) Dispatch \<Rightarrow> ('p, 'o, 'k, 'g, 'h) Dispatch" where
  [addon_defs]: "emit out d = d\<lparr>outs := outs d @ [out]\<rparr>"

text \<open>A call into \<open>io_\<close>, after the worker's moves.\<close>

definition callIo ::
  "('p, 'o, 'key, 'k, 'raw, 'g, 'h) AddonWorld \<Rightarrow> ('h Io \<Rightarrow> unit Result \<times> 'h Io) \<Rightarrow>
     ('p, 'o, 'k, 'g, 'h) Dispatch \<Rightarrow> unit Result \<times> ('p, 'o, 'k, 'g, 'h) Dispatch" where
  [addon_defs]: "callIo W f d =
     (let a = addon d;
          (result, io) = f (worker W (ioCalls a) (addonIo a))
      in (result, d\<lparr>addon := a\<lparr>addonIo := io, ioCalls := ioCalls a + 1\<rparr>\<rparr>))"

section \<open>Effects\<close>

definition applyConnect ::
  "('p, 'o, 'key, 'k, 'raw, 'g, 'h) AddonWorld \<Rightarrow>
     ('p, 'o, 'k, 'g, 'h) Dispatch \<Rightarrow> ('p, 'o, 'k, 'g, 'h) Dispatch" where
  [addon_defs]: "applyConnect W d =
     (case resolveConnectionConfig (configWorld W) (addonConfig (addon d)) of
        Inl err \<Rightarrow> emplaceBack (ConnectionFailed err) d
      | Inr r \<Rightarrow>
          (case callIo W (ioConnect (connection r)) d of
             (Inl err, d) \<Rightarrow> emplaceBack (ConnectionFailed err) d
           | (Inr _, d) \<Rightarrow> d))"

definition applyDisconnect ::
  "('p, 'o, 'key, 'k, 'raw, 'g, 'h) AddonWorld \<Rightarrow>
     ('p, 'o, 'k, 'g, 'h) Dispatch \<Rightarrow> ('p, 'o, 'k, 'g, 'h) Dispatch" where
  [addon_defs]: "applyDisconnect W d =
     (case callIo W ioDisconnect d of
        (Inl err, d) \<Rightarrow> emit (LogLine kInfo (err_message err)) d
      | (Inr _, d) \<Rightarrow> d)"

definition applySendEnvelope ::
  "('p, 'o, 'key, 'k, 'raw, 'g, 'h) AddonWorld \<Rightarrow> Envelope \<Rightarrow>
     ('p, 'o, 'k, 'g, 'h) Dispatch \<Rightarrow> ('p, 'o, 'k, 'g, 'h) Dispatch" where
  [addon_defs]: "applySendEnvelope W envelope d =
     (case callIo W (ioSend (protobufLib W) envelope) d of
        (Inl err, d) \<Rightarrow> emplaceBack (ConnectionFailed err) d
      | (Inr _, d) \<Rightarrow> d)"

definition applyCommitText ::
  "('p, 'o, 'key, 'k, 'raw, 'g, 'h) AddonWorld \<Rightarrow> ContextId \<Rightarrow> string \<Rightarrow>
     ('p, 'o, 'k, 'g, 'h) Dispatch \<Rightarrow> ('p, 'o, 'k, 'g, 'h) Dispatch" where
  [addon_defs]: "applyCommitText W c text d =
     (case contextsById (addon d) c of
        None \<Rightarrow> d
      | Some ref \<Rightarrow>
          (case weakGet (objectAt W) ref of
             Some p \<Rightarrow> emit (CommitString p text) d
           | None \<Rightarrow>
               let d = d\<lparr>addon := eraseContext c (addon d)\<rparr>
               in emplaceBack (ContextDestroyed c) d))"

definition applyAcceptKey ::
  "('p, 'o, 'k, 'g, 'h) Dispatch \<Rightarrow> ('p, 'o, 'k, 'g, 'h) Dispatch" where
  [simp]: "applyAcceptKey d = d\<lparr>accepted := True\<rparr>"

definition applyLog ::
  "LogLevel \<Rightarrow> string \<Rightarrow> ('p, 'o, 'k, 'g, 'h) Dispatch \<Rightarrow> ('p, 'o, 'k, 'g, 'h) Dispatch" where
  "applyLog level message d =
     (case level of
        kDebug \<Rightarrow> emit (LogLine kDebug message) d
      | kInfo \<Rightarrow> emit (LogLine kInfo message) d)"

lemma applyLog_eq [simp]: "applyLog level message d = emit (LogLine level message) d"
  by (simp add: applyLog_def split: LogLevel.split)

fun applyEffect ::
  "('p, 'o, 'key, 'k, 'raw, 'g, 'h) AddonWorld \<Rightarrow> Effect \<Rightarrow>
     ('p, 'o, 'k, 'g, 'h) Dispatch \<Rightarrow> ('p, 'o, 'k, 'g, 'h) Dispatch" where
  "applyEffect W AcceptKey d = applyAcceptKey d"
| "applyEffect W Connect d = applyConnect W d"
| "applyEffect W Disconnect d = applyDisconnect W d"
| "applyEffect W (SendEnvelope envelope) d = applySendEnvelope W envelope d"
| "applyEffect W (CommitText c text) d = applyCommitText W c text d"
| "applyEffect W (Log level message) d = applyLog level message d"

section \<open>The dispatch loop\<close>

text \<open>
  The queue of follow-up events shrinks in weight: a failed call queues \<open>ConnectionFailed\<close>,
  which the engine answers with log lines only; a dead context queues \<open>ContextDestroyed\<close>, which
  it answers with at most one message to send.
\<close>

fun eventWeight :: "Event \<Rightarrow> nat" where
  "eventWeight (ConnectionFailed _) = 1"
| "eventWeight (ContextDestroyed _) = 2"
| "eventWeight _ = 3"

fun effectWeight :: "Effect \<Rightarrow> nat" where
  "effectWeight Connect = 1"
| "effectWeight (SendEnvelope _) = 1"
| "effectWeight (CommitText _ _) = 2"
| "effectWeight _ = 0"

definition queueWeight :: "Event list \<Rightarrow> nat" where
  "queueWeight es = sum_list (map eventWeight es)"

lemma queueWeight_simps [simp]:
  "queueWeight [] = 0" "queueWeight (e # es) = eventWeight e + queueWeight es"
  "queueWeight (es @ es') = queueWeight es + queueWeight es'"
  by (simp_all add: queueWeight_def)

lemma handle_weight: "sum_list (map effectWeight (snd (handle D ev e))) < eventWeight ev"
  by (cases ev; cases "session e"; cases "pendingContext e"; cases "connectionState e")
     (auto simp: handle_def engine_defs Let_def split: option.splits if_splits prod.splits
       sum.splits ConfigResult.splits)

lemma apply_weight: "queueWeight (queue (applyEffect W x d)) \<le> queueWeight (queue d) + effectWeight x"
  by (cases x) (auto simp: addon_defs Let_def split: sum.splits prod.splits option.splits)

lemma apply_all_weight:
  "queueWeight (queue (fold (applyEffect W) fx d)) \<le>
     queueWeight (queue d) + sum_list (map effectWeight fx)"
proof (induction fx arbitrary: d)
  case Nil
  then show ?case by simp
next
  case (Cons x fx)
  from Cons.IH [of "applyEffect W x d"] apply_weight [of W x d] show ?case by simp
qed

text \<open>One turn of the loop: the front event through the engine, its effects in order.\<close>

definition dispatchOne ::
  "('p, 'o, 'key, 'k, 'raw, 'g, 'h) AddonWorld \<Rightarrow> Event \<Rightarrow>
     ('p, 'o, 'k, 'g, 'h) Dispatch \<Rightarrow> ('p, 'o, 'k, 'g, 'h) Dispatch" where
  "dispatchOne W current d =
     (let (e, fx) = handle (engineDeps W) current (addonEngine (addon d))
      in fold (applyEffect W) fx (d\<lparr>addon := (addon d)\<lparr>addonEngine := e\<rparr>\<rparr>))"

lemma dispatchOne_weight:
  "queueWeight (queue (dispatchOne W current d)) < queueWeight (queue d) + eventWeight current"
proof -
  obtain e fx where h: "handle (engineDeps W) current (addonEngine (addon d)) = (e, fx)"
    by fastforce
  with handle_weight [of "engineDeps W" current "addonEngine (addon d)"]
    apply_all_weight [of W fx "d\<lparr>addon := (addon d)\<lparr>addonEngine := e\<rparr>\<rparr>"]
  show ?thesis by (simp add: dispatchOne_def)
qed

lemma dispatchOne_rest:
  "queue d = current # rest \<Longrightarrow>
     queueWeight (queue (dispatchOne W current (d\<lparr>queue := rest\<rparr>))) <
     eventWeight current + queueWeight rest"
  using dispatchOne_weight [of W current "d\<lparr>queue := rest\<rparr>"] by (simp add: add.commute)

function dispatchLoop ::
  "('p, 'o, 'key, 'k, 'raw, 'g, 'h) AddonWorld \<Rightarrow>
     ('p, 'o, 'k, 'g, 'h) Dispatch \<Rightarrow> ('p, 'o, 'k, 'g, 'h) Dispatch" where
  "dispatchLoop W d =
     (case queue d of
        [] \<Rightarrow> d
      | current # rest \<Rightarrow> dispatchLoop W (dispatchOne W current (d\<lparr>queue := rest\<rparr>)))"
  by pat_completeness auto

termination
  by (relation "measure (\<lambda>(W, d). queueWeight (queue d))") (simp_all add: dispatchOne_rest)

declare dispatchLoop.simps [simp del]

definition dispatch ::
  "('p, 'o, 'key, 'k, 'raw, 'g, 'h) AddonWorld \<Rightarrow> Event \<Rightarrow> ('p, 'o, 'k, 'g, 'h) Addon \<Rightarrow>
     bool \<times> ('p, 'o, 'k, 'g, 'h) Addon \<times> ('p, 'k) AddonOut list" where
  "dispatch W event a =
     (let d = dispatchLoop W \<lparr>addon = a, accepted = False, queue = [event], outs = []\<rparr>
      in (accepted d, addon d, outs d))"

section \<open>The callbacks fcitx and the transport make\<close>

definition handleInputContextKeyEvent ::
  "('p, 'o, 'key, 'k, 'raw, 'g, 'h) AddonWorld \<Rightarrow> bool \<Rightarrow> 'key \<Rightarrow> 'p option \<Rightarrow>
     ('p, 'o, 'k, 'g, 'h) Addon \<Rightarrow> ('p, 'o, 'k, 'g, 'h) Addon \<times> ('p, 'k) AddonOut list" where
  "handleInputContextKeyEvent W isRelease key inputContext a =
     (if isRelease then (a, [])
      else if \<not> checkKeyList W key (toggleTranscriptionKey (addonConfig a))
      then (a, [])
      else case inputContext of
             None \<Rightarrow> (a, [])
           | Some p \<Rightarrow>
               let (c, a) = ensureContextId (objectAt W) p a;
                   (acc, a, os) = dispatch W (Toggle c (hasFocus W p)) a
               in (a, if acc then os @ [FilterAndAccept] else os))"

definition handleInputContextFocusInEvent ::
  "('p, 'o, 'key, 'k, 'raw, 'g, 'h) AddonWorld \<Rightarrow> 'p option \<Rightarrow>
     ('p, 'o, 'k, 'g, 'h) Addon \<Rightarrow> ('p, 'o, 'k, 'g, 'h) Addon \<times> ('p, 'k) AddonOut list" where
  "handleInputContextFocusInEvent W inputContext a =
     (case inputContext of
        None \<Rightarrow> (a, [])
      | Some p \<Rightarrow> let (c, a) = ensureContextId (objectAt W) p a in snd (dispatch W (FocusIn c) a))"

definition handleInputContextFocusOutEvent ::
  "('p, 'o, 'key, 'k, 'raw, 'g, 'h) AddonWorld \<Rightarrow> 'p option \<Rightarrow>
     ('p, 'o, 'k, 'g, 'h) Addon \<Rightarrow> ('p, 'o, 'k, 'g, 'h) Addon \<times> ('p, 'k) AddonOut list" where
  "handleInputContextFocusOutEvent W inputContext a =
     (case inputContext of
        None \<Rightarrow> (a, [])
      | Some p \<Rightarrow> let (c, a) = ensureContextId (objectAt W) p a in snd (dispatch W (FocusOut c) a))"

definition handleInputContextDestroyedEvent ::
  "('p, 'o, 'key, 'k, 'raw, 'g, 'h) AddonWorld \<Rightarrow> 'p option \<Rightarrow>
     ('p, 'o, 'k, 'g, 'h) Addon \<Rightarrow> ('p, 'o, 'k, 'g, 'h) Addon \<times> ('p, 'k) AddonOut list" where
  "handleInputContextDestroyedEvent W inputContext a =
     (case inputContext of
        None \<Rightarrow> (a, [])
      | Some p \<Rightarrow>
          (case findContextId p a of
             None \<Rightarrow> (a, [])
           | Some c \<Rightarrow> let (_, a, os) = dispatch W (ContextDestroyed c) a
                       in (eraseContext c a, os)))"

definition reloadResolvedConfig ::
  "('p, 'o, 'key, 'k, 'raw, 'g, 'h) AddonWorld \<Rightarrow>
     ('p, 'o, 'k, 'g, 'h) Addon \<Rightarrow> ('p, 'o, 'k, 'g, 'h) Addon \<times> ('p, 'k) AddonOut list" where
  "reloadResolvedConfig W a =
     (case resolveConnectionConfig (configWorld W) (addonConfig a) of
        Inr r \<Rightarrow>
          let line = LogLine kInfo (''Transcriber connection configured: socket '' @
                socketPath (connection r) @ '' from '' @ socketPathSource r @
                '', auth token from '' @ authTokenSource r);
              (a, os) = snd (dispatch W (ConnectionConfigured (ConfigOk (connection r))) a)
          in (a, line # os)
      | Inl err \<Rightarrow> snd (dispatch W (ConnectionConfigured (ConfigError err)) a))"

definition addonSetConfig ::
  "('p, 'o, 'key, 'k, 'raw, 'g, 'h) AddonWorld \<Rightarrow> 'raw \<Rightarrow>
     ('p, 'o, 'k, 'g, 'h) Addon \<Rightarrow> ('p, 'o, 'k, 'g, 'h) Addon \<times> ('p, 'k) AddonOut list" where
  "addonSetConfig W raw a =
     (let (c, saves) = configSet (configWorld W) raw (addonConfig a);
          (a, os) = reloadResolvedConfig W (a\<lparr>addonConfig := c\<rparr>)
      in (a, map (\<lambda>(file, data). SafeSaveAsIni file data) saves @ os))"

definition addonReloadConfig ::
  "('p, 'o, 'key, 'k, 'raw, 'g, 'h) AddonWorld \<Rightarrow>
     ('p, 'o, 'k, 'g, 'h) Addon \<Rightarrow> ('p, 'o, 'k, 'g, 'h) Addon \<times> ('p, 'k) AddonOut list" where
  "addonReloadConfig W a =
     reloadResolvedConfig W (a\<lparr>addonConfig := configLoad (configWorld W) (addonConfig a)\<rparr>)"

text \<open>What fcitx's settings and other addons may ask for.\<close>

definition getConfig :: "('p, 'o, 'k, 'g, 'h) Addon \<Rightarrow> 'k ScribeConfigData" where
  "getConfig a = configuration (addonConfig a)"

definition addonTranscribing :: "('p, 'o, 'k, 'g, 'h) Addon \<Rightarrow> bool" where
  "addonTranscribing a = transcribing (addonEngine a)"

text \<open>The callbacks the constructor gives to the transport.\<close>

fun callbackEvent :: "IoEvent \<Rightarrow> Event" where
  "callbackEvent IoAuthenticated = ConnectionAuthenticated"
| "callbackEvent IoClosed = ConnectionClosed"
| "callbackEvent (IoFailure err) = ConnectionFailed err"
| "callbackEvent (IoCommitText m) = ConnectionCommitText m"
| "callbackEvent (IoVadTimeout m) = ConnectionVadTimeout m"
| "callbackEvent (IoErrorMessage m) = ConnectionErrorMessage m"

datatype ('p, 'key, 'raw) AddonOp =
    KeyOp bool 'key "'p option"
  | FocusInOp "'p option"
  | FocusOutOp "'p option"
  | DestroyedOp "'p option"
  | SetConfigOp 'raw
  | ReloadConfigOp
  | CallbackOp IoEvent

fun addonStep ::
  "('p, 'o, 'key, 'k, 'raw, 'g, 'h) AddonWorld \<times> ('p, 'key, 'raw) AddonOp \<Rightarrow>
     ('p, 'o, 'k, 'g, 'h) Addon \<Rightarrow> ('p, 'o, 'k, 'g, 'h) Addon \<times> ('p, 'k) AddonOut list" where
  "addonStep (W, KeyOp r k ic) a = handleInputContextKeyEvent W r k ic a"
| "addonStep (W, FocusInOp ic) a = handleInputContextFocusInEvent W ic a"
| "addonStep (W, FocusOutOp ic) a = handleInputContextFocusOutEvent W ic a"
| "addonStep (W, DestroyedOp ic) a = handleInputContextDestroyedEvent W ic a"
| "addonStep (W, SetConfigOp raw) a = addonSetConfig W raw a"
| "addonStep (W, ReloadConfigOp) a = addonReloadConfig W a"
| "addonStep (W, CallbackOp ev) a = snd (dispatch W (callbackEvent ev) a)"

text \<open>The constructor: the members' initial values, then \<open>reloadConfig()\<close>.\<close>

definition constructAddon ::
  "('p, 'o, 'key, 'k, 'raw, 'g, 'h) AddonWorld \<Rightarrow> 'g \<Rightarrow> 'h \<Rightarrow>
     ('p, 'o, 'k, 'g, 'h) Addon \<times> ('p, 'k) AddonOut list" where
  "constructAddon W g h = addonReloadConfig W (initAddon g h)"

end
