(* ===== verification/Addon_Props.thy ===== *)
theory Addon_Props
  imports Addon Engine_Inv
begin

text \<open>
  Properties of the adapter: a dispatch is a run of the engine with at most two follow-up
  events; the engine's and the configuration's invariants hold in every state of the addon; who
  accepts the hot key, where text is committed, what a failed call leaves behind, and what the
  log may show of the configuration.
\<close>

section \<open>What an effect leaves alone\<close>

lemma callIo_frame [simp]:
  "addonEngine (addon (snd (callIo W f d))) = addonEngine (addon d)"
  "addonConfig (addon (snd (callIo W f d))) = addonConfig (addon d)"
  "contextMap (addon (snd (callIo W f d))) = contextMap (addon d)"
  "contextsById (addon (snd (callIo W f d))) = contextsById (addon d)"
  "queue (snd (callIo W f d)) = queue d" "outs (snd (callIo W f d)) = outs d"
  "accepted (snd (callIo W f d)) = accepted d"
  by (simp_all add: callIo_def Let_def case_prod_beta)

lemma eraseContext_frame [simp]:
  "addonEngine (eraseContext c a) = addonEngine a" "addonConfig (eraseContext c a) = addonConfig a"
  "addonIo (eraseContext c a) = addonIo a"
  by (simp_all add: eraseContext_def Let_def split: option.splits)

lemma ensureContextId_frame [simp]:
  "addonEngine (snd (ensureContextId ob p a)) = addonEngine a"
  "addonConfig (snd (ensureContextId ob p a)) = addonConfig a"
  "addonIo (snd (ensureContextId ob p a)) = addonIo a"
  by (simp_all add: ensureContextId_def Let_def split: option.splits)

lemmas effect_simps = applyConnect_def applyDisconnect_def applySendEnvelope_def
  applyCommitText_def emplaceBack_def emit_def Let_def case_prod_beta
lemmas effect_splits = sum.splits option.splits

lemma apply_engine [simp]: "addonEngine (addon (applyEffect W x d)) = addonEngine (addon d)"
  by (cases x) (auto simp: effect_simps split: effect_splits)

lemma apply_config [simp]: "addonConfig (addon (applyEffect W x d)) = addonConfig (addon d)"
  by (cases x) (auto simp: effect_simps split: effect_splits)

lemma apply_accepted: "accepted (applyEffect W x d) \<longleftrightarrow> accepted d \<or> x = AcceptKey"
  by (cases x) (auto simp: effect_simps split: effect_splits)

lemma apply_all_engine [simp]: "addonEngine (addon (fold (applyEffect W) fx d)) = addonEngine (addon d)"
  by (induction fx arbitrary: d) simp_all

lemma apply_all_config [simp]: "addonConfig (addon (fold (applyEffect W) fx d)) = addonConfig (addon d)"
  by (induction fx arbitrary: d) simp_all

lemma apply_all_accepted:
  "accepted (fold (applyEffect W) fx d) \<longleftrightarrow> accepted d \<or> AcceptKey \<in> set fx"
  by (induction fx arbitrary: d) (auto simp: apply_accepted)

text \<open>The follow-up events are failures and dead contexts.\<close>

fun followUp :: "Event \<Rightarrow> bool" where
  "followUp (ConnectionFailed _) = True"
| "followUp (ContextDestroyed _) = True"
| "followUp _ = False"

lemma apply_queue: "\<exists>fs. queue (applyEffect W x d) = queue d @ fs \<and> list_all followUp fs"
  by (cases x) (auto simp: effect_simps split: effect_splits)

lemma apply_all_queue:
  "\<exists>fs. queue (fold (applyEffect W) fx d) = queue d @ fs \<and> list_all followUp fs"
proof (induction fx arbitrary: d)
  case Nil
  then show ?case by simp
next
  case (Cons x fx)
  obtain fs where fs: "queue (applyEffect W x d) = queue d @ fs" "list_all followUp fs"
    using apply_queue by blast
  obtain gs where "queue (fold (applyEffect W) fx (applyEffect W x d)) =
      queue (applyEffect W x d) @ gs" "list_all followUp gs"
    using Cons.IH by blast
  with fs show ?case by (intro exI [of _ "fs @ gs"]) simp
qed

section \<open>A dispatch is a run of the engine\<close>

lemma dispatchOne_engine:
  "addonEngine (addon (dispatchOne W ev d)) = fst (handle (engineDeps W) ev (addonEngine (addon d)))"
  "addonConfig (addon (dispatchOne W ev d)) = addonConfig (addon d)"
  "accepted (dispatchOne W ev d) \<longleftrightarrow>
     accepted d \<or> AcceptKey \<in> set (snd (handle (engineDeps W) ev (addonEngine (addon d))))"
  by (simp_all add: dispatchOne_def case_prod_beta apply_all_accepted)

lemma dispatchOne_queue:
  "\<exists>fs. queue (dispatchOne W ev d) = queue d @ fs \<and> list_all followUp fs"
  using apply_all_queue [of W _ "d\<lparr>addon := _\<rparr>"] by (simp add: dispatchOne_def case_prod_beta)

lemma eventWeight_pos: "0 < eventWeight ev"
  by (cases ev) simp_all

lemma loop_Nil [simp]: "queue d = [] \<Longrightarrow> dispatchLoop W d = d"
  by (simp add: dispatchLoop.simps)

lemma loop_Cons:
  "queue d = ev # rest \<Longrightarrow> dispatchLoop W d = dispatchLoop W (dispatchOne W ev (d\<lparr>queue := rest\<rparr>))"
  by (simp add: dispatchLoop.simps)

definition runsEngine where
  "runsEngine W d d' fs \<longleftrightarrow>
     addonEngine (addon d') = fst (run (handle (engineDeps W)) (addonEngine (addon d)) (queue d @ fs)) \<and>
     accepted d' = (accepted d \<or>
       AcceptKey \<in> set (snd (run (handle (engineDeps W)) (addonEngine (addon d)) (queue d @ fs)))) \<and>
     addonConfig (addon d') = addonConfig (addon d)"

lemma loop_runs:
  "\<exists>fs. list_all followUp fs \<and> length (queue d) + length fs \<le> queueWeight (queue d) \<and>
     runsEngine W d (dispatchLoop W d) fs"
proof (induction W d rule: dispatchLoop.induct)
  case (1 W d)
  show ?case
  proof (cases "queue d")
    case Nil
    then show ?thesis by (intro exI [of _ "[]"]) (simp add: runsEngine_def)
  next
    case (Cons ev rest)
    let ?d = "dispatchOne W ev (d\<lparr>queue := rest\<rparr>)"
    from "1.IH" [OF Cons] obtain fs where IH: "list_all followUp fs"
      "length (queue ?d) + length fs \<le> queueWeight (queue ?d)"
      "runsEngine W ?d (dispatchLoop W ?d) fs" by blast
    obtain gs where q: "queue ?d = rest @ gs" "list_all followUp gs"
      using dispatchOne_queue [of W ev "d\<lparr>queue := rest\<rparr>"] by auto
    have "queueWeight (queue ?d) < queueWeight (queue d)"
      using dispatchOne_rest [OF Cons, of W] Cons by simp
    moreover have "runsEngine W d (dispatchLoop W d) (gs @ fs)"
      using IH(3) q(1)
      by (auto simp: runsEngine_def loop_Cons [OF Cons] Cons snd_run_Cons dispatchOne_engine
          simp del: run.simps)
    ultimately show ?thesis
      using IH(1,2) q Cons by (intro exI [of _ "gs @ fs"]) auto
  qed
qed

lemma dispatch_runs:
  "\<exists>fs. length fs \<le> 2 \<and> list_all followUp fs \<and>
     addonEngine (fst (snd (dispatch W ev a))) =
       fst (run (handle (engineDeps W)) (addonEngine a) (ev # fs)) \<and>
     fst (dispatch W ev a) =
       (AcceptKey \<in> set (snd (run (handle (engineDeps W)) (addonEngine a) (ev # fs)))) \<and>
     addonConfig (fst (snd (dispatch W ev a))) = addonConfig a"
proof -
  obtain fs where fs: "list_all followUp fs" "1 + length fs \<le> eventWeight ev"
    "runsEngine W \<lparr>addon = a, accepted = False, queue = [ev], outs = []\<rparr>
       (dispatchLoop W \<lparr>addon = a, accepted = False, queue = [ev], outs = []\<rparr>) fs"
    using loop_runs [of "\<lparr>addon = a, accepted = False, queue = [ev], outs = []\<rparr>" W] by auto
  moreover have "eventWeight ev \<le> 3" by (cases ev) simp_all
  ultimately show ?thesis
    by (intro exI [of _ fs]) (simp add: runsEngine_def dispatch_def Let_def del: run.simps)
qed

lemma followUp_accept: "followUp ev \<Longrightarrow> AcceptKey \<notin> set (snd (handle D ev e))"
  by (cases ev) (simp_all add: handle_accept)

lemma followUp_no_accept: "list_all followUp fs \<Longrightarrow> AcceptKey \<notin> set (snd (run (handle D) e fs))"
  by (induction fs arbitrary: e) (simp_all add: snd_run_Cons followUp_accept del: run.simps(2))

lemma dispatch_accepted:
  "fst (dispatch W ev a) \<longleftrightarrow> AcceptKey \<in> set (snd (handle (engineDeps W) ev (addonEngine a)))"
proof -
  obtain fs where "list_all followUp fs" and "fst (dispatch W ev a) \<longleftrightarrow>
      AcceptKey \<in> set (snd (run (handle (engineDeps W)) (addonEngine a) (ev # fs)))"
    using dispatch_runs by blast
  then show ?thesis by (simp add: snd_run_Cons followUp_no_accept del: run.simps)
qed

section \<open>Invariant of the addon\<close>

definition addonInv :: "('p, 'o, 'k, 'g, 'h) Addon \<Rightarrow> bool" where
  "addonInv a \<longleftrightarrow> engineInv (addonEngine a) \<and> configInvariant (addonConfig a)"

lemma addonInv_erase [simp]: "addonInv (eraseContext c a) \<longleftrightarrow> addonInv a"
  by (simp add: addonInv_def)

lemma addonInv_ensure [simp]: "addonInv (snd (ensureContextId ob p a)) \<longleftrightarrow> addonInv a"
  by (simp add: addonInv_def)

lemma addonInv_dispatch [simp]: "addonInv a \<Longrightarrow> addonInv (fst (snd (dispatch W ev a)))"
proof -
  assume a: "addonInv a"
  obtain fs where "addonEngine (fst (snd (dispatch W ev a))) =
      fst (run (handle (engineDeps W)) (addonEngine a) (ev # fs))"
    and "addonConfig (fst (snd (dispatch W ev a))) = addonConfig a"
    using dispatch_runs by blast
  with a show ?thesis by (simp add: addonInv_def engine.run_inv del: run.simps)
qed

lemma addonInv_reload:
  "engineInv (addonEngine a) \<Longrightarrow> configInvariant (addonConfig a) \<Longrightarrow>
     addonInv (fst (reloadResolvedConfig W a))"
  using addonInv_dispatch [of a W]
  by (simp add: reloadResolvedConfig_def addonInv_def [of a] Let_def case_prod_beta
      split: sum.splits)

lemma addonInv_step: "addonInv a \<Longrightarrow> addonInv (fst (addonStep x a))"
proof (cases x)
  case (Pair W op)
  assume a: "addonInv a"
  then have "engineInv (addonEngine a)" by (simp add: addonInv_def)
  with a Pair show ?thesis
    by (cases op)
       (simp_all add: handleInputContextKeyEvent_def handleInputContextFocusInEvent_def
         handleInputContextFocusOutEvent_def handleInputContextDestroyedEvent_def
         addonSetConfig_def addonReloadConfig_def addonInv_reload Let_def case_prod_beta
         split: option.splits)
qed

interpretation adapter: machine addonStep addonInv
  by unfold_locales (rule addonInv_step)

section \<open>Outputs\<close>

fun isLogLine :: "('p, 'k) AddonOut \<Rightarrow> bool" where
  "isLogLine (LogLine _ _) = True"
| "isLogLine _ = False"

fun isCommit :: "Effect \<Rightarrow> bool" where
  "isCommit (CommitText _ _) = True"
| "isCommit _ = False"

lemma handle_commit_alone:
  "\<not> list_all (\<lambda>x. \<not> isCommit x) (snd (handle D ev e)) \<Longrightarrow>
     \<exists>c t. snd (handle D ev e) = [CommitText c t]"
  by (cases ev) (auto simp: handle_def engine_defs Let_def split: engine_splits)

lemma followUp_no_commit: "followUp ev \<Longrightarrow> list_all (\<lambda>x. \<not> isCommit x) (snd (handle D ev e))"
  by (cases ev) (auto simp: handle_def engine_defs Let_def split: engine_splits)

definition logsMore where
  "logsMore d d' \<longleftrightarrow> (\<exists>os. outs d' = outs d @ os \<and> list_all isLogLine os)"

lemma logsMore_trans: "logsMore d d' \<Longrightarrow> logsMore d' d'' \<Longrightarrow> logsMore d d''"
  by (auto simp: logsMore_def)

lemma apply_logs: "\<not> isCommit x \<Longrightarrow> logsMore d (applyEffect W x d)"
  by (cases x) (auto simp: logsMore_def effect_simps split: effect_splits)

lemma apply_all_logs: "list_all (\<lambda>x. \<not> isCommit x) fx \<Longrightarrow> logsMore d (fold (applyEffect W) fx d)"
proof (induction fx arbitrary: d)
  case Nil
  then show ?case by (simp add: logsMore_def)
next
  case (Cons x fx)
  then show ?case by (auto intro: logsMore_trans apply_logs)
qed

lemma dispatchOne_logs:
  "list_all (\<lambda>x. \<not> isCommit x) (snd (handle (engineDeps W) ev (addonEngine (addon d)))) \<Longrightarrow>
     logsMore d (dispatchOne W ev d)"
  using apply_all_logs [where d = "d\<lparr>addon := (addon d)\<lparr>addonEngine := _\<rparr>\<rparr>"]
  by (simp add: dispatchOne_def case_prod_beta logsMore_def)

lemma loop_logs: "list_all followUp (queue d) \<Longrightarrow> logsMore d (dispatchLoop W d)"
proof (induction W d rule: dispatchLoop.induct)
  case (1 W d)
  show ?case
  proof (cases "queue d")
    case Nil
    then show ?thesis by (simp add: logsMore_def)
  next
    case (Cons ev rest)
    let ?d = "dispatchOne W ev (d\<lparr>queue := rest\<rparr>)"
    have "list_all followUp (queue ?d)"
      using dispatchOne_queue [of W ev "d\<lparr>queue := rest\<rparr>"] "1.prems" Cons by auto
    from "1.IH" [OF Cons this] have "logsMore ?d (dispatchLoop W ?d)" .
    moreover have "logsMore (d\<lparr>queue := rest\<rparr>) ?d"
      by (rule dispatchOne_logs, rule followUp_no_commit) (use "1.prems" Cons in simp)
    then have "logsMore d ?d" by (simp add: logsMore_def)
    ultimately show ?thesis by (simp add: loop_Cons [OF Cons] logsMore_trans)
  qed
qed

text \<open>The state in which a dispatch starts, and its first turn.\<close>

lemma dispatch_first:
  "dispatch W ev a =
     (let d = dispatchLoop W (dispatchOne W ev \<lparr>addon = a, accepted = False, queue = [], outs = []\<rparr>)
      in (accepted d, addon d, outs d))"
  by (simp add: dispatch_def loop_Cons)

lemma dispatchOne_followUps: "queue d = [] \<Longrightarrow> list_all followUp (queue (dispatchOne W ev d))"
  using dispatchOne_queue [of W ev d] by auto

lemma dispatch_logs:
  assumes "list_all (\<lambda>x. \<not> isCommit x) (snd (handle (engineDeps W) ev (addonEngine a)))"
  shows "list_all isLogLine (snd (snd (dispatch W ev a)))"
proof -
  let ?d = "\<lparr>addon = a, accepted = False, queue = [], outs = []\<rparr>"
  have "logsMore ?d (dispatchOne W ev ?d)" by (rule dispatchOne_logs) (simp add: assms)
  from logsMore_trans [OF this loop_logs] show ?thesis
    by (simp add: dispatch_first Let_def logsMore_def dispatchOne_followUps)
qed

lemma dispatch_commit:
  assumes "snd (handle (engineDeps W) ev (addonEngine a)) = [CommitText c t]"
  shows "case contextsById a c of
      None \<Rightarrow> snd (snd (dispatch W ev a)) = []
    | Some ref \<Rightarrow>
       (case weakGet (objectAt W) ref of
          Some p \<Rightarrow> snd (snd (dispatch W ev a)) = [CommitString p t]
        | None \<Rightarrow> list_all isLogLine (snd (snd (dispatch W ev a))))"
proof -
  let ?d = "\<lparr>addon = a, accepted = False, queue = [], outs = []\<rparr>"
  have one: "dispatchOne W ev ?d = applyCommitText W c t
      \<lparr>addon = a\<lparr>addonEngine := fst (handle (engineDeps W) ev (addonEngine a))\<rparr>,
       accepted = False, queue = [], outs = []\<rparr>"
    using assms by (simp add: dispatchOne_def case_prod_beta)
  show ?thesis
    using loop_logs [OF dispatchOne_followUps [of ?d W ev]]
    by (auto simp: dispatch_first one Let_def logsMore_def applyCommitText_def emit_def
        emplaceBack_def split: option.splits)
qed

section \<open>What the follow-ups keep\<close>

lemma run_followUps:
  assumes "\<And>ev e. followUp ev \<Longrightarrow> P e \<Longrightarrow> P (fst (handle D ev e))"
  shows "list_all followUp fs \<Longrightarrow> P e \<Longrightarrow> P (fst (run (handle D) e fs))"
  by (induction fs arbitrary: e) (simp_all add: assms del: run.simps(2))

lemma dispatch_keeps:
  assumes "\<And>ev e. followUp ev \<Longrightarrow> P e \<Longrightarrow> P (fst (handle (engineDeps W) ev e))"
    and "P (fst (handle (engineDeps W) ev (addonEngine a)))"
  shows "P (addonEngine (fst (snd (dispatch W ev a))))"
proof -
  obtain fs where "list_all followUp fs" "addonEngine (fst (snd (dispatch W ev a))) =
      fst (run (handle (engineDeps W)) (addonEngine a) (ev # fs))"
    using dispatch_runs by blast
  with run_followUps [where P = P, OF assms(1)] assms(2) show ?thesis by (simp del: run.simps)
qed

lemma loop_keeps:
  assumes "\<And>ev e. followUp ev \<Longrightarrow> P e \<Longrightarrow> P (fst (handle (engineDeps W) ev e))"
    and "list_all followUp (queue d)" "P (addonEngine (addon d))"
  shows "P (addonEngine (addon (dispatchLoop W d)))"
proof -
  obtain fs where "list_all followUp fs" "runsEngine W d (dispatchLoop W d) fs"
    using loop_runs by blast
  with run_followUps [where P = P and fs = "queue d @ fs", OF assms(1)] assms(2,3) show ?thesis
    by (simp add: runsEngine_def)
qed

text \<open>A dispatch only ever erases from the registry.\<close>

definition onlyErases where
  "onlyErases a a' \<longleftrightarrow> (registryInv a \<longrightarrow> registryInv a') \<and>
     set (contextMap a') \<subseteq> set (contextMap a) \<and>
     (\<forall>c. contextsById a c = None \<longrightarrow> contextsById a' c = None)"

lemma onlyErases_refl [simp]: "onlyErases a a"
  by (simp add: onlyErases_def)

lemma onlyErases_trans: "onlyErases a a' \<Longrightarrow> onlyErases a' a'' \<Longrightarrow> onlyErases a a''"
  by (simp add: onlyErases_def) blast

lemma eraseContext_byId: "contextsById (eraseContext c a) = (contextsById a)(c := None)"
  by (auto simp: eraseContext_def Let_def split: option.splits)

lemma eraseContext_map: "set (contextMap (eraseContext c a)) \<subseteq> set (contextMap a)"
  by (auto simp: eraseContext_def rightErase_def Let_def split: option.splits)

lemma onlyErases_erase: "onlyErases a (eraseContext c a)"
  by (simp add: onlyErases_def eraseContext_byId eraseContext_map erase_inv)

lemma registryInv_io [simp]:
  "registryInv (a\<lparr>addonIo := io, ioCalls := n\<rparr>) = registryInv a"
  "registryInv (a\<lparr>addonEngine := e\<rparr>) = registryInv a"
  by (simp_all add: registryInv_def)

lemma onlyErases_callIo [simp]: "onlyErases (addon d) (addon (snd (callIo W f d)))"
  by (simp add: onlyErases_def callIo_def Let_def case_prod_beta)

lemma onlyErases_apply: "onlyErases (addon d) (addon (applyEffect W x d))"
  by (cases x) (auto simp: effect_simps onlyErases_erase split: effect_splits)

lemma onlyErases_apply_all: "onlyErases (addon d) (addon (fold (applyEffect W) fx d))"
  by (induction fx arbitrary: d) (auto intro: onlyErases_trans onlyErases_apply)

lemma onlyErases_one: "onlyErases (addon d) (addon (dispatchOne W ev d))"
  using onlyErases_apply_all [where d = "d\<lparr>addon := (addon d)\<lparr>addonEngine := _\<rparr>\<rparr>"]
  by (simp add: dispatchOne_def case_prod_beta onlyErases_def)

lemma onlyErases_loop: "onlyErases (addon d) (addon (dispatchLoop W d))"
proof (induction W d rule: dispatchLoop.induct)
  case (1 W d)
  show ?case
  proof (cases "queue d")
    case Nil
    then show ?thesis by simp
  next
    case (Cons ev rest)
    from "1.IH" [OF Cons] onlyErases_one [of "d\<lparr>queue := rest\<rparr>" W ev] show ?thesis
      by (auto simp: loop_Cons [OF Cons] intro: onlyErases_trans)
  qed
qed

lemma onlyErases_dispatch: "onlyErases a (fst (snd (dispatch W ev a)))"
  using onlyErases_loop [of "\<lparr>addon = a, accepted = False, queue = [ev], outs = []\<rparr>" W]
  by (simp add: dispatch_def Let_def)

section \<open>Properties\<close>

text \<open>
  C27. One dispatch is a run of the engine over the event and at most two follow-ups, each a
  transport failure or a context found dead: the loop over the event queue ends, whatever the
  transport answers and the worker does meanwhile. The key is accepted exactly when the first
  event asks for it, and the configuration is untouched.
\<close>

theorem dispatch_runs_engine:
  "\<exists>fs. length fs \<le> 2 \<and> list_all followUp fs \<and>
     addonEngine (fst (snd (dispatch W ev a))) =
       fst (run (handle (engineDeps W)) (addonEngine a) (ev # fs)) \<and>
     fst (dispatch W ev a) =
       (AcceptKey \<in> set (snd (handle (engineDeps W) ev (addonEngine a)))) \<and>
     addonConfig (fst (snd (dispatch W ev a))) = addonConfig a"
  using dispatch_runs [of W ev a] by (auto simp: dispatch_accepted simp del: run.simps)

text \<open>
  C28. From construction on, whatever fcitx, the configuration and the transport do, and in
  whatever order, the addon's engine satisfies the engine's invariant and its configuration the
  configuration's: a session only on a ready connection in a focused living context.
\<close>

theorem addon_reachable_invariant:
  "engineInv (addonEngine (fst (run addonStep (fst (constructAddon W g h)) ops))) \<and>
   configInvariant (addonConfig (fst (run addonStep (fst (constructAddon W g h)) ops)))"
proof -
  have "addonInv (fst (constructAddon W g h))"
    by (simp add: constructAddon_def addonReloadConfig_def initAddon_def addonInv_reload)
  from adapter.run_inv [OF this, of ops] show ?thesis by (simp add: addonInv_def)
qed

text \<open>
  C29. A key event is consumed exactly when it is a press of the configured key in an input
  context and the toggle does something: it ends the running session, withdraws this context's
  pending start, or starts one in the focused context with a configuration loaded. Releases and
  other keys always pass through, and a press is consumed at most once.
\<close>

theorem hot_key_accepted_iff:
  "FilterAndAccept \<in> set (snd (addonStep (W, KeyOp isRelease key ic) a)) \<longleftrightarrow>
    \<not> isRelease \<and> checkKeyList W key (toggleTranscriptionKeys (configData (addonConfig a))) \<and>
    (case ic of
       None \<Rightarrow> False
     | Some p \<Rightarrow>
         session (addonEngine a) \<noteq> None \<or>
         pendingContext (addonEngine a) = Some (fst (ensureContextId (objectAt W) p a)) \<or>
         hasFocus W p \<and> connectionConfig (addonEngine a) \<noteq> None)"
proof (cases ic)
  case None
  then show ?thesis by (simp add: handleInputContextKeyEvent_def)
next
  case (Some p)
  let ?c = "fst (ensureContextId (objectAt W) p a)" and ?a = "snd (ensureContextId (objectAt W) p a)"
  have "list_all (\<lambda>x. \<not> isCommit x) (snd (handle (engineDeps W) (Toggle ?c (hasFocus W p)) (addonEngine ?a)))"
    by (auto simp: handle_def engine_defs Let_def split: engine_splits)
  from dispatch_logs [OF this] have
    "FilterAndAccept \<notin> set (snd (snd (dispatch W (Toggle ?c (hasFocus W p)) ?a)))"
    by (auto simp: list_all_iff)
  with Some show ?thesis
    by (auto simp: handleInputContextKeyEvent_def Let_def case_prod_beta dispatch_accepted
        handle_accept)
qed


lemma weakGet_iff:
  "weakGet ob r = Some p \<longleftrightarrow> (\<exists>x. r = (p, Some x) \<and> ob p = Some x)"
  by (cases r) (auto simp: weakGet_def)

lemma weakGet_pair [simp]: "weakGet ob (p, Some x) = (if ob p = Some x then Some p else None)"
  by (simp add: weakGet_def)

lemma dispatch_commit_iff:
  assumes "engineInv (addonEngine a)"
  shows "CommitString p t \<in> set (snd (snd (dispatch W ev a))) \<longleftrightarrow>
    (\<exists>m s ob. ev = ConnectionCommitText m \<and> session (addonEngine a) = Some s \<and>
       ct_session_id m = string_of_bytes (sess_id s) \<and> ct_sequence_no m = nextSequenceNo s \<and>
       t = ct_text m \<and> focusedContext (addonEngine a) = Some (sess_context s) \<and>
       contextsById a (sess_context s) = Some (p, Some ob) \<and> objectAt W p = Some ob)"
    (is "?l \<longleftrightarrow> ?r")
proof (cases "list_all (\<lambda>x. \<not> isCommit x) (snd (handle (engineDeps W) ev (addonEngine a)))")
  case True
  then have "CommitText c t \<notin> set (snd (handle (engineDeps W) ev (addonEngine a)))" for c
    by (auto simp: list_all_iff)
  with handle_commit [OF assms, of _ t "engineDeps W" ev] have "\<not> ?r" by blast
  moreover have "\<not> ?l" using dispatch_logs [OF True] by (auto simp: list_all_iff)
  ultimately show ?thesis by blast
next
  case False
  then obtain c t' where fx: "snd (handle (engineDeps W) ev (addonEngine a)) = [CommitText c t']"
    using handle_commit_alone by blast
  with handle_commit [OF assms, of c t' "engineDeps W" ev] obtain m s where
    "ev = ConnectionCommitText m" "session (addonEngine a) = Some s"
    "ct_session_id m = string_of_bytes (sess_id s)" "ct_sequence_no m = nextSequenceNo s"
    "c = sess_context s" "t' = ct_text m" "focusedContext (addonEngine a) = Some c" by auto
  with dispatch_commit [OF fx] show ?thesis
    by (auto simp: weakGet_iff list_all_iff split: option.splits)
qed

lemma dispatch_no_commit:
  "engineInv (addonEngine a) \<Longrightarrow> (\<forall>m. ev \<noteq> ConnectionCommitText m) \<Longrightarrow>
     CommitString p t \<notin> set (snd (snd (dispatch W ev a)))"
  by (simp add: dispatch_commit_iff)

lemma reload_no_commit:
  "engineInv (addonEngine a) \<Longrightarrow> CommitString p t \<notin> set (snd (reloadResolvedConfig W a))"
  by (simp add: reloadResolvedConfig_def dispatch_no_commit Let_def case_prod_beta split: sum.splits)

lemma other_no_commit:
  assumes "engineInv (addonEngine a)" and "\<forall>ev. op \<noteq> CallbackOp ev"
  shows "CommitString p t \<notin> set (snd (addonStep (W, op) a))"
  using assms
  by (cases op)
     (auto simp: handleInputContextKeyEvent_def handleInputContextFocusInEvent_def
       handleInputContextFocusOutEvent_def handleInputContextDestroyedEvent_def
       addonSetConfig_def addonReloadConfig_def reload_no_commit dispatch_no_commit
       Let_def case_prod_beta split: option.splits)

lemma callback_commit: "callbackEvent ev = ConnectionCommitText m \<longleftrightarrow> ev = IoCommitText m"
  by (cases ev) simp_all

text \<open>
  C26. Text reaches an application only through the session: a commit is made exactly when the
  transport delivers a CommitText with the session's id and its next sequence number, into the
  very object that was watched when the session's context was registered, which is still alive
  and whose context has the focus. A context that died, or an object that reuses its address,
  never receives text.
\<close>

theorem commit_reaches_watched_object:
  assumes "engineInv (addonEngine a)"
  shows "CommitString p t \<in> set (snd (addonStep (W, op) a)) \<longleftrightarrow>
    (\<exists>m s ob. op = CallbackOp (IoCommitText m) \<and> session (addonEngine a) = Some s \<and>
       ct_session_id m = string_of_bytes (sess_id s) \<and> ct_sequence_no m = nextSequenceNo s \<and>
       t = ct_text m \<and> focusedContext (addonEngine a) = Some (sess_context s) \<and>
       contextsById a (sess_context s) = Some (p, Some ob) \<and> objectAt W p = Some ob)"
proof (cases "\<exists>ev. op = CallbackOp ev")
  case True
  then show ?thesis
    by (auto simp: dispatch_commit_iff [OF assms] callback_commit)
next
  case False
  with other_no_commit [OF assms] show ?thesis by blast
qed

definition exampleAddon :: "(nat, nat, nat, unit, unit) Addon" where
  "exampleAddon = (initAddon () ())
     \<lparr>nextContextId := 8, contextMap := [(42, 7)], contextsById := [7 \<mapsto> (42, Some 1)],
      addonEngine := exampleSession\<rparr>"

definition exampleAddonWorld :: "(nat, nat, nat, nat, nat, unit, unit) AddonWorld" where
  "exampleAddonWorld =
     \<lparr>objectAt = [42 \<mapsto> 1], hasFocus = (\<lambda>p. True), checkKeyList = (\<lambda>k ks. True),
      configWorld = exampleWorld, engineDeps = exampleDeps,
      protobufLib = \<lparr>ByteSizeLong = (\<lambda>e. 1), SerializeToArray = (\<lambda>e. Some [5]),
        ParseFromArray = (\<lambda>bs. None), hostEndian = LittleEndian\<rparr>,
      worker = (\<lambda>n io. io)\<rparr>"

lemma exampleAddon_sel [simp]:
  "addonEngine exampleAddon = exampleSession"
  "contextsById exampleAddon = [7 \<mapsto> (42, Some 1)]"
  "objectAt exampleAddonWorld = [42 \<mapsto> 1]"
  by (simp_all add: exampleAddon_def exampleAddonWorld_def initAddon_def)

theorem commit_reaches_watched_object_witness:
  "CommitString 42 ''hi'' \<in> set (snd (addonStep (exampleAddonWorld, CallbackOp (IoCommitText
     \<lparr>ct_session_id = string_of_bytes (replicate 16 65), ct_sequence_no = 1,
      ct_text = ''hi''\<rparr>)) exampleAddon))"
  using exampleSession_inv
  by (subst commit_reaches_watched_object) (simp_all del: addonStep.simps)

section \<open>Dead contexts\<close>

lemma followUp_no_session:
  "followUp ev \<Longrightarrow> session e = None \<and> pendingContext e = None \<Longrightarrow>
     session (fst (handle D ev e)) = None \<and> pendingContext (fst (handle D ev e)) = None"
  by (cases ev) (auto simp: handle_def engine_defs Let_def split: engine_splits)

lemma destroyed_ends_session:
  "session e = Some s \<Longrightarrow> pendingContext e = None \<Longrightarrow>
     session (fst (handle D (ContextDestroyed (sess_context s)) e)) = None \<and>
     pendingContext (fst (handle D (ContextDestroyed (sess_context s)) e)) = None"
  by (auto simp: handle_def engine_defs Let_def split: engine_splits)

text \<open>
  C32. A dead target ends the session: when an in-order CommitText arrives for a context whose
  watched object is gone, nothing is committed, the id leaves the registry, and the session is
  over when the callback returns, even if the interruption cannot be sent.
\<close>

theorem commit_to_dead_object_ends_session:
  assumes "engineInv (addonEngine a)" and "session (addonEngine a) = Some s"
    and "ct_session_id m = string_of_bytes (sess_id s)" and "ct_sequence_no m = nextSequenceNo s"
    and "contextsById a (sess_context s) = Some ref" and "weakGet (objectAt W) ref = None"
    and "a' = fst (addonStep (W, CallbackOp (IoCommitText m)) a)"
  shows "session (addonEngine a') = None \<and> pendingContext (addonEngine a') = None \<and>
    contextsById a' (sess_context s) = None \<and>
    list_all isLogLine (snd (addonStep (W, CallbackOp (IoCommitText m)) a))"
proof -
  let ?D = "engineDeps W" and ?c = "sess_context s" and ?e = "addonEngine a"
  let ?ev = "ConnectionCommitText m"
  let ?d = "\<lparr>addon = a, accepted = False, queue = [], outs = []\<rparr>"
  have h: "handle ?D ?ev ?e =
      (?e\<lparr>session := Some (s\<lparr>nextSequenceNo := nextSequenceNo s + 1\<rparr>)\<rparr>,
       [CommitText ?c (ct_text m)])"
    and pend: "pendingContext ?e = None"
    using assms(1-4) by (auto simp: handle_def engine_defs engineInv_defs Let_def split: option.splits)
  define d1 where "d1 = dispatchOne W ?ev ?d"
  have d1: "queue d1 = [ContextDestroyed ?c]"
    "addonEngine (addon d1) = fst (handle ?D ?ev ?e)"
    "contextsById (addon d1) ?c = None"
    using assms(5,6) h
    by (simp_all add: d1_def dispatchOne_def applyCommitText_def emplaceBack_def Let_def
        eraseContext_byId)
  define d2 where "d2 = dispatchOne W (ContextDestroyed ?c) (d1\<lparr>queue := []\<rparr>)"
  have a': "a' = addon (dispatchLoop W d2)"
    unfolding assms(7) d2_def using d1(1) loop_Cons [OF d1(1), of W]
    by (simp add: dispatch_first Let_def d1_def)
  have "session (addonEngine (addon d2)) = None \<and> pendingContext (addonEngine (addon d2)) = None"
    using destroyed_ends_session
        [of "addonEngine (addon d1)" "s\<lparr>nextSequenceNo := nextSequenceNo s + 1\<rparr>" ?D] h pend
    by (simp add: d2_def dispatchOne_engine d1(2))
  then have "session (addonEngine a') = None \<and> pendingContext (addonEngine a') = None"
    unfolding a' using dispatchOne_followUps [of "d1\<lparr>queue := []\<rparr>" W "ContextDestroyed ?c"]
    by (intro loop_keeps [where P = "\<lambda>e. session e = None \<and> pendingContext e = None"]
          followUp_no_session) (simp_all add: d2_def)
  moreover have "contextsById a' ?c = None"
    using onlyErases_one [of "d1\<lparr>queue := []\<rparr>" W "ContextDestroyed ?c"]
      onlyErases_loop [of d2 W] d1(3)
    by (simp add: a' onlyErases_def d2_def)
  moreover have "list_all isLogLine (snd (snd (dispatch W ?ev a)))"
    using dispatch_commit [of W ?ev a] h assms(5,6) by simp
  ultimately show ?thesis by simp
qed

lemma exampleWorld_sel [simp]:
  "engineDeps exampleAddonWorld = exampleDeps" "configWorld exampleAddonWorld = exampleWorld"
  "hasFocus exampleAddonWorld p" "worker exampleAddonWorld n io = io"
  by (simp_all add: exampleAddonWorld_def)

lemma exampleAddon_session:
  "session (addonEngine exampleAddon) =
     Some \<lparr>sess_context = 7, sess_id = replicate 16 65, nextSequenceNo = 1\<rparr>"
  by simp

lemma exampleAddon_ref:
  "contextsById exampleAddon (sess_context \<lparr>sess_context = 7, sess_id = replicate 16 65,
     nextSequenceNo = 1\<rparr>) = Some (42, Some 1)"
  by simp

theorem hot_key_accepted_iff_witness:
  "FilterAndAccept \<in> set (snd (addonStep (exampleAddonWorld, KeyOp False 0 (Some 42)) exampleAddon))"
  by (simp add: hot_key_accepted_iff exampleAddonWorld_def del: addonStep.simps)

theorem commit_to_dead_object_ends_session_witness:
  "session (addonEngine (fst (addonStep (exampleAddonWorld\<lparr>objectAt := [42 \<mapsto> 2]\<rparr>,
     CallbackOp (IoCommitText \<lparr>ct_session_id = string_of_bytes (replicate 16 65),
       ct_sequence_no = 1, ct_text = ''hi''\<rparr>)) exampleAddon))) = None"
  using commit_to_dead_object_ends_session [where a = exampleAddon and W = "exampleAddonWorld\<lparr>objectAt := [42 \<mapsto> 2]\<rparr>"
      and m = "\<lparr>ct_session_id = string_of_bytes (replicate 16 65), ct_sequence_no = 1, ct_text = ''hi''\<rparr>",
      OF _ exampleAddon_session _ _ exampleAddon_ref _ refl] exampleSession_inv
  by (simp del: addonStep.simps)

definition forgets :: "ContextId \<Rightarrow> 'g Engine \<Rightarrow> bool" where
  "forgets c e \<longleftrightarrow> contexts e c = Some \<lparr>alive = False\<rparr> \<and> focusedContext e \<noteq> Some c \<and>
     pendingContext e \<noteq> Some c \<and> (\<forall>s. session e = Some s \<longrightarrow> sess_context s \<noteq> c)"

lemma destroyed_forgets: "forgets c (fst (handle D (ContextDestroyed c) e))"
  by (auto simp: forgets_def handle_def engine_defs Let_def split: engine_splits)

lemma followUp_forgets: "followUp ev \<Longrightarrow> forgets c e \<Longrightarrow> forgets c (fst (handle D ev e))"
  by (cases ev) (auto simp: forgets_def handle_def engine_defs Let_def split: engine_splits)

text \<open>
  Destruction is final: after fcitx reports a registered context destroyed, neither side of
  the registry knows it, and the engine holds it dead: it is not focused, and neither a pending
  start nor a session belongs to it.
\<close>

lemma destroyed_context_forgotten:
  assumes "registryInv a" and "findContextId p a = Some c"
    and "a' = fst (addonStep (W, DestroyedOp (Some p)) a)"
  shows "findContextId p a' = None \<and> contextsById a' c = None \<and> forgets c (addonEngine a')"
proof -
  let ?b = "fst (snd (dispatch W (ContextDestroyed c) a))"
  have a': "a' = eraseContext c ?b"
    using assms(2,3) by (simp add: handleInputContextDestroyedEvent_def Let_def case_prod_beta)
  have inv: "registryInv ?b"
    using onlyErases_dispatch assms(1) by (auto simp: onlyErases_def)
  have "findContextId p a' = None"
  proof (cases "findContextId p ?b")
    case None
    with registry.find_erase [OF inv] show ?thesis by (simp add: a')
  next
    case (Some d)
    then have "(p, d) \<in> set (contextMap a)"
      using onlyErases_dispatch [of a W "ContextDestroyed c"] inv
      by (auto simp: onlyErases_def find_eq leftFind_iff)
    with assms(1,2) have "d = c"
      by (metis find_eq leftFind_iff option.inject)
    with Some registry.find_erase [OF inv] show ?thesis by (simp add: a')
  qed
  moreover have "forgets c (addonEngine ?b)"
    by (rule dispatch_keeps [where P = "forgets c"]) (simp_all add: destroyed_forgets followUp_forgets)
  ultimately show ?thesis by (simp add: a' eraseContext_byId)
qed

section \<open>What the configuration and the transport answer\<close>

lemma handle_failed:
  "\<exists>l l'. handle D (ConnectionFailed err) e =
     (e\<lparr>connectionState := kDisconnected, pendingContext := None, session := None\<rparr>,
      [Log kInfo l, Log kInfo l'])"
  by (simp add: handle_def engine_defs Let_def)

lemma loop_failed:
  assumes "queue d = [ConnectionFailed err]"
  shows "accepted (dispatchLoop W d) = accepted d"
    and "addonIo (addon (dispatchLoop W d)) = addonIo (addon d)"
    and "connectionState (addonEngine (addon (dispatchLoop W d))) = kDisconnected"
    and "pendingContext (addonEngine (addon (dispatchLoop W d))) = None"
    and "session (addonEngine (addon (dispatchLoop W d))) = None"
proof -
  obtain l l' where "handle (engineDeps W) (ConnectionFailed err) (addonEngine (addon d)) =
      (addonEngine (addon d)\<lparr>connectionState := kDisconnected, pendingContext := None,
         session := None\<rparr>, [Log kInfo l, Log kInfo l'])"
    using handle_failed by blast
  then have "dispatchLoop W d = d\<lparr>queue := [], addon := (addon d)\<lparr>addonEngine :=
      addonEngine (addon d)\<lparr>connectionState := kDisconnected, pendingContext := None,
        session := None\<rparr>\<rparr>, outs := outs d @ [LogLine kInfo l, LogLine kInfo l']\<rparr>"
    by (simp add: loop_Cons [OF assms] dispatchOne_def emit_def)
  then show "accepted (dispatchLoop W d) = accepted d"
    and "addonIo (addon (dispatchLoop W d)) = addonIo (addon d)"
    and "connectionState (addonEngine (addon (dispatchLoop W d))) = kDisconnected"
    and "pendingContext (addonEngine (addon (dispatchLoop W d))) = None"
    and "session (addonEngine (addon (dispatchLoop W d))) = None"
    by simp_all
qed

lemma toggle_requests_connect:
  assumes "engineInv e" "connectionState e = kDisconnected" "connectionConfig e \<noteq> None"
  shows "\<exists>e1. handle D (Toggle c True) e = (e1, [AcceptKey, Connect]) \<and>
    connectionState e1 = kConnecting \<and> pendingContext e1 = Some c \<and> engineInv e1 \<and>
    genState e1 = genState e"
proof -
  have "engineInv (fst (handle D (Toggle c True) e))" using assms(1) by simp
  with assms show ?thesis
    by (auto simp: handle_def engine_defs engineInv_defs Let_def split: option.splits)
qed

lemma applyConnect_outcome:
  "applyConnect W d =
     (case resolveConnectionConfig (configWorld W) (addonConfig (addon d)) of
        Inl err \<Rightarrow> d\<lparr>queue := queue d @ [ConnectionFailed err]\<rparr>
      | Inr r \<Rightarrow>
          let a = addon d; io = worker W (ioCalls a) (addonIo a)
          in if commandsOpen io \<and> length (commands io) < 128
             then d\<lparr>addon := a\<lparr>addonIo := io\<lparr>commands := commands io @ [ConnectCommand (connection r)]\<rparr>,
                    ioCalls := ioCalls a + 1\<rparr>\<rparr>
             else d\<lparr>addon := a\<lparr>addonIo := io, ioCalls := ioCalls a + 1\<rparr>,
                    queue := queue d @ [ConnectionFailed (makeError kTransport
                      (''failed to queue connect command for socket '' @ socketPath (connection r)))]\<rparr>)"
  by (auto simp: applyConnect_def callIo_def ioConnect_def trySend_def commandCapacity_def
      emplaceBack_def Let_def split: sum.splits)

lemma start_submits:
  assumes "engineInv (addonEngine a)" and "connectionState (addonEngine a) = kDisconnected"
    and "connectionConfig (addonEngine a) \<noteq> None"
  shows "case dispatch W (Toggle c True) a of (acc, a', out) \<Rightarrow>
    acc \<and>
    (case resolveConnectionConfig (configWorld W) (addonConfig a) of
       Inl err \<Rightarrow> connectionState (addonEngine a') = kDisconnected \<and>
         pendingContext (addonEngine a') = None \<and> addonIo a' = addonIo a
     | Inr r \<Rightarrow>
         let io = worker W (ioCalls a) (addonIo a)
         in if commandsOpen io \<and> length (commands io) < 128
            then connectionState (addonEngine a') = kConnecting \<and>
              pendingContext (addonEngine a') = Some c \<and>
              addonIo a' = io\<lparr>commands := commands io @ [ConnectCommand (connection r)]\<rparr>
            else connectionState (addonEngine a') = kDisconnected \<and>
              pendingContext (addonEngine a') = None \<and> addonIo a' = io)"
proof -
  obtain e1 where h: "handle (engineDeps W) (Toggle c True) (addonEngine a) = (e1, [AcceptKey, Connect])"
    and e1: "connectionState e1 = kConnecting" "pendingContext e1 = Some c"
    using toggle_requests_connect [OF assms] by blast
  have one: "dispatchOne W (Toggle c True) \<lparr>addon = a, accepted = False, queue = [], outs = []\<rparr> =
      applyConnect W \<lparr>addon = a\<lparr>addonEngine := e1\<rparr>, accepted = True, queue = [], outs = []\<rparr>"
    by (simp add: dispatchOne_def h)
  show ?thesis
  proof (cases "resolveConnectionConfig (configWorld W) (addonConfig a)")
    case (Inl err)
    then show ?thesis
      by (simp add: dispatch_first one applyConnect_outcome loop_failed Let_def)
  next
    case (Inr r)
    with e1 show ?thesis
      by (simp add: dispatch_first one applyConnect_outcome loop_failed Let_def)
  qed
qed

text \<open>The accepted start in full: the state it leaves.\<close>

lemma start_queues:
  assumes "engineInv (addonEngine a)" and "connectionState (addonEngine a) = kDisconnected"
    and "connectionConfig (addonEngine a) \<noteq> None"
    and "resolveConnectionConfig (configWorld W) (addonConfig a) = Inr r"
    and "worker W (ioCalls a) (addonIo a) = io" "commandsOpen io" "length (commands io) < 128"
  shows "\<exists>e1. dispatch W (Toggle c True) a =
      (True, a\<lparr>addonEngine := e1,
         addonIo := io\<lparr>commands := commands io @ [ConnectCommand (connection r)]\<rparr>,
         ioCalls := ioCalls a + 1\<rparr>, []) \<and>
    connectionState e1 = kConnecting \<and> pendingContext e1 = Some c \<and> engineInv e1 \<and>
    genState e1 = genState (addonEngine a)"
proof -
  obtain e1 where h: "handle (engineDeps W) (Toggle c True) (addonEngine a) = (e1, [AcceptKey, Connect])"
    and e1: "connectionState e1 = kConnecting" "pendingContext e1 = Some c" "engineInv e1"
      "genState e1 = genState (addonEngine a)"
    using toggle_requests_connect [OF assms(1-3)] by blast
  have "dispatchOne W (Toggle c True) \<lparr>addon = a, accepted = False, queue = [], outs = []\<rparr> =
      applyConnect W \<lparr>addon = a\<lparr>addonEngine := e1\<rparr>, accepted = True, queue = [], outs = []\<rparr>"
    by (simp add: dispatchOne_def h)
  with e1 assms(4-7) show ?thesis
    by (intro exI [of _ e1]) (simp add: dispatch_first applyConnect_outcome Let_def)
qed

text \<open>
  C30. A start never hangs on a refused call: pressing the key in the focused context while
  disconnected is always accepted; if the configuration still resolves and the transport takes
  the command, exactly that connect command is queued and the engine waits for it; otherwise the
  engine is disconnected again with nothing pending, so that the next press starts afresh.
\<close>

theorem start_submits_or_recovers:
  assumes "engineInv (addonEngine a)" and "connectionState (addonEngine a) = kDisconnected"
    and "connectionConfig (addonEngine a) \<noteq> None"
  shows "case dispatch W (Toggle c True) a of (acc, a', out) \<Rightarrow>
    acc \<and>
    (case resolveConnectionConfig (configWorld W) (addonConfig a) of
       Inl err \<Rightarrow> connectionState (addonEngine a') = kDisconnected \<and>
         pendingContext (addonEngine a') = None \<and> addonIo a' = addonIo a
     | Inr r \<Rightarrow>
         let io = worker W (ioCalls a) (addonIo a)
         in if commandsOpen io \<and> length (commands io) < 128
            then connectionState (addonEngine a') = kConnecting \<and>
              pendingContext (addonEngine a') = Some c \<and>
              addonIo a' = io\<lparr>commands := commands io @ [ConnectCommand (connection r)]\<rparr>
            else connectionState (addonEngine a') = kDisconnected \<and>
              pendingContext (addonEngine a') = None \<and> addonIo a' = io)"
  by (rule start_submits [OF assms])

definition idleAddon :: "(nat, nat, nat, unit, unit) Addon" where
  "idleAddon = exampleAddon\<lparr>addonEngine := exampleSession
     \<lparr>session := None, connectionState := kDisconnected\<rparr>\<rparr>"

theorem start_submits_or_recovers_witness:
  "fst (dispatch exampleAddonWorld (Toggle 7 True) idleAddon)"
proof -
  have "engineInv (addonEngine idleAddon)" "connectionState (addonEngine idleAddon) = kDisconnected"
    "connectionConfig (addonEngine idleAddon) \<noteq> None"
    by (simp_all add: idleAddon_def exampleSession_def initEngine_def engineInv_defs)
  from start_submits_or_recovers [OF this, of exampleAddonWorld 7] show ?thesis
    by (simp add: case_prod_beta)
qed

section \<open>What the log shows of the configuration\<close>

lemma configured_dispatch:
  "dispatch W (ConnectionConfigured r) a =
     (let e = addonEngine a; e1 = fst (handle (engineDeps W) (ConnectionConfigured r) e)
      in if connectionState e \<noteq> kDisconnected \<or> pendingContext e \<noteq> None \<or> session e \<noteq> None
         then let (res, io) = ioDisconnect (worker W (ioCalls a) (addonIo a))
              in (False, a\<lparr>addonEngine := e1, addonIo := io, ioCalls := ioCalls a + 1\<rparr>,
                  case res of Inl err \<Rightarrow> [LogLine kInfo (err_message err)] | Inr _ \<Rightarrow> [])
         else (False, a\<lparr>addonEngine := e1\<rparr>, []))"
proof -
  let ?e = "addonEngine a"
  let ?active = "connectionState ?e \<noteq> kDisconnected \<or> pendingContext ?e \<noteq> None \<or> session ?e \<noteq> None"
  have "snd (handle (engineDeps W) (ConnectionConfigured r) ?e) = (if ?active then [Disconnect] else [])"
    by (auto simp: handle_def engine_defs Let_def split: ConfigResult.splits)
  then show ?thesis
    by (auto simp: dispatch_first dispatchOne_def applyDisconnect_def callIo_def emit_def
        case_prod_beta Let_def split: sum.splits)
qed

lemma configured_out:
  "snd (snd (dispatch W (ConnectionConfigured (ConfigOk x)) a)) =
   snd (snd (dispatch (W\<lparr>configWorld := V\<rparr>) (ConnectionConfigured (ConfigOk y)) a))"
  "snd (snd (dispatch W (ConnectionConfigured (ConfigError err)) a)) =
   snd (snd (dispatch (W\<lparr>configWorld := V\<rparr>) (ConnectionConfigured (ConfigError err)) a))"
  by (simp_all add: configured_dispatch Let_def case_prod_beta)

text \<open>The same environment with other values \<open>g\<close> for the variables a token can come from.\<close>

definition sameButTokens ::
  "('k, 'raw) ConfigWorld \<Rightarrow> (string \<Rightarrow> string option) \<Rightarrow> 'k Config \<Rightarrow> bool" where
  "sameButTokens V g cfg \<longleftrightarrow>
     g kSocketPathEnv = getenv V kSocketPathEnv \<and>
     (readEnv (V\<lparr>getenv := g\<rparr>) kAuthTokenEnv = [] \<longleftrightarrow> readEnv V kAuthTokenEnv = []) \<and>
     (configuredAuthToken (V\<lparr>getenv := g\<rparr>) cfg = [] \<longleftrightarrow> configuredAuthToken V cfg = [])"

lemma resolve_same:
  assumes "sameButTokens V g cfg"
  shows "case resolveConnectionConfig V cfg of
      Inl err \<Rightarrow> resolveConnectionConfig (V\<lparr>getenv := g\<rparr>) cfg = Inl err
    | Inr r \<Rightarrow> \<exists>r'. resolveConnectionConfig (V\<lparr>getenv := g\<rparr>) cfg = Inr r' \<and>
        socketPath (connection r') = socketPath (connection r) \<and>
        socketPathSource r' = socketPathSource r \<and> authTokenSource r' = authTokenSource r"
proof -
  have "readEnv (V\<lparr>getenv := g\<rparr>) kSocketPathEnv = readEnv V kSocketPathEnv"
    using assms by (simp add: sameButTokens_def readEnv_def)
  with assms show ?thesis
    by (simp add: sameButTokens_def resolveConnectionConfig_def
        effectiveSocketPath_def effectiveSocketPathSource_def effectiveAuthTokenSource_def
        effectiveAuthToken_def Let_def)
qed

lemma reload_same:
  assumes "sameButTokens (configWorld W) g (addonConfig a)"
  shows "snd (reloadResolvedConfig (W\<lparr>configWorld := (configWorld W)\<lparr>getenv := g\<rparr>\<rparr>) a) =
    snd (reloadResolvedConfig W a)"
  using resolve_same [OF assms]
  by (auto simp: reloadResolvedConfig_def Let_def case_prod_beta configured_out [symmetric]
      split: sum.splits)

lemma config_same:
  "configLoad (V\<lparr>getenv := g\<rparr>) c = configLoad V c"
  "configSet (V\<lparr>getenv := g\<rparr>) raw c = configSet V raw c"
  by (simp_all add: configLoad_def configSet_def resolveSocketPath_def Let_def)



lemma toggle_unconfigured:
  assumes "session e = None" "pendingContext e = None" "connectionConfig e = None"
    "connectionConfigError e = Some err" "connectionState e = kDisconnected"
  shows "\<exists>e'. handle D (Toggle c True) e = (e', [Log kInfo (err_message err)]) \<and>
    \<not> transcribing e' \<and> connectionState e' = kDisconnected"
  using assms by (simp add: handle_def engine_defs Let_def)

lemma configured_error:
  "connectionConfig (fst (handle D (ConnectionConfigured (ConfigError err)) e)) = None \<and>
   connectionConfigError (fst (handle D (ConnectionConfigured (ConfigError err)) e)) = Some err \<and>
   session (fst (handle D (ConnectionConfigured (ConfigError err)) e)) = None \<and>
   pendingContext (fst (handle D (ConnectionConfigured (ConfigError err)) e)) = None \<and>
   connectionState (fst (handle D (ConnectionConfigured (ConfigError err)) e)) = kDisconnected"
  by (simp add: handle_def engine_defs Let_def)

text \<open>
  C31. A broken configuration is explained, not acted on: after a reload whose connection
  settings do not resolve, from any state of the addon, pressing the key in a focused context is
  not consumed, logs exactly the reason the configuration gave, and starts nothing: no call is
  made into the transport and the engine stays disconnected and idle.
\<close>

theorem unconfigured_press_explains:
  assumes "cfg = configLoad (configWorld W) (addonConfig a)"
    and "resolveConnectionConfig (configWorld W) cfg = Inl err"
    and "a1 = fst (addonStep (W, ReloadConfigOp) a)"
    and "hasFocus W p" and "checkKeyList W key (toggleTranscriptionKeys (configData cfg))"
  shows "case addonStep (W, KeyOp False key (Some p)) a1 of (a2, out) \<Rightarrow>
    out = [LogLine kInfo (err_message err)] \<and> addonIo a2 = addonIo a1 \<and>
    connectionState (addonEngine a2) = kDisconnected \<and> \<not> transcribing (addonEngine a2)"
proof -
  let ?D = "engineDeps W"
  have a1: "addonEngine a1 =
      fst (handle ?D (ConnectionConfigured (ConfigError err)) (addonEngine a))" "addonConfig a1 = cfg"
    using assms(1,2)
    by (simp_all add: assms(3) addonReloadConfig_def reloadResolvedConfig_def configured_dispatch
        Let_def case_prod_beta)
  obtain c b where cb: "ensureContextId (objectAt W) p a1 = (c, b)" by fastforce
  have b: "addonEngine b = addonEngine a1" "addonIo b = addonIo a1"
    using ensureContextId_frame [of "objectAt W" p a1] by (simp_all add: cb)
  obtain e' where e': "handle ?D (Toggle c True) (addonEngine b) = (e', [Log kInfo (err_message err)])"
    "\<not> transcribing e'" "connectionState e' = kDisconnected"
    using toggle_unconfigured [of "addonEngine b" err ?D c] configured_error [of ?D err "addonEngine a"]
    by (auto simp: b a1)
  then have "dispatch W (Toggle c True) b =
      (False, b\<lparr>addonEngine := e'\<rparr>, [LogLine kInfo (err_message err)])"
    by (simp add: dispatch_first dispatchOne_def emit_def)
  with assms(4,5) e' b show ?thesis
    by (simp add: handleInputContextKeyEvent_def cb a1(2))
qed

definition emptyWorld :: "(nat, nat, nat, nat, nat, unit, unit) AddonWorld" where
  "emptyWorld = exampleAddonWorld\<lparr>configWorld := exampleWorld\<lparr>getenv := Map.empty\<rparr>\<rparr>"

theorem unconfigured_press_explains_witness:
  "snd (addonStep (emptyWorld, KeyOp False 0 (Some 42))
      (fst (addonStep (emptyWorld, ReloadConfigOp) exampleAddon))) =
    [LogLine kInfo ''Cannot connect to transcriber: auth token is empty'']"
proof -
  have r: "resolveConnectionConfig (configWorld emptyWorld)
      (configLoad (configWorld emptyWorld) (addonConfig exampleAddon)) =
      Inl (makeError kConfig ''Cannot connect to transcriber: auth token is empty'')"
    by (simp add: emptyWorld_def exampleAddonWorld_def exampleWorld_def exampleAddon_def
        initAddon_def initConfig_def defaultConfigData_def config_defs c_str_def
        kSocketPathEnv_def kAuthTokenEnv_def)
  have "hasFocus emptyWorld 42" "checkKeyList emptyWorld 0 ks" for ks
    by (simp_all add: emptyWorld_def exampleAddonWorld_def)
  with unconfigured_press_explains [OF refl r refl, of 42 0] show ?thesis
    by (simp add: case_prod_beta del: addonStep.simps)
qed

end
