(* ===== verification/System.thy ===== *)
theory System
  imports Addon_Props Io_Wire "HOL-Library.Sublist"
begin

text \<open>
  The whole program: the addon on the fcitx thread, the transport actor on its worker thread,
  and fcitx's event dispatcher between them, which runs the callbacks the worker schedules one
  after another on the fcitx thread, in the order they were scheduled.

  A turn is one callback of the fcitx thread or one step of the worker. The worker also moves
  inside a callback, before each call into the transport (the field \<open>worker\<close> of the world):
  \<open>moves\<close> says that each of these moves is a sequence of the transport's steps.
\<close>

section \<open>Turns\<close>

record ('p, 'o, 'k, 'g, 'h) System =
  sysAddon :: "('p, 'o, 'k, 'g, 'h) Addon"
  dispatcher :: "IoEvent list"

fun published :: "outs \<Rightarrow> IoEvent list" where
  "published [] = []"
| "published (Publish ev # out) = ev # published out"
| "published (StartWrite frame # out) = published out"

lemma published_append [simp]: "published (xs @ ys) = published xs @ published ys"
  by (induction xs rule: published.induct) simp_all

lemma set_published: "ev \<in> set (published out) \<longleftrightarrow> Publish ev \<in> set out"
  by (induction out rule: published.induct) auto

text \<open>A label of the fcitx thread; the others are the worker's.\<close>

fun isCall :: "Label \<Rightarrow> bool" where
  "isCall (CallConnect _) = True"
| "isCall CallDisconnect = True"
| "isCall (CallSend _) = True"
| "isCall _ = False"

text \<open>A sequence of steps of the transport, earliest first.\<close>

inductive path :: "'h IoLib \<Rightarrow> 'h Io \<Rightarrow> (Label \<times> outs) list \<Rightarrow> 'h Io \<Rightarrow> bool" for L where
  path_Nil: "path L io [] io"
| path_Cons: "ioStep L io l (Some (io1, out)) \<Longrightarrow> path L io1 ss io2 \<Longrightarrow>
     path L io ((l, out) # ss) io2"

lemma path_append: "path L io ss io1 \<Longrightarrow> path L io1 ss' io2 \<Longrightarrow> path L io (ss @ ss') io2"
  by (induction rule: path.induct) (auto intro: path.intros)

lemma path_one: "ioStep L io l (Some (io1, out)) \<Longrightarrow> path L io [(l, out)] io1"
  by (auto intro: path.intros)

lemma path_execution: "path L io ss io' \<Longrightarrow> execution L io tr \<Longrightarrow> execution L io' (rev ss @ tr)"
proof (induction arbitrary: tr rule: path.induct)
  case (path_Nil io)
  then show ?case by simp
next
  case (path_Cons io l io1 out ss io2)
  have "execution L io1 ((l, out) # tr)"
    by (rule execution.step [OF path_Cons.prems path_Cons.hyps(1)])
  from path_Cons.IH [OF this] show ?case by simp
qed

definition pathOuts :: "(Label \<times> outs) list \<Rightarrow> outs" where
  "pathOuts ss = concat (map snd ss)"

lemma outputs_path [simp]: "outputs (rev ss @ tr) = outputs tr @ pathOuts ss"
  by (simp add: outputs_def pathOuts_def)

definition moves :: "'h IoLib \<Rightarrow> ('p, 'o, 'key, 'k, 'raw, 'g, 'h) AddonWorld \<Rightarrow> bool" where
  "moves L W \<longleftrightarrow> protobufLib W = protobuf L \<and>
     (\<forall>n io. \<exists>ss. path L io ss (worker W n io) \<and> list_all (\<lambda>x. \<not> isCall (fst x)) ss)"

text \<open>A world in which the worker rests during the callbacks.\<close>

definition quiet :: "'h IoLib \<Rightarrow> ('p, 'o, 'key, 'k, 'raw, 'g, 'h) AddonWorld \<Rightarrow> bool" where
  "quiet L W \<longleftrightarrow> protobufLib W = protobuf L \<and> (\<forall>n io. worker W n io = io)"

lemma quiet_moves: "quiet L W \<Longrightarrow> moves L W"
  unfolding quiet_def moves_def using path_Nil by fastforce

text \<open>
  The calls a callback makes into the transport: connections only with the parameters that the
  configuration in force resolves to, and only the two messages of the session protocol.
\<close>

fun sessionEnvelope :: "Envelope \<Rightarrow> bool" where
  "sessionEnvelope (StartSession _) = True"
| "sessionEnvelope (InterruptSession _) = True"
| "sessionEnvelope _ = False"

fun mayCall ::
  "('p, 'o, 'key, 'k, 'raw, 'g, 'h) AddonWorld \<Rightarrow> 'k Config \<Rightarrow> Label \<Rightarrow> bool" where
  "mayCall W K (CallConnect config) =
     (case resolveConnectionConfig (configWorld W) K of
        Inl _ \<Rightarrow> False | Inr r \<Rightarrow> connection r = config)"
| "mayCall W K (CallSend env) = sessionEnvelope env"
| "mayCall W K _ = True"

definition callsAllowed ::
  "('p, 'o, 'key, 'k, 'raw, 'g, 'h) AddonWorld \<Rightarrow> 'k Config \<Rightarrow> (Label \<times> outs) list \<Rightarrow> bool"
where
  "callsAllowed W K ss \<longleftrightarrow> list_all (\<lambda>x. mayCall W K (fst x)) ss"

lemma callsAllowed_simps [simp]:
  "callsAllowed W K []"
  "callsAllowed W K (x # ss) \<longleftrightarrow> mayCall W K (fst x) \<and> callsAllowed W K ss"
  "callsAllowed W K (ss @ ss') \<longleftrightarrow> callsAllowed W K ss \<and> callsAllowed W K ss'"
  by (simp_all add: callsAllowed_def)

lemma callsAllowed_worker: "list_all (\<lambda>x. \<not> isCall (fst x)) ss \<Longrightarrow> callsAllowed W K ss"
  unfolding callsAllowed_def
  by (erule list.pred_mono_strong) (metis isCall.simps(1,3) mayCall.elims(3))

text \<open>
  Reachable systems, with the transport's execution (latest step first) and the log of the fcitx
  thread: each callback with the addon it left and what it did. The steps \<open>ss\<close> the transport
  takes during a callback lead from its state before it to its state after it, its calls are
  allowed ones, and what it publishes is scheduled. No callback is refused for want of such
  steps (\<open>callback_path\<close>).
\<close>

type_synonym ('p, 'o, 'key, 'k, 'raw, 'g, 'h) log =
  "((('p, 'o, 'key, 'k, 'raw, 'g, 'h) AddonWorld \<times> ('p, 'key, 'raw) AddonOp) \<times>
    ('p, 'o, 'k, 'g, 'h) Addon \<times> ('p, 'k) AddonOut list) list"

inductive reachable ::
  "'h IoLib \<Rightarrow> ('p, 'o, 'k, 'g, 'h) System \<Rightarrow> (Label \<times> outs) list \<Rightarrow>
     ('p, 'o, 'key, 'k, 'raw, 'g, 'h) log \<Rightarrow> bool" for L where
  construct: "constructAddon W g h = (a, out) \<Longrightarrow>
     reachable L \<lparr>sysAddon = a, dispatcher = []\<rparr> [] [((W, ReloadConfigOp), a, out)]"
| callback: "reachable L s tr log \<Longrightarrow> moves L W \<Longrightarrow> (\<forall>ev. op \<noteq> CallbackOp ev) \<Longrightarrow>
     addonStep (W, op) (sysAddon s) = (a, out) \<Longrightarrow>
     path L (addonIo (sysAddon s)) ss (addonIo a) \<Longrightarrow> callsAllowed W (addonConfig a) ss \<Longrightarrow>
     reachable L (s\<lparr>sysAddon := a, dispatcher := dispatcher s @ published (pathOuts ss)\<rparr>)
       (rev ss @ tr) (log @ [((W, op), a, out)])"
| deliver: "reachable L s tr log \<Longrightarrow> moves L W \<Longrightarrow> dispatcher s = ev # evs \<Longrightarrow>
     addonStep (W, CallbackOp ev) (sysAddon s) = (a, out) \<Longrightarrow>
     path L (addonIo (sysAddon s)) ss (addonIo a) \<Longrightarrow> callsAllowed W (addonConfig a) ss \<Longrightarrow>
     reachable L (s\<lparr>sysAddon := a, dispatcher := evs @ published (pathOuts ss)\<rparr>)
       (rev ss @ tr) (log @ [((W, CallbackOp ev), a, out)])"
| worker: "reachable L s tr log \<Longrightarrow> \<not> isCall l \<Longrightarrow>
     ioStep L (addonIo (sysAddon s)) l (Some (io, out)) \<Longrightarrow>
     reachable L (s\<lparr>sysAddon := (sysAddon s)\<lparr>addonIo := io\<rparr>,
         dispatcher := dispatcher s @ published out\<rparr>) ((l, out) # tr) log"

section \<open>A callback changes the transport only by steps of the transport\<close>

text \<open>
  \<open>leadsTo\<close>: by steps of the worker and allowed calls. \<open>callsOnly\<close>: by steps that publish
  nothing, as the calls themselves do not.
\<close>

definition leadsTo where
  "leadsTo L W K io io' \<longleftrightarrow> (\<exists>ss. path L io ss io' \<and> callsAllowed W K ss)"

definition callsOnly where
  "callsOnly L W K io io' \<longleftrightarrow> (\<exists>ss. path L io ss io' \<and> callsAllowed W K ss \<and> pathOuts ss = [])"

lemma leadsTo_refl [simp]: "leadsTo L W K io io"
  unfolding leadsTo_def by (intro exI [of _ "[]"]) (simp add: path_Nil)

lemma leadsTo_trans: "leadsTo L W K io io' \<Longrightarrow> leadsTo L W K io' io'' \<Longrightarrow> leadsTo L W K io io''"
  unfolding leadsTo_def by (metis callsAllowed_simps(3) path_append)

lemma callsOnly_refl [simp]: "callsOnly L W K io io"
  unfolding callsOnly_def by (intro exI [of _ "[]"]) (simp add: path_Nil pathOuts_def)

lemma callsOnly_trans:
  "callsOnly L W K io io' \<Longrightarrow> callsOnly L W K io' io'' \<Longrightarrow> callsOnly L W K io io''"
proof -
  assume "callsOnly L W K io io'" "callsOnly L W K io' io''"
  then obtain ss ss' where "path L io ss io'" "pathOuts ss = []" "path L io' ss' io''"
    "pathOuts ss' = []" "callsAllowed W K ss" "callsAllowed W K ss'" by (auto simp: callsOnly_def)
  then show ?thesis unfolding callsOnly_def
    by (intro exI [of _ "ss @ ss'"]) (simp add: path_append pathOuts_def)
qed

lemma callsOnlyI: "path L io [(l, [])] io' \<Longrightarrow> mayCall W K l \<Longrightarrow> callsOnly L W K io io'"
  unfolding callsOnly_def by (intro exI [of _ "[(l, [])]"]) (simp add: pathOuts_def)

lemma callsOnly_leads: "callsOnly L W K io io' \<Longrightarrow> leadsTo L W K io io'"
  by (auto simp: callsOnly_def leadsTo_def)

lemma call_steps:
  "path L io [(CallConnect config, [])] (snd (ioConnect config io))"
  "path L io [(CallDisconnect, [])] (snd (ioDisconnect io))"
  "path L io [(CallSend env, [])] (snd (ioSend (protobuf L) env io))"
  by (simp_all add: path_one call_connect_step call_disconnect_step call_send_step)

lemma call_only:
  "resolveConnectionConfig (configWorld W) K = Inr r \<Longrightarrow>
     callsOnly L W K io (snd (ioConnect (connection r) io))"
  "callsOnly L W K io (snd (ioDisconnect io))"
  "sessionEnvelope env \<Longrightarrow> callsOnly L W K io (snd (ioSend (protobuf L) env io))"
  by (simp_all add: call_steps [THEN callsOnlyI])

text \<open>
  What holds of each call a callback may make, and is reflexive and transitive, holds of a
  callback whose configuration in force is \<open>K\<close>.
\<close>

definition relates ::
  "('h Io \<Rightarrow> 'h Io \<Rightarrow> bool) \<Rightarrow> ('p, 'o, 'key, 'k, 'raw, 'g, 'h) AddonWorld \<Rightarrow> 'k Config \<Rightarrow> bool"
where
  "relates R W K \<longleftrightarrow> (\<forall>io. R io io) \<and> (\<forall>x y z. R x y \<longrightarrow> R y z \<longrightarrow> R x z) \<and>
     (\<forall>n io. (\<forall>r. resolveConnectionConfig (configWorld W) K = Inr r \<longrightarrow>
          R io (snd (ioConnect (connection r) (worker W n io)))) \<and>
        R io (snd (ioDisconnect (worker W n io))) \<and>
        (\<forall>env. sessionEnvelope env \<longrightarrow> R io (snd (ioSend (protobufLib W) env (worker W n io)))))"

lemma relates_refl [simp]: "relates R W K \<Longrightarrow> R io io"
  by (simp add: relates_def)

lemma relates_trans: "relates R W K \<Longrightarrow> R x y \<Longrightarrow> R y z \<Longrightarrow> R x z"
  unfolding relates_def by blast

lemma relates_call:
  "relates R W K \<Longrightarrow> resolveConnectionConfig (configWorld W) K = Inr r \<Longrightarrow>
     R io (snd (ioConnect (connection r) (worker W n io)))"
  "relates R W K \<Longrightarrow> R io (snd (ioDisconnect (worker W n io)))"
  "relates R W K \<Longrightarrow> sessionEnvelope env \<Longrightarrow>
     R io (snd (ioSend (protobufLib W) env (worker W n io)))"
  by (simp_all add: relates_def)

fun sendsSession :: "Effect \<Rightarrow> bool" where
  "sendsSession (SendEnvelope env) = sessionEnvelope env"
| "sendsSession _ = True"

lemma handle_sends: "list_all sendsSession (snd (handle D ev e))"
  by (cases ev) (auto simp: handle_def engine_defs Let_def split: engine_splits)

lemma callIo_io [simp]:
  "addonIo (addon (snd (callIo W f d))) = snd (f (worker W (ioCalls (addon d)) (addonIo (addon d))))"
  by (simp add: callIo_def Let_def case_prod_beta)

lemma related_apply:
  "relates R W (addonConfig (addon d)) \<Longrightarrow> sendsSession x \<Longrightarrow>
     R (addonIo (addon d)) (addonIo (addon (applyEffect W x d)))"
  by (cases x) (auto simp: effect_simps relates_call split: effect_splits)

lemma related_apply_all:
  "relates R W (addonConfig (addon d)) \<Longrightarrow> list_all sendsSession fx \<Longrightarrow>
     R (addonIo (addon d)) (addonIo (addon (fold (applyEffect W) fx d)))"
proof (induction fx arbitrary: d)
  case Nil
  then show ?case by simp
next
  case (Cons x fx)
  have "R (addonIo (addon d)) (addonIo (addon (applyEffect W x d)))"
    using Cons.prems by (simp add: related_apply)
  moreover have "R (addonIo (addon (applyEffect W x d)))
      (addonIo (addon (fold (applyEffect W) fx (applyEffect W x d))))"
    using Cons.prems by (intro Cons.IH) simp_all
  ultimately show ?case using relates_trans [OF Cons.prems(1)] by simp
qed

lemma related_one:
  "relates R W (addonConfig (addon d)) \<Longrightarrow>
     R (addonIo (addon d)) (addonIo (addon (dispatchOne W ev d)))"
  using related_apply_all [of R W "d\<lparr>addon := (addon d)\<lparr>addonEngine := _\<rparr>\<rparr>"]
  by (simp add: dispatchOne_def case_prod_beta handle_sends)

lemma related_loop:
  "relates R W (addonConfig (addon d)) \<Longrightarrow>
     R (addonIo (addon d)) (addonIo (addon (dispatchLoop W d)))"
proof (induction W d rule: dispatchLoop.induct)
  case (1 W d)
  show ?case
  proof (cases "queue d")
    case Nil
    with "1.prems" show ?thesis by simp
  next
    case (Cons ev rest)
    let ?d = "dispatchOne W ev (d\<lparr>queue := rest\<rparr>)"
    have "R (addonIo (addon d)) (addonIo (addon ?d))"
      using related_one [of R W "d\<lparr>queue := rest\<rparr>" ev] "1.prems" by simp
    moreover have "R (addonIo (addon ?d)) (addonIo (addon (dispatchLoop W ?d)))"
      using "1.prems" by (intro "1.IH" [OF Cons]) (simp add: dispatchOne_engine)
    ultimately show ?thesis
      using relates_trans [OF "1.prems"] by (simp add: loop_Cons [OF Cons])
  qed
qed

lemma dispatch_config [simp]: "addonConfig (fst (snd (dispatch W ev a))) = addonConfig a"
  using dispatch_runs by blast

lemma related_dispatch:
  "relates R W (addonConfig a) \<Longrightarrow> R (addonIo a) (addonIo (fst (snd (dispatch W ev a))))"
  using related_loop [of R W "\<lparr>addon = a, accepted = False, queue = [ev], outs = []\<rparr>"]
  by (simp add: dispatch_def Let_def)

lemma reload_config: "addonConfig (fst (reloadResolvedConfig W a)) = addonConfig a"
  by (simp add: reloadResolvedConfig_def Let_def case_prod_beta split: sum.splits)

lemma related_reload:
  "relates R W (addonConfig a) \<Longrightarrow> R (addonIo a) (addonIo (fst (reloadResolvedConfig W a)))"
  using related_dispatch [of R W a]
  by (simp add: reloadResolvedConfig_def Let_def case_prod_beta split: sum.splits)

lemmas handler_defs = handleInputContextKeyEvent_def handleInputContextFocusInEvent_def
  handleInputContextFocusOutEvent_def handleInputContextDestroyedEvent_def addonSetConfig_def
  addonReloadConfig_def

text \<open>The configuration in force during a callback is the one it leaves.\<close>

lemma related_step:
  assumes "relates R W (addonConfig (fst (addonStep (W, op) a)))"
  shows "R (addonIo a) (addonIo (fst (addonStep (W, op) a)))"
  using assms related_dispatch [of R W "snd (ensureContextId (objectAt W) _ a)"]
    related_dispatch [of R W a] related_reload [of R W "a\<lparr>addonConfig := _\<rparr>"]
  by (cases op)
     (auto simp: handler_defs reload_config Let_def case_prod_beta split: option.splits if_splits)

lemma moves_relates:
  assumes "moves L W"
  shows "relates (leadsTo L W K) W K"
proof -
  have pb: "protobufLib W = protobuf L" and w: "leadsTo L W K io (worker W n io)" for n io
    using assms unfolding moves_def leadsTo_def by (blast, metis callsAllowed_worker)
  note call = leadsTo_trans [OF w callsOnly_leads]
  show ?thesis
    unfolding relates_def pb
    by (intro conjI allI impI) (auto intro: call call_only dest: leadsTo_trans)
qed

lemma quiet_relates: "quiet L W \<Longrightarrow> relates (callsOnly L W K) W K"
  unfolding relates_def quiet_def
  by (intro conjI allI impI) (auto intro: call_only dest: callsOnly_trans)

text \<open>So every callback is a turn of the system.\<close>

lemma callback_path:
  "moves L W \<Longrightarrow> \<exists>ss. path L (addonIo a) ss (addonIo (fst (addonStep (W, op) a))) \<and>
     callsAllowed W (addonConfig (fst (addonStep (W, op) a))) ss"
  using related_step [OF moves_relates] by (simp add: leadsTo_def)

lemma callback_calls:
  "quiet L W \<Longrightarrow> \<exists>ss. path L (addonIo a) ss (addonIo (fst (addonStep (W, op) a))) \<and>
     callsAllowed W (addonConfig (fst (addonStep (W, op) a))) ss \<and> pathOuts ss = []"
  using related_step [OF quiet_relates] by (simp add: callsOnly_def)

lemma reachable_callback:
  assumes "reachable L s tr log" "quiet L W" "\<forall>ev. op \<noteq> CallbackOp ev"
    "addonStep (W, op) (sysAddon s) = (a, out)"
  shows "\<exists>tr'. reachable L (s\<lparr>sysAddon := a\<rparr>) tr' (log @ [((W, op), a, out)])"
proof -
  from callback_calls [OF assms(2), of "sysAddon s" op] assms(4) obtain ss
    where ss: "path L (addonIo (sysAddon s)) ss (addonIo a)" "callsAllowed W (addonConfig a) ss"
      "pathOuts ss = []" by auto
  from reachable.callback [OF assms(1) quiet_moves [OF assms(2)] assms(3,4) ss(1,2)] ss(3)
  show ?thesis by auto
qed

lemma reachable_deliver:
  assumes "reachable L s tr log" "quiet L W" "dispatcher s = ev # evs"
    "addonStep (W, CallbackOp ev) (sysAddon s) = (a, out)"
  shows "\<exists>tr'. reachable L (s\<lparr>sysAddon := a, dispatcher := evs\<rparr>) tr'
    (log @ [((W, CallbackOp ev), a, out)])"
proof -
  from callback_calls [OF assms(2), of "sysAddon s" "CallbackOp ev"] assms(4) obtain ss
    where ss: "path L (addonIo (sysAddon s)) ss (addonIo a)" "callsAllowed W (addonConfig a) ss"
      "pathOuts ss = []" by (auto simp del: addonStep.simps)
  from reachable.deliver [OF assms(1) quiet_moves [OF assms(2)] assms(3,4) ss(1,2)] ss(3)
  show ?thesis by auto
qed

section \<open>The system's invariant\<close>

fun committed :: "('p, 'k) AddonOut list \<Rightarrow> string list" where
  "committed [] = []"
| "committed (CommitString p t # os) = t # committed os"
| "committed (_ # os) = committed os"

lemma committed_append [simp]: "committed (xs @ ys) = committed xs @ committed ys"
  by (induction xs rule: committed.induct) simp_all

lemma committed_none: "(\<forall>p t. CommitString p t \<notin> set os) \<Longrightarrow> committed os = []"
  by (induction os rule: committed.induct) auto

lemma committed_logs: "list_all isLogLine os \<Longrightarrow> committed os = []"
  by (induction os rule: committed.induct) simp_all

fun eventTexts :: "IoEvent list \<Rightarrow> string list" where
  "eventTexts [] = []"
| "eventTexts (IoCommitText m # evs) = ct_text m # eventTexts evs"
| "eventTexts (_ # evs) = eventTexts evs"

lemma eventTexts_append [simp]: "eventTexts (xs @ ys) = eventTexts xs @ eventTexts ys"
  by (induction xs rule: eventTexts.induct) simp_all

lemma eventTexts_set: "t \<in> set (eventTexts evs) \<longleftrightarrow> (\<exists>m. IoCommitText m \<in> set evs \<and> t = ct_text m)"
  by (induction evs rule: eventTexts.induct) auto

fun opEvents :: "('p, 'key, 'raw) AddonOp \<Rightarrow> IoEvent list" where
  "opEvents (CallbackOp ev) = [ev]"
| "opEvents _ = []"

definition delivered :: "('p, 'o, 'key, 'k, 'raw, 'g, 'h) log \<Rightarrow> IoEvent list" where
  "delivered log = concat (map (\<lambda>((W, op), _). opEvents op) log)"

definition allOuts :: "('p, 'o, 'key, 'k, 'raw, 'g, 'h) log \<Rightarrow> ('p, 'k) AddonOut list" where
  "allOuts log = concat (map (snd \<circ> snd) log)"

lemma log_simps [simp]:
  "delivered [] = []" "delivered (x # log) = opEvents (snd (fst x)) @ delivered log"
  "delivered (log @ log') = delivered log @ delivered log'"
  "allOuts [] = []" "allOuts (x # log) = snd (snd x) @ allOuts log"
  "allOuts (log @ log') = allOuts log @ allOuts log'"
  by (simp_all add: delivered_def allOuts_def case_prod_beta)

lemma other_opEvents: "(\<forall>ev. op \<noteq> CallbackOp ev) \<Longrightarrow> opEvents op = []"
  by (cases op) simp_all

lemma callback_committed:
  assumes inv: "engineInv (addonEngine a)"
  shows "committed (snd (addonStep (W, CallbackOp ev) a)) \<in> {[], eventTexts [ev]}"
proof (cases "list_all (\<lambda>x. \<not> isCommit x)
    (snd (handle (engineDeps W) (callbackEvent ev) (addonEngine a)))")
  case True
  from dispatch_logs [OF True] show ?thesis by (simp add: committed_logs)
next
  case False
  then obtain c t where
    fx: "snd (handle (engineDeps W) (callbackEvent ev) (addonEngine a)) = [CommitText c t]"
    using handle_commit_alone by blast
  with handle_commit [OF inv, of c t "engineDeps W" "callbackEvent ev"] obtain m
    where "ev = IoCommitText m" "t = ct_text m"
    by (auto simp: callback_commit)
  with dispatch_commit [OF fx] show ?thesis
    by (auto simp: committed_logs split: option.splits)
qed

lemma construct_io: "addonIo (fst (constructAddon W g h)) = initIo h"
  by (simp add: constructAddon_def addonReloadConfig_def reloadResolvedConfig_def
      configured_dispatch initAddon_def initEngine_def Let_def split: sum.splits)

lemma construct_inv: "addonInv (fst (constructAddon W g h))"
  by (simp add: constructAddon_def addonReloadConfig_def initAddon_def addonInv_reload)

lemma construct_no_commit: "committed (snd (constructAddon W g h)) = []"
  by (rule committed_none)
     (simp add: constructAddon_def addonReloadConfig_def initAddon_def reload_no_commit)

lemma reachable_inv:
  "reachable L s tr log \<Longrightarrow>
     execution L (addonIo (sysAddon s)) tr \<and> addonInv (sysAddon s) \<and>
     delivered log @ dispatcher s = published (outputs tr) \<and>
     subseq (committed (allOuts log)) (eventTexts (delivered log))"
proof (induction rule: reachable.induct)
  case (construct W g h a out)
  then have "a = fst (constructAddon W g h)" "out = snd (constructAddon W g h)" by simp_all
  then show ?case
    by (simp add: construct_io construct_inv construct_no_commit execution.start outputs_def)
next
  case (callback s tr log W op a out ss)
  then have a: "a = fst (addonStep (W, op) (sysAddon s))" "out = snd (addonStep (W, op) (sysAddon s))"
    by simp_all
  have "committed out = []"
    unfolding a using callback.IH callback.hyps(3)
    by (intro committed_none allI other_no_commit) (simp_all add: addonInv_def)
  moreover have "addonInv a" unfolding a(1) using callback.IH addonInv_step by blast
  moreover have "execution L (addonIo a) (rev ss @ tr)"
    using callback.IH by (intro path_execution [OF callback.hyps(5)]) simp
  ultimately show ?case
    using callback.IH callback.hyps(3) by (simp add: other_opEvents flip: append_assoc)
next
  case (deliver s tr log W ev evs a out ss)
  then have a: "a = fst (addonStep (W, CallbackOp ev) (sysAddon s))"
    "out = snd (addonStep (W, CallbackOp ev) (sysAddon s))" by simp_all
  have "committed out \<in> {[], eventTexts [ev]}"
    unfolding a using deliver.IH by (intro callback_committed) (simp add: addonInv_def)
  then have "subseq (committed out) (eventTexts [ev])" by auto
  with deliver.IH have "subseq (committed (allOuts log) @ committed out)
      (eventTexts (delivered log) @ eventTexts [ev])"
    by (intro list_emb_append_mono) simp_all
  moreover have "addonInv a" unfolding a(1) using deliver.IH addonInv_step by blast
  moreover have "execution L (addonIo a) (rev ss @ tr)"
    using deliver.IH by (intro path_execution [OF deliver.hyps(5)]) simp
  moreover have "delivered log @ ev # evs = published (outputs tr)"
    using deliver.IH deliver.hyps(3) by simp
  ultimately show ?case
    by (simp add: eventTexts_append [symmetric] del: eventTexts_append)
next
  case (worker s tr log l io out)
  then have "execution L io ((l, out) # tr)" by (auto intro: execution.step)
  with worker.IH show ?case by (simp add: addonInv_def)
qed

section \<open>Where text and tokens come from\<close>

text \<open>Any step of an execution was taken from the execution before it.\<close>

lemma execution_suffix:
  "execution L io (tr2 @ tr1) \<Longrightarrow> \<exists>io'. execution L io' tr1"
proof (induction tr2 arbitrary: io)
  case Nil
  then show ?case by auto
next
  case (Cons x tr2)
  from Cons.prems obtain io' where "execution L io' (tr2 @ tr1)"
    by (auto elim: execution.cases)
  then show ?case by (rule Cons.IH)
qed

lemma execution_at:
  assumes "execution L io tr" and "(l, out) \<in> set tr"
  obtains tr2 tr1 io0 io1 where "tr = tr2 @ (l, out) # tr1" "execution L io0 tr1"
    "ioStep L io0 l (Some (io1, out))" "execution L io1 ((l, out) # tr1)"
proof -
  from assms(2) obtain tr2 tr1 where tr: "tr = tr2 @ (l, out) # tr1"
    by (meson split_list)
  with assms(1) execution_suffix obtain io1 where ex: "execution L io1 ((l, out) # tr1)"
    by blast
  then obtain io0 where "execution L io0 tr1" "ioStep L io0 l (Some (io1, out))"
    by (cases rule: execution.cases) auto
  with tr ex that show ?thesis by blast
qed

text \<open>Every configuration the transport holds was handed to it by a connect call.\<close>

definition configsIn :: "'g Io \<Rightarrow> ConnectionConfig set" where
  "configsIn io = {c. ConnectCommand c \<in> set (commands io)} \<union>
     {c. \<exists>g b. (ConnStart g c, b) \<in> set (tasks io)} \<union> set_option (currentConfig io)"

lemma close_config:
  "closeConnection err rep io out = (io', out') \<Longrightarrow>
     currentConfig io' = currentConfig io \<or> currentConfig io' = None"
  by (auto simp: closeConnection_def Let_def split: if_splits option.splits)

lemma resume_config:
  assumes "resume L t r io = Some (io', out)"
  shows "set_option (currentConfig io') \<subseteq>
    set_option (currentConfig io) \<union> {c. \<exists>g. t = ConnStart g c}"
  using assms
  by (cases t; cases r)
     (auto simp: Let_def startConnection_def authenticate_def finishHandshake_def connectionReady_def readLoop_def
        writeLoop_def suspend_def spawn_def
        dest!: close_config
        split: option.splits sum.splits Envelope.splits if_splits list.splits Outcome.splits
          prod.splits unit.splits)

inductive_simps successor_start: "successor t out (ConnStart g c)"

lemma configsIn_resume:
  assumes "resume L t r (takeTask i io) = Some (io', out)"
    and "i < length (tasks io)" "tasks io ! i = (t, armed)"
  shows "configsIn io' \<subseteq> configsIn io"
proof -
  have t: "(t, armed) \<in> set (tasks io)" using assms(2,3) by (metis nth_mem)
  have "commands io' = commands io"
    using resume_commands [OF assms(1)] by (simp add: takeTask_def)
  moreover have "set_option (currentConfig io') \<subseteq>
      set_option (currentConfig io) \<union> {c. \<exists>g. t = ConnStart g c}"
    using resume_config [OF assms(1)] by (simp add: takeTask_def)
  moreover have "{c. \<exists>g b. (ConnStart g c, b) \<in> set (tasks io')} \<subseteq>
      {c. \<exists>g b. (ConnStart g c, b) \<in> set (tasks io)}"
    using resume_continues [OF assms(1)] takeTask_tasks [of i io]
    by (fastforce simp: continues_def successor_start)
  ultimately show ?thesis using t unfolding configsIn_def by auto
qed

lemma receiveCommand_config:
  assumes "commands io = c # cs" and "receiveCommand c (io\<lparr>commands := cs\<rparr>) = (io', out)"
  shows "configsIn io' \<subseteq> configsIn io"
proof -
  have "configsIn (fst (receiveCommand c (io\<lparr>commands := cs\<rparr>))) \<subseteq> configsIn io"
    using assms(1)
    by (cases c)
       (auto simp: configsIn_def spawn_def Let_def closeConnection_def split: option.splits if_splits)
  with assms(2) show ?thesis by simp
qed

lemma call_config:
  "configsIn (snd (ioConnect c io)) \<subseteq> insert c (configsIn io)"
  "configsIn (snd (ioDisconnect io)) \<subseteq> configsIn io"
  "configsIn (snd (ioSend pb env io)) \<subseteq> configsIn io"
  "configsIn (stopIo io) = configsIn io"
  "configsIn (receiveError io) = configsIn io"
  "configsIn (haltContext io) = configsIn io"
  by (auto simp: configsIn_def io_defs Let_def split: if_splits sum.splits)

lemma config_origin:
  "execution L io tr \<Longrightarrow> k \<in> configsIn io \<Longrightarrow> (CallConnect k, []) \<in> set tr"
proof (induction rule: execution.induct)
  case (start g)
  then show ?case by (simp add: configsIn_def initIo_def)
next
  case (step io tr l io' out)
  from step.hyps(2) show ?case
  proof (cases rule: ioStep.cases)
    case (receive c cs)
    with receiveCommand_config [of io c cs io' out] step.IH step.prems show ?thesis by auto
  next
    case receive_error
    with call_config(5) [of io] step.IH step.prems show ?thesis by auto
  next
    case (continue i t armed r)
    with configsIn_resume [of L t r i io io' out] step.IH step.prems show ?thesis by auto
  next
    case (call_connect config)
    with call_config(1) [of config io] step.IH step.prems show ?thesis by auto
  next
    case call_disconnect
    with call_config(2) [of io] step.IH step.prems show ?thesis by auto
  next
    case (call_send env)
    with call_config(3) [of "protobuf L" env io] step.IH step.prems show ?thesis by auto
  next
    case call_stop
    with call_config(4) [of io] step.IH step.prems show ?thesis by auto
  next
    case call_halt
    with call_config(6) [of io] step.IH step.prems show ?thesis by auto
  qed
qed

text \<open>
  Every call into the transport was made by a logged callback, allowed by the configuration then
  in force.
\<close>

definition madeBy ::
  "('p, 'o, 'key, 'k, 'raw, 'g, 'h) log \<Rightarrow> Label \<Rightarrow> bool" where
  "madeBy log l \<longleftrightarrow> (\<exists>W op a out. ((W, op), a, out) \<in> set log \<and> mayCall W (addonConfig a) l)"

lemma madeBy_append: "madeBy log l \<Longrightarrow> madeBy (log @ log') l"
  by (auto simp: madeBy_def)

lemma madeBy_callback:
  assumes "callsAllowed W (addonConfig a) ss" "\<forall>(l, out) \<in> set tr. isCall l \<longrightarrow> madeBy log l"
  shows "\<forall>(l, out) \<in> set (rev ss @ tr). isCall l \<longrightarrow> madeBy (log @ [((W, op), a, os)]) l"
proof -
  have "madeBy (log @ [((W, op), a, os)]) l" if "(l, out) \<in> set ss" for l out
    using assms(1) that unfolding callsAllowed_def madeBy_def list_all_iff by fastforce
  with assms(2) show ?thesis by (auto dest: madeBy_append)
qed

lemma reachable_calls:
  "reachable L s tr log \<Longrightarrow> \<forall>(l, out) \<in> set tr. isCall l \<longrightarrow> madeBy log l"
proof (induction rule: reachable.induct)
  case (callback s tr log W op a out ss)
  from madeBy_callback [OF callback.hyps(6) callback.IH] show ?case by blast
next
  case (deliver s tr log W ev evs a out ss)
  from madeBy_callback [OF deliver.hyps(6) deliver.IH] show ?case by blast
qed auto

text \<open>Connection parameters that the configuration in force at some callback resolved to.\<close>

definition configured ::
  "('p, 'o, 'key, 'k, 'raw, 'g, 'h) log \<Rightarrow> ConnectionConfig \<Rightarrow> bool" where
  "configured log config \<longleftrightarrow> (\<exists>W op a out r. ((W, op), a, out) \<in> set log \<and>
     resolveConnectionConfig (configWorld W) (addonConfig a) = Inr r \<and> connection r = config)"

lemma madeBy_connect: "madeBy log (CallConnect config) \<Longrightarrow> configured log config"
proof -
  assume "madeBy log (CallConnect config)"
  then obtain W op a out where x: "((W, op), a, out) \<in> set log"
    "mayCall W (addonConfig a) (CallConnect config)" unfolding madeBy_def by blast
  from x(2) obtain r where "resolveConnectionConfig (configWorld W) (addonConfig a) = Inr r"
    "connection r = config" by (auto split: sum.splits)
  with x(1) show ?thesis unfolding configured_def by blast
qed

lemma madeBy_send: "madeBy log (CallSend env) \<Longrightarrow> sessionEnvelope env"
  by (auto simp: madeBy_def)

text \<open>
  A text is authentic when a frame read on some generation decodes to it, and the handshake of
  that generation received a proof of the token that the user's configuration and environment
  gave at some callback.
\<close>

definition authenticText ::
  "'h IoLib \<Rightarrow> (Label \<times> outs) list \<Rightarrow> ('p, 'o, 'key, 'k, 'raw, 'g, 'h) log \<Rightarrow> string \<Rightarrow> bool"
where
  "authenticText L tr log t \<longleftrightarrow>
     (\<exists>m g n payload out n' payload' out' hello config nonce.
        (Resume (ReadPayload g n) (Completed payload), out) \<in> set tr \<and>
        decodeFrame (protobuf L) payload = Inr (CommitTextPayload m) \<and> ct_text m = t \<and>
        (Resume (HandshakePayload g n') (Completed payload'), out') \<in> set tr \<and>
        decodeFrame (protobuf L) payload' = Inr (ServerHello hello) \<and>
        helloAuthentic L config nonce hello \<and> configured log config)"

lemma published_authentic:
  assumes mem: "memcmp_exact (openssl L)" and ex: "execution L io tr"
    and calls: "\<forall>(l, out) \<in> set tr. isCall l \<longrightarrow> madeBy log l"
    and ev: "(l, out) \<in> set tr" "Publish (IoCommitText m) \<in> set out"
  shows "authenticText L tr log (ct_text m)"
proof -
  from execution_at [OF ex ev(1)] obtain tr2 tr1 io1
    where tr: "tr = tr2 @ (l, out) # tr1" and ex1: "execution L io1 ((l, out) # tr1)"
    by blast
  from forwarded_frame [OF ex1 ev(2)] obtain g n payload n' r out' where
    l: "l = Resume (ReadPayload g n) (Completed payload)"
      "decodeFrame (protobuf L) payload = Inr (CommitTextPayload m)" and
    hs: "(Resume (HandshakePayload g n') r, out') \<in> set tr1" "Publish IoAuthenticated \<in> set out'"
    by auto
  from tr hs(1) have h: "(Resume (HandshakePayload g n') r, out') \<in> set tr" by simp
  obtain tr3 tr4 io0 io2
    where tr4: "tr = tr3 @ (Resume (HandshakePayload g n') r, out') # tr4"
      and ex0: "execution L io0 tr4"
      and st: "ioStep L io0 (Resume (HandshakePayload g n') r) (Some (io2, out'))"
    by (rule execution_at [OF ex h])
  from authenticated_proof [OF mem st hs(2)] obtain payload' hello config nonce where
    r: "r = Completed payload'" "decodeFrame (protobuf L) payload' = Inr (ServerHello hello)"
    and c: "currentConfig io0 = Some config" and auth: "helloAuthentic L config nonce hello"
    by auto
  have "(CallConnect config, []) \<in> set tr4"
    by (rule config_origin [OF ex0]) (simp add: configsIn_def c)
  with tr4 have "(CallConnect config, []) \<in> set tr" by simp
  with calls have "madeBy log (CallConnect config)" by fastforce
  then have call: "configured log config" by (rule madeBy_connect)
  have frame: "(Resume (ReadPayload g n) (Completed payload), out) \<in> set tr"
    using ev(1) unfolding l(1) .
  have hello: "(Resume (HandshakePayload g n') (Completed payload'), out') \<in> set tr"
    using h unfolding r(1) .
  show ?thesis
    unfolding authenticText_def using frame l(2) hello r(2) auth call by blast
qed

lemma published_outputs:
  "ev \<in> set (published (outputs tr)) \<longleftrightarrow> (\<exists>l out. (l, out) \<in> set tr \<and> Publish ev \<in> set out)"
  by (force simp: set_published outputs_def)

end
