(* ===== verification/Settings.thy ===== *)
theory Settings
  imports System
begin

text \<open>
  The settings over a restart of the program: what \<open>Addon::setConfig\<close> writes is what the
  constructor of the next run reads (\<open>config.cpp\<close>, \<open>addon.cpp\<close>).
\<close>

section \<open>What a configuration does to the engine\<close>

text \<open>The engine's two configuration members after it has been told the outcome.\<close>

definition engineSettings :: "'g Engine \<Rightarrow> ConnectionConfig option \<times> Error option" where
  "engineSettings e = (connectionConfig e, connectionConfigError e)"

definition resolvedSettings ::
  "('k, 'raw) ConfigWorld \<Rightarrow> 'k Config \<Rightarrow> ConnectionConfig option \<times> Error option" where
  "resolvedSettings V c =
     (case resolveConnectionConfig V c of
        Inl err \<Rightarrow> (None, Some err)
      | Inr r \<Rightarrow> (Some (connection r), None))"

lemma configured_engine:
  "addonEngine (fst (snd (dispatch W (ConnectionConfigured r) a))) =
     fst (handle (engineDeps W) (ConnectionConfigured r) (addonEngine a))"
  "addonConfig (fst (snd (dispatch W (ConnectionConfigured r) a))) = addonConfig a"
  "SafeSaveAsIni file data \<notin> set (snd (snd (dispatch W (ConnectionConfigured r) a)))"
  by (auto simp: configured_dispatch Let_def case_prod_beta split: sum.splits)

lemma configured_handle:
  "engineSettings (fst (handle D (ConnectionConfigured (ConfigOk cfg)) e)) = (Some cfg, None)"
  "engineSettings (fst (handle D (ConnectionConfigured (ConfigError err)) e)) = (None, Some err)"
  "\<not> transcribing (fst (handle D (ConnectionConfigured r) e))"
  by (auto simp: engineSettings_def transcribing_def handle_def engine_defs Let_def
      split: ConfigResult.splits)

lemma reload_settings:
  "addonConfig (fst (reloadResolvedConfig W a)) = addonConfig a"
  "engineSettings (addonEngine (fst (reloadResolvedConfig W a))) =
     resolvedSettings (configWorld W) (addonConfig a)"
  "\<not> addonTranscribing (fst (reloadResolvedConfig W a))"
  "SafeSaveAsIni file data \<notin> set (snd (reloadResolvedConfig W a))"
  by (auto simp: reloadResolvedConfig_def resolvedSettings_def addonTranscribing_def Let_def
      configured_engine configured_handle case_prod_beta split: sum.splits)

section \<open>What the resolution depends on\<close>

lemma resolved_same:
  assumes "getenv V' = getenv V"
  shows "resolvedSettings V' c = resolvedSettings V c"
  using assms by (simp add: resolvedSettings_def config_defs Let_def)

lemma load_same:
  assumes "readAsIni V' (configData c') configFile = configData c"
    and "wordexp V' = wordexp V" "c = fst (configSet V raw d)"
  shows "configLoad V' c' = c"
  using assms by (auto simp: config_defs Let_def split: prod.splits if_splits)

section \<open>Property\<close>

text \<open>
  C36. New settings survive a restart. Setting a configuration ends any transcription and writes
  the configuration file once, with the data now in force. When the program is started again,
  fcitx's reader gives back what was written, and the environment and \<open>wordexp\<close> have not changed,
  then the new addon shows the same settings and its engine has the same connection parameters
  (or the same reason that there are none), whatever the engine of the first run was doing;
  and it is not transcribing.
\<close>

theorem settings_survive_restart:
  assumes "addonStep (W, SetConfigOp raw) a = (a1, out)"
    and "\<And>data. SafeSaveAsIni configFile data \<in> set out \<Longrightarrow>
      readAsIni (configWorld W') defaultConfigData configFile = data"
    and "getenv (configWorld W') = getenv (configWorld W)"
      "wordexp (configWorld W') = wordexp (configWorld W)"
    and "constructAddon W' g h = (a2, out')"
  shows "[x \<leftarrow> out. \<exists>file data. x = SafeSaveAsIni file data] = [SafeSaveAsIni configFile (getConfig a1)] \<and>
    \<not> addonTranscribing a1 \<and> getConfig a2 = getConfig a1 \<and>
    connectionConfig (addonEngine a2) = connectionConfig (addonEngine a1) \<and>
    connectionConfigError (addonEngine a2) = connectionConfigError (addonEngine a1) \<and>
    \<not> addonTranscribing a2"
proof -
  let ?c = "fst (configSet (configWorld W) raw (addonConfig a))"
  let ?r = "reloadResolvedConfig W (a\<lparr>addonConfig := ?c\<rparr>)"
  have a1: "a1 = fst ?r" and out: "out = SafeSaveAsIni configFile (configData ?c) # snd ?r"
    using assms(1) by (auto simp: addonSetConfig_def configSet_def configSave_def Let_def case_prod_beta)
  have "readAsIni (configWorld W') defaultConfigData configFile = configData ?c"
    using assms(2) out by simp
  then have "configLoad (configWorld W') initConfig = ?c"
    using load_same [of "configWorld W'" initConfig ?c "configWorld W" raw "addonConfig a"] assms(4)
    by (simp add: initConfig_def)
  then have a2: "a2 = fst (reloadResolvedConfig W' ((initAddon g h)\<lparr>addonConfig := ?c\<rparr>))"
    using assms(5) by (simp add: constructAddon_def addonReloadConfig_def initAddon_def)
  have "engineSettings (addonEngine a2) = engineSettings (addonEngine a1)"
    by (simp add: a1 a2 reload_settings resolved_same [OF assms(3)])
  moreover have "[x \<leftarrow> snd ?r. \<exists>file data. x = SafeSaveAsIni file data] = []"
    using reload_settings(4) by (auto simp: filter_empty_conv)
  ultimately show ?thesis
    by (simp add: a1 a2 out reload_settings getConfig_def engineSettings_def)
qed

text \<open>A world that reads back the settings \<^term>\<open>exampleWorld\<close> makes of a raw configuration.\<close>

definition restartedWorld :: "(nat, nat, nat, nat, nat, unit, unit) AddonWorld" where
  "restartedWorld = exampleAddonWorld\<lparr>configWorld :=
     (configWorld exampleAddonWorld)\<lparr>readAsIni := (\<lambda>d f.
        getConfig (fst (addonStep (exampleAddonWorld, SetConfigOp 0) exampleAddon)))\<rparr>\<rparr>"

theorem settings_survive_restart_witness:
  "getConfig (fst (constructAddon restartedWorld () ())) =
     getConfig (fst (addonStep (exampleAddonWorld, SetConfigOp 0) exampleAddon))"
proof -
  let ?r = "addonStep (exampleAddonWorld, SetConfigOp 0) exampleAddon"
  have "\<And>data. SafeSaveAsIni configFile data \<in> set (snd ?r) \<Longrightarrow>
      readAsIni (configWorld restartedWorld) defaultConfigData configFile = data"
    by (simp add: addonSetConfig_def configSet_def configSave_def Let_def case_prod_beta
        restartedWorld_def reload_settings getConfig_def)
  from settings_survive_restart [of exampleAddonWorld 0 exampleAddon "fst ?r" "snd ?r", OF _ this _ _
      prod.collapse [symmetric], of "()" "()"]
  show ?thesis by (simp add: restartedWorld_def del: addonStep.simps)
qed

end
