(* ===== verification/Transcriber.thy ===== *)
theory Transcriber
  imports Protocol
begin

text \<open>
  \<open>src/tools/poc_transcriber.py\<close>: the transcriber of the repository, the other end of the
  socket. One connection is a \<open>TranscriberConnection\<close>: a handler that reads envelopes, and
  the task of the active session that writes them. Both run on one event loop and give up control
  only where they wait for the peer or for a timer, so an operation below runs from one such
  point to the next. A write waits for \<open>drain\<close>, which returns at once while asyncio's buffer is
  below its high-water mark; what follows the last message of a session is an operation of its
  own. After a CommitText only a local variable and the session's counter follow, which nothing
  else reads.

  A raised exception is the left of a sum. Python's protobuf classes, \<open>hmac\<close> with SHA-256
  and the printing of a float are parameters; the token is kept in its UTF-8 encoding.
\<close>

section \<open>Library and state\<close>

record 'f PyLib =
  pyProtobuf :: Protobuf
  hmac_sha256 :: "byte list \<Rightarrow> byte list \<Rightarrow> byte list"
  zeroElapsed :: 'f
  addInterval :: "'f \<Rightarrow> 'f"
  formatG :: "'f \<Rightarrow> string"

datatype PyError = IncompleteReadError | EncodeError | ValueError string

type_synonym 'a PyResult = "PyError + 'a"

definition PROTOCOL_VERSION :: string where "PROTOCOL_VERSION = ''scribe.v0''"

definition SERVER_PROOF_LABEL :: "byte list" where
  "SERVER_PROOF_LABEL = bytes_of_string ''fcitx5-scribe/v0/server''"

definition MAX_FRAME_SIZE :: nat where "MAX_FRAME_SIZE = 64 * 1024"

datatype Mode = ResultMode | VadTimeoutMode | ErrorMode

text \<open>A session with the local state of its task: the time elapsed, and whether the task waits for
  the drain of its last message. The task lives as long as the session is the connection's,
  because whatever clears the session cancels or ends the task.\<close>

record 'f PeerSession =
  ps_session_id :: string
  ps_sequence_no :: nat
  ps_elapsed :: 'f
  ps_draining :: bool

record 'f Peer =
  peerToken :: string
  peerMode :: Mode
  peerSession :: "'f PeerSession option"

definition initPeer :: "string \<Rightarrow> Mode \<Rightarrow> 'f Peer" where
  "initPeer token mode = \<lparr>peerToken = token, peerMode = mode, peerSession = None\<rparr>"

section \<open>Frames\<close>

definition read_exact :: "byte list \<Rightarrow> nat \<Rightarrow> (byte list \<times> byte list) PyResult" where
  "read_exact reader n =
     (if length reader < n then Inl IncompleteReadError else Inr (take n reader, drop n reader))"

text \<open>\<open>struct.unpack\<close> and \<open>struct.pack\<close> with the format \<open>!I\<close>: 32 bits, big-endian.\<close>

definition unpackI :: "byte list \<Rightarrow> nat" where
  "unpackI raw = unat (u32OfLE (rev raw))"

definition packI :: "nat \<Rightarrow> byte list" where
  "packI n = rev (bytesLE (of_nat n))"

definition read_envelope :: "Protobuf \<Rightarrow> byte list \<Rightarrow> (Envelope \<times> byte list) PyResult" where
  "read_envelope pb reader =
     (case read_exact reader 4 of
        Inl e \<Rightarrow> Inl e
      | Inr (raw_size, reader) \<Rightarrow>
          let frame_size = unpackI raw_size
          in if frame_size = 0 \<or> frame_size > MAX_FRAME_SIZE
             then Inl (ValueError ''invalid frame size'')
             else case read_exact reader frame_size of
                    Inl e \<Rightarrow> Inl e
                  | Inr (payload, reader) \<Rightarrow>
                      (case ParseFromArray pb payload of
                         None \<Rightarrow> Inl (ValueError ''invalid protobuf payload'')
                       | Some envelope \<Rightarrow> Inr (envelope, reader)))"

definition write_envelope :: "Protobuf \<Rightarrow> Envelope \<Rightarrow> byte list PyResult" where
  "write_envelope pb envelope =
     (case SerializeToArray pb envelope of
        None \<Rightarrow> Inl EncodeError
      | Some payload \<Rightarrow>
          if length payload = 0 \<or> length payload > MAX_FRAME_SIZE
          then Inl (ValueError ''invalid outbound frame size'')
          else Inr (packI (length payload) @ payload))"

section \<open>Handshake\<close>

definition compute_server_proof ::
  "'f PyLib \<Rightarrow> string \<Rightarrow> byte list \<Rightarrow> byte list \<Rightarrow> byte list" where
  "compute_server_proof P token client_nonce server_nonce =
     hmac_sha256 P (bytes_of_string token) (SERVER_PROOF_LABEL @ client_nonce @ server_nonce)"

definition reject :: "string \<Rightarrow> Envelope" where
  "reject reason = ServerHello \<lparr>sh_protocol_version = PROTOCOL_VERSION, sh_accepted = False,
     sh_error_message = reason, sh_server_nonce = [], sh_proof = []\<rparr>"

text \<open>The handler up to its answer, and whether it goes on to read messages. The nonce is what
  \<open>os.urandom\<close> returns.\<close>

definition handle_hello ::
  "'f PyLib \<Rightarrow> 'f Peer \<Rightarrow> byte list \<Rightarrow> Envelope \<Rightarrow> (Envelope \<times> bool) PyResult" where
  "handle_hello P self server_nonce hello =
     (case hello of
        ClientHello client_hello \<Rightarrow>
          if ch_protocol_version client_hello \<noteq> PROTOCOL_VERSION
          then Inr (reject ''protocol version mismatch'', False)
          else if length (ch_client_nonce client_hello) \<noteq> 32
          then Inr (reject ''invalid client nonce'', False)
          else Inr (ServerHello \<lparr>sh_protocol_version = PROTOCOL_VERSION, sh_accepted = True,
                      sh_error_message = [], sh_server_nonce = string_of_bytes server_nonce,
                      sh_proof = string_of_bytes (compute_server_proof P (peerToken self)
                        (bytes_of_string (ch_client_nonce client_hello)) server_nonce)\<rparr>, True)
      | _ \<Rightarrow> Inl (ValueError ''expected ClientHello''))"

section \<open>Messages\<close>

definition clear_session :: "'f Peer \<Rightarrow> 'f Peer" where
  "clear_session self = self\<lparr>peerSession := None\<rparr>"

definition handle_start :: "'f PyLib \<Rightarrow> StartSessionMsg \<Rightarrow> 'f Peer \<Rightarrow> 'f Peer PyResult" where
  "handle_start P start self =
     (if length (ss_session_id start) \<noteq> 16
      then Inl (ValueError ''invalid session id size'')
      else if peerSession self \<noteq> None
      then Inl (ValueError ''received StartSession while another session is active'')
      else Inr (self\<lparr>peerSession := Some \<lparr>ps_session_id = ss_session_id start,
                  ps_sequence_no = 1, ps_elapsed = zeroElapsed P,
                  ps_draining = False\<rparr>\<rparr>))"

definition handle_interrupt :: "InterruptSessionMsg \<Rightarrow> 'f Peer \<Rightarrow> 'f Peer PyResult" where
  "handle_interrupt interrupt self =
     (if length (is_session_id interrupt) \<noteq> 16
      then Inl (ValueError ''invalid session id size'')
      else case peerSession self of
             None \<Rightarrow> Inr self
           | Some session \<Rightarrow>
               if is_session_id interrupt \<noteq> ps_session_id session then Inr self
               else if is_reason interrupt = INTERRUPT_REASON_UNSPECIFIED
               then Inl (ValueError ''interrupt reason must be set'')
               else Inr (clear_session self))"

definition handle_message :: "'f PyLib \<Rightarrow> Envelope \<Rightarrow> 'f Peer \<Rightarrow> 'f Peer PyResult" where
  "handle_message P envelope self =
     (case envelope of
        StartSession m \<Rightarrow> handle_start P m self
      | InterruptSession m \<Rightarrow> handle_interrupt m self
      | _ \<Rightarrow> Inl (ValueError ''unexpected envelope payload''))"

section \<open>The task of a session\<close>

text \<open>
  The task of \<open>session\<close> from the end of a sleep to the next, with the envelope it writes: none
  if the session is no longer the connection's. A sequence number must fit its \<open>uint64\<close> field.
\<close>

definition kTranscriberInternal :: u32 where "kTranscriberInternal = 3"

definition run_session ::
  "'f PyLib \<Rightarrow> 'f PeerSession \<Rightarrow> 'f Peer \<Rightarrow> (Envelope option \<times> 'f Peer) PyResult" where
  "run_session P session self =
     (if map_option ps_session_id (peerSession self) \<noteq> Some (ps_session_id session)
      then Inr (None, self)
      else case peerMode self of
             ResultMode \<Rightarrow>
               let session = session\<lparr>ps_elapsed := addInterval P (ps_elapsed session)\<rparr>
               in if ps_sequence_no session \<ge> 2 ^ 64
                  then Inl (ValueError ''Value out of range'')
                  else Inr (Some (CommitTextPayload
                         \<lparr>ct_session_id = ps_session_id session,
                          ct_sequence_no = of_nat (ps_sequence_no session),
                          ct_text = formatG P (ps_elapsed session)\<rparr>),
                       self\<lparr>peerSession :=
                         Some (session\<lparr>ps_sequence_no := ps_sequence_no session + 1\<rparr>)\<rparr>)
           | VadTimeoutMode \<Rightarrow>
               Inr (Some (VadTimeoutPayload \<lparr>vt_session_id = ps_session_id session\<rparr>),
                    self\<lparr>peerSession := Some (session\<lparr>ps_draining := True\<rparr>)\<rparr>)
           | ErrorMode \<Rightarrow>
               Inr (Some (ErrorPayload \<lparr>em_session_id = ps_session_id session,
                      em_code = kTranscriberInternal, em_message = ''simulated error''\<rparr>),
                    self\<lparr>peerSession := Some (session\<lparr>ps_draining := True\<rparr>)\<rparr>))"

text \<open>The task after the drain of its last message.\<close>

definition after_drain :: "'f Peer \<Rightarrow> 'f Peer" where
  "after_drain self = clear_session self"

lemmas peer_defs = handle_message_def handle_start_def handle_interrupt_def clear_session_def
  run_session_def after_drain_def

text \<open>The handler and the task of a connection whose addon has sent the bytes \<open>reader\<close>: the
  answer to its ClientHello, then what \<open>n\<close> turns of the session it starts write.\<close>

fun session_turns :: "'f PyLib \<Rightarrow> nat \<Rightarrow> 'f Peer \<Rightarrow> Envelope list PyResult" where
  "session_turns P 0 self = Inr []"
| "session_turns P (Suc n) self =
     (case peerSession self of
        None \<Rightarrow> Inr []
      | Some session \<Rightarrow>
          if ps_draining session then Inr []
          else (case run_session P session self of
             Inl e \<Rightarrow> Inl e
           | Inr (None, self) \<Rightarrow> Inr []
           | Inr (Some envelope, self) \<Rightarrow> map_sum id (Cons envelope) (session_turns P n self)))"

definition transcribe ::
  "'f PyLib \<Rightarrow> byte list \<Rightarrow> nat \<Rightarrow> 'f Peer \<Rightarrow> byte list \<Rightarrow> (Envelope \<times> Envelope list) PyResult"
where
  "transcribe P server_nonce n self reader =
     (case read_envelope (pyProtobuf P) reader of
        Inl e \<Rightarrow> Inl e
      | Inr (hello, reader) \<Rightarrow>
          (case handle_hello P self server_nonce hello of
             Inl e \<Rightarrow> Inl e
           | Inr (answer, False) \<Rightarrow> Inr (answer, [])
           | Inr (answer, True) \<Rightarrow>
               (case read_envelope (pyProtobuf P) reader of
                  Inl e \<Rightarrow> Inl e
                | Inr (envelope, reader) \<Rightarrow>
                    (case handle_message P envelope self of
                       Inl e \<Rightarrow> Inl e
                     | Inr self \<Rightarrow> map_sum id (Pair answer) (session_turns P n self)))))"

section \<open>The two framings agree\<close>

lemma unpackI_frameSize: "length raw = 4 \<Longrightarrow> unpackI raw = unat (getFrameSize h raw)"
  by (simp add: unpackI_def getFrameSize_rev)

lemma packI_frameSize: "packI n = putFrameSize h (of_nat n)"
  by (simp add: packI_def putFrameSize_rev)

lemma written_encodes:
  assumes "envelope_serialises pb env"
  shows "write_envelope pb env = Inr frame \<longleftrightarrow>
    encodeFrame pb env = Inr frame \<and> 0 < ByteSizeLong pb env"
  using assms
  by (auto simp: envelope_serialises_def write_envelope_def encodeFrame_def Let_def MAX_FRAME_SIZE_def
      kMaxFrameSize_def packI_frameSize [of _ "hostEndian pb"] split: option.splits)
     (metis length_greater_0_conv)

lemma read_encoded:
  assumes "envelope_serialises pb env" "encodeFrame pb env = Inr frame" "0 < ByteSizeLong pb env"
  shows "read_envelope pb (frame @ rest) = Inr (env, rest)"
proof -
  have "ByteSizeLong pb env \<le> kMaxFrameSize"
    using assms(2) by (simp add: encodeFrame_def Let_def split: if_splits)
  then obtain payload where p: "length payload = ByteSizeLong pb env"
    "ParseFromArray pb payload = Some env" "length payload \<le> kMaxFrameSize"
    "frame = putFrameSize (hostEndian pb) (of_nat (length payload)) @ payload"
    using encodeFrame_serialises [OF assms(1)] assms(2) by (metis sum.inject(2))
  have "read_exact (frame @ rest) 4 =
      Inr (putFrameSize (hostEndian pb) (of_nat (length payload)), payload @ rest)"
    by (simp add: p(4) read_exact_def prefix.length_put)
  moreover have "unpackI (putFrameSize (hostEndian pb) (of_nat (length payload))) =
      length payload"
    by (simp add: unpackI_frameSize [of _ "hostEndian pb"] prefix.length_put prefix.get_put
        unat_frameSize p(3))
  ultimately show ?thesis
    using p(1-3) assms(3)
    by (simp add: read_envelope_def read_exact_def MAX_FRAME_SIZE_def kMaxFrameSize_def)
qed

section \<open>A session in result mode\<close>

definition tickMessage :: "'f PyLib \<Rightarrow> 'f PeerSession \<Rightarrow> nat \<Rightarrow> CommitTextMsg" where
  "tickMessage P s i =
     \<lparr>ct_session_id = ps_session_id s, ct_sequence_no = of_nat (ps_sequence_no s + i),
      ct_text = formatG P ((addInterval P ^^ Suc i) (ps_elapsed s))\<rparr>"

lemma session_turns_result:
  assumes "peerMode self = ResultMode" "peerSession self = Some s" "\<not> ps_draining s"
    and "ps_sequence_no s + n \<le> 2 ^ 64"
  shows "session_turns P n self = Inr (map (CommitTextPayload \<circ> tickMessage P s) [0..<n])"
  using assms
proof (induction n arbitrary: self s)
  case 0
  then show ?case by simp
next
  case (Suc n)
  let ?s = "s\<lparr>ps_elapsed := addInterval P (ps_elapsed s), ps_sequence_no := ps_sequence_no s + 1\<rparr>"
  let ?self = "self\<lparr>peerSession := Some ?s\<rparr>"
  have run: "run_session P s self = Inr (Some (CommitTextPayload (tickMessage P s 0)), ?self)"
    using Suc.prems by (simp add: run_session_def tickMessage_def Let_def)
  have "session_turns P n ?self = Inr (map (CommitTextPayload \<circ> tickMessage P ?s) [0..<n])"
    using Suc.prems by (intro Suc.IH) simp_all
  moreover have "tickMessage P ?s i = tickMessage P s (Suc i)" for i
    by (simp add: tickMessage_def funpow_swap1)
  moreover have "[0..<Suc n] = 0 # map Suc [0..<n]" by (simp add: map_Suc_upt upt_conv_Cons)
  ultimately show ?case using Suc.prems(2,3) run by (simp add: comp_def del: upt_Suc)
qed

end
