(* ===== verification/Engine_Trace.thy ===== *)
theory Engine_Trace
  imports Engine_Inv
begin

text \<open>
  Whole executions of the engine, as its two partners see them: the transcriber, which sees
  the envelopes of one connection, and the focused application, which sees committed text.
  Each view is a monitor that reads the events and effects only, never the engine's state.
\<close>

section \<open>The transcriber's view\<close>

text \<open>
  The id of the session the transcriber has open, updated by its own messages and by the loss
  of the connection, then by the envelopes sent. The transcriber requires that a session is
  started only when none is open, that an interrupt names the open session and gives a reason,
  and that nothing else is sent.
\<close>

fun wireEvent :: "string option \<Rightarrow> Event \<Rightarrow> string option" where
  "wireEvent m (ConnectionVadTimeout v) = (if m = Some (vt_session_id v) then None else m)"
| "wireEvent m (ConnectionErrorMessage v) = (if m = Some (em_session_id v) then None else m)"
| "wireEvent m ConnectionClosed = None"
| "wireEvent m (ConnectionFailed _) = None"
| "wireEvent m (ConnectionConfigured _) = None"
| "wireEvent m _ = m"

fun wireEffects :: "string option \<Rightarrow> effects \<Rightarrow> string option option" where
  "wireEffects m [] = Some m"
| "wireEffects m (SendEnvelope (StartSession x) # fx) =
     (if m = None then wireEffects (Some (ss_session_id x)) fx else None)"
| "wireEffects m (SendEnvelope (InterruptSession x) # fx) =
     (if m = Some (is_session_id x) \<and> is_reason x \<noteq> INTERRUPT_REASON_UNSPECIFIED
      then wireEffects None fx else None)"
| "wireEffects m (SendEnvelope _ # fx) = None"
| "wireEffects m (_ # fx) = wireEffects m fx"

definition wireMonitor :: "string option \<Rightarrow> Event \<times> effects \<Rightarrow> string option option" where
  "wireMonitor m x = wireEffects (wireEvent m (fst x)) (snd x)"

definition wireView :: "'g Engine \<Rightarrow> string option" where
  "wireView e = map_option (\<lambda>s. string_of_bytes (sess_id s)) (session e)"

lemma wireView_init [simp]: "wireView (initEngine g) = None"
  by (simp add: wireView_def initEngine_def)

lemma wire_agrees:
  assumes "engineInv e"
  shows "wireMonitor (wireView e) (ev, snd (handle D ev e)) =
    Some (wireView (fst (handle D ev e)))"
  using assms
  by (cases "session e"; cases "connectionState e"; cases ev)
     (auto simp: wireMonitor_def wireView_def handle_def engine_defs engineInv_defs Let_def
        split: engine_splits)

interpretation wire: monitored_machine "handle D" engineInv wireMonitor wireView
  for D :: "'g EngineDeps"
  by unfold_locales (rule wire_agrees)

text \<open>
  C12. Wire protocol: in every execution the envelopes the engine sends are acceptable to the
  transcriber. A StartSession is only sent while no session is open on the connection, every
  InterruptSession names the session that is open and gives a reason, no other envelope is
  sent; and the session the transcriber then has open is the engine's active one, so a session
  that ends for any local reason has been interrupted on the wire.
\<close>

theorem wire_protocol_respected:
  "accepts wireMonitor None (trace (handle D) (initEngine g) es) =
     Some (wireView (fst (run (handle D) (initEngine g) es)))"
  using wire.trace_accepted [of "initEngine g" D es] by simp

section \<open>The application's view\<close>

text \<open>
  The context that has the focus, from the focus events alone, and the session started for
  it. A start needs a focused context; committed text must be the text of a CommitText message
  for that session, carry the next sequence number and go to the session's context while it
  has the focus.
\<close>

record Keystrokes =
  kFocus :: "ContextId option"
  kSession :: "(ContextId \<times> string \<times> u64) option"

fun keysFocus :: "Event \<Rightarrow> ContextId option \<Rightarrow> ContextId option" where
  "keysFocus (Toggle c focused) f =
     (if focused then Some c else if f = Some c then None else f)"
| "keysFocus (FocusIn c) f = Some c"
| "keysFocus (FocusOut c) f = (if f = Some c then None else f)"
| "keysFocus (ContextDestroyed c) f = (if f = Some c then None else f)"
| "keysFocus _ f = f"

definition keysEvent :: "Keystrokes \<Rightarrow> Event \<Rightarrow> Keystrokes" where
  "keysEvent k ev =
     \<lparr>kFocus = keysFocus ev (kFocus k),
      kSession = (case kSession k of
          None \<Rightarrow> None
        | Some (c, sid, n) \<Rightarrow> if wireEvent (Some sid) ev = None then None else kSession k)\<rparr>"

fun keysEffects :: "Event \<Rightarrow> Keystrokes \<Rightarrow> effects \<Rightarrow> Keystrokes option" where
  "keysEffects ev k [] = Some k"
| "keysEffects ev k (SendEnvelope (StartSession x) # fx) =
     (case kFocus k of
        None \<Rightarrow> None
      | Some c \<Rightarrow> keysEffects ev (k\<lparr>kSession := Some (c, ss_session_id x, 1)\<rparr>) fx)"
| "keysEffects ev k (SendEnvelope (InterruptSession x) # fx) =
     keysEffects ev (k\<lparr>kSession := None\<rparr>) fx"
| "keysEffects ev k (CommitText c t # fx) =
     (case (ev, kSession k) of
        (ConnectionCommitText m, Some (c', sid, n)) \<Rightarrow>
          if c = c' \<and> kFocus k = Some c \<and> ct_session_id m = sid \<and>
             ct_sequence_no m = n \<and> t = ct_text m
          then keysEffects ev (k\<lparr>kSession := Some (c', sid, n + 1)\<rparr>) fx else None
      | _ \<Rightarrow> None)"
| "keysEffects ev k (_ # fx) = keysEffects ev k fx"

definition keysMonitor :: "Keystrokes \<Rightarrow> Event \<times> effects \<Rightarrow> Keystrokes option" where
  "keysMonitor k x = keysEffects (fst x) (keysEvent k (fst x)) (snd x)"

definition keysView :: "'g Engine \<Rightarrow> Keystrokes" where
  "keysView e = \<lparr>kFocus = focusedContext e,
     kSession = map_option
       (\<lambda>s. (sess_context s, string_of_bytes (sess_id s), nextSequenceNo s)) (session e)\<rparr>"

lemma keysView_init [simp]: "keysView (initEngine g) = \<lparr>kFocus = None, kSession = None\<rparr>"
  by (simp add: keysView_def initEngine_def)

lemma keys_agrees:
  assumes "engineInv e"
  shows "keysMonitor (keysView e) (ev, snd (handle D ev e)) =
    Some (keysView (fst (handle D ev e)))"
  using assms
  by (cases "session e"; cases "connectionState e"; cases ev)
     (auto simp: keysMonitor_def keysView_def keysEvent_def handle_def engine_defs engineInv_defs
        Let_def split: engine_splits)

interpretation keys: monitored_machine "handle D" engineInv keysMonitor keysView
  for D :: "'g EngineDeps"
  by unfold_locales (rule keys_agrees)

text \<open>
  C11. No keystroke injection: in every execution, text is only ever committed as the text of
  a CommitText message for the session that is open, in sequence 1, 2, 3, ... from its start
  without a gap or a repetition, into the context for which that session was started, and only
  while this context has the focus by the focus events received so far.
\<close>

theorem no_keystroke_injection:
  "accepts keysMonitor \<lparr>kFocus = None, kSession = None\<rparr> (trace (handle D) (initEngine g) es) =
     Some (keysView (fst (run (handle D) (initEngine g) es)))"
  using keys.trace_accepted [of "initEngine g" D es] by simp

section \<open>A burst of commits\<close>

text \<open>
  What a session delivers of a batch of CommitText messages: those of other sessions are
  skipped, those in sequence are delivered, and the first one out of sequence ends it.
\<close>

fun deliver :: "string \<Rightarrow> u64 \<Rightarrow> CommitTextMsg list \<Rightarrow> string list \<times> u64 option" where
  "deliver sid n [] = ([], Some n)"
| "deliver sid n (m # ms) =
     (if ct_session_id m \<noteq> sid then deliver sid n ms
      else if ct_sequence_no m \<noteq> n then ([], None)
      else let (ts, r) = deliver sid (n + 1) ms in (ct_text m # ts, r))"

fun commitsOf :: "effects \<Rightarrow> (ContextId \<times> string) list" where
  "commitsOf [] = []"
| "commitsOf (CommitText c t # fx) = (c, t) # commitsOf fx"
| "commitsOf (_ # fx) = commitsOf fx"

lemma commitsOf_append [simp]: "commitsOf (fx @ gx) = commitsOf fx @ commitsOf gx"
  by (induction fx rule: commitsOf.induct) simp_all

lemma commit_no_session:
  "session e = None \<Longrightarrow>
     session (fst (run (handle D) e (map ConnectionCommitText ms))) = None \<and>
     commitsOf (snd (run (handle D) e (map ConnectionCommitText ms))) = []"
  by (induction ms arbitrary: e)
     (simp_all add: snd_run_Cons handle_def engine_defs Let_def del: run.simps(2))

text \<open>One commit message on an active session.\<close>

lemma commit_step:
  assumes "engineInv e" and "session e = Some s"
  shows "ct_session_id m \<noteq> string_of_bytes (sess_id s) \<Longrightarrow>
           fst (handle D (ConnectionCommitText m) e) = e \<and>
           commitsOf (snd (handle D (ConnectionCommitText m) e)) = []"
    and "ct_session_id m = string_of_bytes (sess_id s) \<Longrightarrow>
           ct_sequence_no m \<noteq> nextSequenceNo s \<Longrightarrow>
           session (fst (handle D (ConnectionCommitText m) e)) = None \<and>
           commitsOf (snd (handle D (ConnectionCommitText m) e)) = []"
    and "ct_session_id m = string_of_bytes (sess_id s) \<Longrightarrow>
           ct_sequence_no m = nextSequenceNo s \<Longrightarrow>
           session (fst (handle D (ConnectionCommitText m) e)) =
             Some (s\<lparr>nextSequenceNo := nextSequenceNo s + 1\<rparr>) \<and>
           commitsOf (snd (handle D (ConnectionCommitText m) e)) =
             [(sess_context s, ct_text m)]"
  using assms by (auto simp: handle_def engine_defs engineInv_defs Let_def)

text \<open>
  C15. A batch of CommitText messages delivers exactly what the reference function \<open>deliver\<close>
  says, into the session's context, and leaves the session waiting for the sequence number it
  says, or ended after a mismatch.
\<close>

theorem commit_burst_delivers:
  assumes "engineInv e" and "session e = Some s"
  shows "commitsOf (snd (run (handle D) e (map ConnectionCommitText ms))) =
           map (Pair (sess_context s))
             (fst (deliver (string_of_bytes (sess_id s)) (nextSequenceNo s) ms)) \<and>
         map_option nextSequenceNo (session (fst (run (handle D) e (map ConnectionCommitText ms)))) =
           snd (deliver (string_of_bytes (sess_id s)) (nextSequenceNo s) ms)"
  using assms
proof (induction ms arbitrary: e s)
  case Nil
  then show ?case by simp
next
  case (Cons m ms)
  let ?e' = "fst (handle D (ConnectionCommitText m) e)"
  note step = commit_step [OF Cons.prems, of m D]
  consider "ct_session_id m \<noteq> string_of_bytes (sess_id s)"
    | "ct_session_id m = string_of_bytes (sess_id s)" "ct_sequence_no m \<noteq> nextSequenceNo s"
    | "ct_session_id m = string_of_bytes (sess_id s)" "ct_sequence_no m = nextSequenceNo s"
    by blast
  then show ?case
  proof cases
    case 1
    with step(1) Cons.IH [OF Cons.prems] show ?thesis
      by (simp add: snd_run_Cons del: run.simps(2))
  next
    case 2
    with step(2) commit_no_session [of ?e' D ms] show ?thesis
      by (simp add: snd_run_Cons del: run.simps(2))
  next
    case 3
    have "engineInv ?e'" using Cons.prems(1) by simp
    with 3 step(3) Cons.IH [of ?e'] show ?thesis
      by (simp add: snd_run_Cons split_beta del: run.simps(2))
  qed
qed

theorem commit_burst_delivers_witness:
  "commitsOf (snd (run (handle exampleDeps) exampleSession (map ConnectionCommitText
     [\<lparr>ct_session_id = string_of_bytes (replicate 16 65), ct_sequence_no = 1, ct_text = ''a''\<rparr>,
      \<lparr>ct_session_id = string_of_bytes (replicate 16 65), ct_sequence_no = 2, ct_text = ''b''\<rparr>,
      \<lparr>ct_session_id = string_of_bytes (replicate 16 65), ct_sequence_no = 2, ct_text = ''c''\<rparr>])))
   = [(7, ''a''), (7, ''b'')]"
  unfolding commit_burst_delivers [OF exampleSession_inv exampleSession_sel(1), THEN conjunct1]
  by simp

end
