(* ===== verification/Sizes.thy ===== *)
theory Sizes
  imports System
begin

text \<open>
  The sizes that the C++ types fix and the model's lists do not: session ids and nonces are
  \<open>std::array\<close>s, and here lists that always have that length.
\<close>

section \<open>Session ids\<close>

lemma generateSessionId_size:
  "generateSessionId ssl g = (Inr sid, g') \<Longrightarrow> length sid = kSessionIdSize"
  by (auto simp: generateSessionId_def Let_def split: prod.splits if_splits)

text \<open>The generator the engine has by default, and so in the addon.\<close>

definition ownGenerator :: "'g OpenSSL \<Rightarrow> 'g EngineDeps \<Rightarrow> bool" where
  "ownGenerator ssl D \<longleftrightarrow> sessionIdGenerator D = generateSessionId ssl"

definition idSized :: "'g Engine \<Rightarrow> bool" where
  "idSized e \<longleftrightarrow>
     (case session e of None \<Rightarrow> True | Some s \<Rightarrow> length (sess_id s) = kSessionIdSize)"

fun envelopeSized :: "Envelope \<Rightarrow> bool" where
  "envelopeSized (StartSession m) = (length (ss_session_id m) = kSessionIdSize)"
| "envelopeSized (InterruptSession m) = (length (is_session_id m) = kSessionIdSize)"
| "envelopeSized _ = True"

fun effectSized :: "Effect \<Rightarrow> bool" where
  "effectSized (SendEnvelope env) = envelopeSized env"
| "effectSized _ = True"

lemma handle_sized:
  assumes "ownGenerator ssl D" "idSized e"
  shows "idSized (fst (handle D ev e)) \<and> list_all effectSized (snd (handle D ev e))"
  using assms
  by (cases ev)
     (auto simp: handle_def engine_defs idSized_def ownGenerator_def generateSessionId_size Let_def
       split: engine_splits)

lemma dispatch_sized:
  assumes "ownGenerator ssl (engineDeps W)" "idSized (addonEngine a)"
  shows "idSized (addonEngine (fst (snd (dispatch W ev a))))"
  by (rule dispatch_keeps [where P = idSized]) (use handle_sized [OF assms(1)] assms(2) in blast)+

lemma reload_sized:
  assumes "ownGenerator ssl (engineDeps W)" "idSized (addonEngine a)"
  shows "idSized (addonEngine (fst (reloadResolvedConfig W a)))"
  using dispatch_sized [OF assms(1)] assms(2)
  by (simp add: reloadResolvedConfig_def Let_def case_prod_beta split: sum.splits)

lemma step_sized:
  assumes "ownGenerator ssl (engineDeps W)" "idSized (addonEngine a)"
  shows "idSized (addonEngine (fst (addonStep (W, op) a)))"
  using assms dispatch_sized [OF assms(1)] reload_sized [OF assms(1)]
  by (cases op) (auto simp: handler_defs Let_def case_prod_beta split: option.splits if_splits)

section \<open>Nonces\<close>

definition nonceSized :: "'g Io \<Rightarrow> bool" where
  "nonceSized io \<longleftrightarrow> (case clientNonce io of None \<Rightarrow> True | Some n \<Rightarrow> length n = kNonceSize)"

lemma nonceSized_close:
  "closeConnection err rep io out = (io', out') \<Longrightarrow>
     clientNonce io' = clientNonce io \<or> clientNonce io' = None"
  by (auto simp: closeConnection_def Let_def split: if_splits option.splits)

lemma nonceSized_resume:
  assumes "resume L t r io = Some (io', out)" "nonceSized io"
  shows "nonceSized io'"
  using assms
  by (cases t; cases r)
     (auto simp: Let_def startConnection_def authenticate_def finishHandshake_def
        connectionReady_def readLoop_def writeLoop_def suspend_def spawn_def publish_def
        nonceSized_def
        dest!: nonceSized_close generateNonce_size
        split: option.splits sum.splits Envelope.splits if_splits list.splits Outcome.splits
          prod.splits unit.splits)

lemma nonceSized_command: "nonceSized io \<Longrightarrow> nonceSized (fst (receiveCommand c io))"
  by (cases c) (auto simp: nonceSized_def receiveCommand_def spawn_def closeConnection_def publish_def
      Let_def split: if_splits)

lemma nonceSized_step:
  assumes "ioStep L io l (Some (io', out))" "nonceSized io"
  shows "nonceSized io'"
  using assms(1)
proof (cases rule: ioStep.cases)
  case (receive c cs)
  with nonceSized_command [of "io\<lparr>commands := cs\<rparr>" c] assms(2) show ?thesis
    by (metis fst_conv option.inject nonceSized_def Io.select_convs(11) Io.surjective Io.update_convs(12))
next
  case (continue i t armed r)
  with nonceSized_resume [of L t r "takeTask i io" io' out] assms(2) show ?thesis
    by (simp add: nonceSized_def takeTask_def)
qed (use assms(2) in \<open>auto simp: nonceSized_def io_defs receiveError_def split: sum.split\<close>)

section \<open>Every reachable system\<close>

lemma execution_nonceSized: "execution L io tr \<Longrightarrow> nonceSized io"
proof (induction rule: execution.induct)
  case (start g)
  then show ?case by (simp add: nonceSized_def initIo_def)
next
  case (step io tr l io' out)
  then show ?case by (blast intro: nonceSized_step)
qed

definition worldsOf :: "('p, 'o, 'key, 'k, 'raw, 'g, 'h) log \<Rightarrow>
    ('p, 'o, 'key, 'k, 'raw, 'g, 'h) AddonWorld set" where
  "worldsOf log = (\<lambda>x. fst (fst x)) ` set log"

lemma construct_sized:
  "ownGenerator ssl (engineDeps W) \<Longrightarrow> idSized (addonEngine (fst (constructAddon W g h)))"
  unfolding constructAddon_def addonReloadConfig_def
  by (erule reload_sized) (simp add: initAddon_def initEngine_def idSized_def)

lemma reachable_sized:
  "reachable L s tr log \<Longrightarrow> (\<forall>W \<in> worldsOf log. ownGenerator ssl (engineDeps W)) \<Longrightarrow>
     idSized (addonEngine (sysAddon s))"
proof (induction rule: reachable.induct)
  case (construct W g h a out)
  with construct_sized [of ssl W g h] show ?case by (simp add: worldsOf_def)
next
  case (callback s tr log W op a out ss)
  with step_sized [of ssl W "sysAddon s" op] show ?case by (simp add: worldsOf_def)
next
  case (deliver s tr log W ev evs a out ss)
  with step_sized [of ssl W "sysAddon s" "CallbackOp ev"] show ?case by (simp add: worldsOf_def)
next
  case (worker s tr log l io out)
  then show ?case by simp
qed

end
