(* ===== verification/Conversation.thy ===== *)
theory Conversation
  imports Transcriber Engine_Trace Sizes
begin

text \<open>
  The addon's engine and the repository's transcriber in conversation over one authenticated
  connection. Between them are two queues: messages on their way to the transcriber (the command
  channel, the write loop, the socket) and messages on their way back (the socket, the read
  loop, fcitx's dispatcher). Either side moves at any time, so messages cross.
\<close>

section \<open>The conversation\<close>

record ('g, 'f) Talk =
  talkEngine :: "'g Engine"
  talkPeer :: "'f Peer"
  uplink :: "Envelope list"
  downlink :: "Envelope list"
  startedIds :: "string list"

fun sent :: "effects \<Rightarrow> Envelope list" where
  "sent [] = []"
| "sent (SendEnvelope env # fx) = env # sent fx"
| "sent (_ # fx) = sent fx"

fun starts :: "Envelope list \<Rightarrow> string list" where
  "starts [] = []"
| "starts (StartSession m # es) = ss_session_id m # starts es"
| "starts (_ # es) = starts es"

lemma starts_append [simp]: "starts (xs @ ys) = starts xs @ starts ys"
  by (induction xs rule: starts.induct) simp_all

text \<open>The events of the fcitx side, and what the transport makes of a message.\<close>

fun userEvent :: "Event \<Rightarrow> bool" where
  "userEvent (Toggle _ _) = True"
| "userEvent (FocusIn _) = True"
| "userEvent (FocusOut _) = True"
| "userEvent (ContextDestroyed _) = True"
| "userEvent _ = False"

fun messageEvent :: "Envelope \<Rightarrow> Event option" where
  "messageEvent (CommitTextPayload m) = Some (ConnectionCommitText m)"
| "messageEvent (VadTimeoutPayload m) = Some (ConnectionVadTimeout m)"
| "messageEvent (ErrorPayload m) = Some (ConnectionErrorMessage m)"
| "messageEvent _ = None"

text \<open>
  A conversation begins with the engine told of the authentication. It has a step for each event
  of the user, for each message heard on either side, and for each turn of the session's task.
  Session ids are drawn at random; an id already used on the connection does not come again.
  The transcriber may wait for the drain of a session's last message; \<open>slow\<close> says that it may
  hear a message while it does.
\<close>

definition draining :: "'f Peer \<Rightarrow> bool" where
  "draining p \<longleftrightarrow> (case peerSession p of None \<Rightarrow> False | Some s \<Rightarrow> ps_draining s)"

definition engineMoves :: "'g EngineDeps \<Rightarrow> Event \<Rightarrow> ('g, 'f) Talk \<Rightarrow> ('g, 'f) Talk" where
  "engineMoves D ev t =
     (let (e, fx) = handle D ev (talkEngine t)
      in t\<lparr>talkEngine := e, uplink := uplink t @ sent fx,
           startedIds := startedIds t @ starts (sent fx)\<rparr>)"

lemma startedIds_downlink [simp]:
  "startedIds (engineMoves D ev (t\<lparr>downlink := es\<rparr>)) = startedIds (engineMoves D ev t)"
  by (simp add: engineMoves_def split: prod.split)

inductive talk ::
  "bool \<Rightarrow> 'g EngineDeps \<Rightarrow> 'f PyLib \<Rightarrow> 'f Peer \<Rightarrow> ('g, 'f) Talk \<Rightarrow> bool"
  for slow D P peer where
  authenticated: "engineInv e \<Longrightarrow> connectionState e = kConnecting \<Longrightarrow> peerSession peer = None \<Longrightarrow>
     talk slow D P peer (engineMoves D ConnectionAuthenticated
       \<lparr>talkEngine = e, talkPeer = peer, uplink = [], downlink = [], startedIds = []\<rparr>)"
| user: "talk slow D P peer t \<Longrightarrow> userEvent ev \<Longrightarrow> distinct (startedIds (engineMoves D ev t)) \<Longrightarrow>
     talk slow D P peer (engineMoves D ev t)"
| engine_hears: "talk slow D P peer t \<Longrightarrow> downlink t = env # es \<Longrightarrow> messageEvent env = Some ev \<Longrightarrow>
     distinct (startedIds (engineMoves D ev t)) \<Longrightarrow>
     talk slow D P peer (engineMoves D ev (t\<lparr>downlink := es\<rparr>))"
| peer_hears: "talk slow D P peer t \<Longrightarrow> uplink t = env # es \<Longrightarrow>
     slow \<or> \<not> draining (talkPeer t) \<Longrightarrow> handle_message P env (talkPeer t) = Inr p \<Longrightarrow>
     talk slow D P peer (t\<lparr>uplink := es, talkPeer := p\<rparr>)"
| peer_says: "talk slow D P peer t \<Longrightarrow> peerSession (talkPeer t) = Some s \<Longrightarrow> \<not> ps_draining s \<Longrightarrow>
     run_session P s (talkPeer t) = Inr (Some env, p) \<Longrightarrow>
     talk slow D P peer (t\<lparr>downlink := downlink t @ [env], talkPeer := p\<rparr>)"
| peer_drained: "talk slow D P peer t \<Longrightarrow> draining (talkPeer t) \<Longrightarrow>
     talk slow D P peer (t\<lparr>talkPeer := after_drain (talkPeer t)\<rparr>)"

section \<open>Messages on the way\<close>

text \<open>
  What the peer will make of the messages on their way up, starting from its session \<open>m\<close>: it
  must not be sent a StartSession while it has a session, nor an interrupt of another one, but
  an interrupt may find its session already ended.
\<close>

fun acceptable :: "string option \<Rightarrow> Envelope list \<Rightarrow> bool" where
  "acceptable m [] = True"
| "acceptable m (StartSession x # es) =
     (m = None \<and> length (ss_session_id x) = kSessionIdSize \<and>
      acceptable (Some (ss_session_id x)) es)"
| "acceptable m (InterruptSession x # es) =
     (m \<in> {None, Some (is_session_id x)} \<and> length (is_session_id x) = kSessionIdSize \<and>
      is_reason x \<noteq> INTERRUPT_REASON_UNSPECIFIED \<and> acceptable None es)"
| "acceptable m (_ # es) = False"

fun finally_open :: "string option \<Rightarrow> Envelope list \<Rightarrow> string option" where
  "finally_open m [] = m"
| "finally_open m (StartSession x # es) = finally_open (Some (ss_session_id x)) es"
| "finally_open m (InterruptSession x # es) = finally_open None es"
| "finally_open m (_ # es) = finally_open m es"

lemma acceptable_append:
  "acceptable m (es @ es') \<longleftrightarrow> acceptable m es \<and> acceptable (finally_open m es) es'"
  by (induction m es rule: acceptable.induct) auto

lemma finally_open_append:
  "finally_open m (es @ es') = finally_open (finally_open m es) es'"
  by (induction m es rule: finally_open.induct) auto

text \<open>The peer's own end of its session does not spoil what is on its way.\<close>

lemma acceptable_ended: "acceptable m es \<Longrightarrow> acceptable None es"
  by (cases "(m, es)" rule: acceptable.cases) auto

lemma finally_open_ended:
  "acceptable m es \<Longrightarrow> es \<noteq> [] \<Longrightarrow> finally_open None es = finally_open m es"
  by (cases "(m, es)" rule: acceptable.cases) auto

lemma finally_open_starts:
  "acceptable m es \<Longrightarrow> finally_open m es = Some x \<Longrightarrow> es \<noteq> [] \<Longrightarrow> x \<in> set (starts es)"
proof (induction m es rule: acceptable.induct)
  case (2 m x es)
  then show ?case by (cases es) auto
next
  case (3 m x es)
  then show ?case by (cases es) auto
qed auto

text \<open>The ids for which an ending is on its way down.\<close>

fun endings :: "Envelope list \<Rightarrow> string list" where
  "endings [] = []"
| "endings (VadTimeoutPayload m # es) = vt_session_id m # endings es"
| "endings (ErrorPayload m # es) = em_session_id m # endings es"
| "endings (_ # es) = endings es"

lemma endings_append [simp]: "endings (xs @ ys) = endings xs @ endings ys"
  by (induction xs rule: endings.induct) simp_all

fun spoken :: "Envelope list \<Rightarrow> string list" where
  "spoken [] = []"
| "spoken (CommitTextPayload m # es) = ct_session_id m # spoken es"
| "spoken (VadTimeoutPayload m # es) = vt_session_id m # spoken es"
| "spoken (ErrorPayload m # es) = em_session_id m # spoken es"
| "spoken (_ # es) = spoken es"

lemma spoken_append [simp]: "spoken (xs @ ys) = spoken xs @ spoken ys"
  by (induction xs rule: spoken.induct) simp_all

lemma endings_spoken: "set (endings es) \<subseteq> set (spoken es)"
  by (induction es rule: spoken.induct) auto

text \<open>
  The engine's session \<open>v\<close>, the queues and the peer's session \<open>m\<close> fit together: once the peer
  has heard what is on its way, it has the engine's session, or has ended it and the engine
  will hear of it.
\<close>

definition inStep :: "string option \<Rightarrow> string option \<Rightarrow> Envelope list \<Rightarrow> Envelope list \<Rightarrow> bool" where
  "inStep v m up down \<longleftrightarrow> acceptable m up \<and>
     (case v of
        None \<Rightarrow> finally_open m up = None
      | Some sid \<Rightarrow> finally_open m up = (if sid \<in> set (endings down) then None else Some sid))"

lemma inStep_sends:
  assumes "inStep v m up down" and "wireEffects v fx = Some v'" and "list_all effectSized fx"
    and "set (starts (sent fx)) \<inter> set (endings down) = {}"
  shows "inStep v' m (up @ sent fx) down"
  using assms
proof (induction v fx arbitrary: up rule: wireEffects.induct)
  case (2 v x fx)
  then show ?case
    using "2.IH" [of "up @ [StartSession x]"]
    by (auto simp: inStep_def acceptable_append finally_open_append
        split: if_splits option.splits)
next
  case (3 v x fx)
  then show ?case
    using "3.IH" [of "up @ [InterruptSession x]"]
    by (auto simp: inStep_def acceptable_append finally_open_append
        split: if_splits option.splits)
qed auto

section \<open>The invariant\<close>

text \<open>The session the peer has open; one that only waits for its drain counts as ended.\<close>

definition openId :: "'f Peer \<Rightarrow> string option" where
  "openId p = (case peerSession p of
     None \<Rightarrow> None | Some s \<Rightarrow> if ps_draining s then None else Some (ps_session_id s))"

text \<open>The ids on their way up are the last ones started; those the peer has used came before.\<close>

definition talkOk :: "string option \<Rightarrow> ('g, 'f) Talk \<Rightarrow> bool" where
  "talkOk v t \<longleftrightarrow> engineInv (talkEngine t) \<and> idSized (talkEngine t) \<and>
     inStep v (openId (talkPeer t)) (uplink t) (downlink t) \<and>
     (\<exists>old. startedIds t = old @ starts (uplink t) \<and>
        set (spoken (downlink t)) \<union> set_option (openId (talkPeer t)) \<subseteq> set old)"

definition talkInv :: "('g, 'f) Talk \<Rightarrow> bool" where
  "talkInv t \<longleftrightarrow> talkOk (wireView (talkEngine t)) t \<and> distinct (startedIds t)"

lemma engineMoves_inv:
  assumes "talkOk (wireEvent (wireView (talkEngine t)) ev) t" and "ownGenerator ssl D"
    and "distinct (startedIds (engineMoves D ev t))"
  shows "talkInv (engineMoves D ev t)"
proof -
  obtain e fx where h: "handle D ev (talkEngine t) = (e, fx)" by fastforce
  obtain old where old: "startedIds t = old @ starts (uplink t)"
    "set (spoken (downlink t)) \<union> set_option (openId (talkPeer t)) \<subseteq> set old"
    using assms(1) by (auto simp: talkOk_def)
  have eng: "engineInv (talkEngine t)" "idSized (talkEngine t)"
    using assms(1) by (simp_all add: talkOk_def)
  have "engineInv e" using engineInv_handle [OF eng(1), of D ev] h by simp
  moreover have "idSized e" "list_all effectSized fx"
    using handle_sized [OF assms(2) eng(2), of ev] h by simp_all
  moreover have "wireEffects (wireEvent (wireView (talkEngine t)) ev) fx = Some (wireView e)"
    using wire_agrees [OF eng(1), of ev D] h by (simp add: wireMonitor_def)
  moreover have "set (starts (sent fx)) \<inter> set (endings (downlink t)) = {}"
    using assms(3) old h endings_spoken [of "downlink t"] by (auto simp: engineMoves_def)
  ultimately show ?thesis
    using inStep_sends [of _ "openId (talkPeer t)" "uplink t" "downlink t"] assms old h
    by (auto simp: talkInv_def talkOk_def engineMoves_def)
qed

lemma inStep_hears:
  assumes "inStep v m up (env # es)" "messageEvent env = Some ev"
  shows "inStep (wireEvent v ev) m up es"
  using assms by (cases env) (auto simp: inStep_def split: option.splits if_splits)

lemma messages_accepted:
  assumes "acceptable (openId p) (env # es)" "\<not> draining p"
  shows "\<exists>p'. handle_message P env p = Inr p' \<and> acceptable (openId p') es \<and>
    finally_open (openId p') es = finally_open (openId p) (env # es) \<and>
    set_option (openId p') \<subseteq> set_option (openId p) \<union> set (starts [env])"
  using assms
  by (cases env) (auto simp: peer_defs openId_def draining_def kSessionIdSize_def split: option.splits)

lemma turn_ends_or_keeps:
  assumes "peerSession p = Some s" "\<not> ps_draining s" "run_session P s p = Inr (Some env, p')"
  shows "spoken [env] = [ps_session_id s] \<and> (openId p' = openId p \<and> endings [env] = [] \<or>
    openId p' = None \<and> endings [env] = [ps_session_id s])"
  using assms
  by (auto simp: run_session_def openId_def clear_session_def Let_def split: Mode.splits if_splits)

lemma inStep_quiet: "endings es = [] \<Longrightarrow> inStep v m up (down @ es) = inStep v m up down"
  by (simp add: inStep_def split: option.split)

lemma inStep_turn:
  assumes "inStep v (Some sid) up down" and "sid \<notin> set (starts up)"
  shows "inStep v None up (down @ es) \<or> endings es \<noteq> [sid]"
proof (cases "endings es = [sid]")
  case True
  have acc: "acceptable (Some sid) up" using assms(1) by (simp add: inStep_def)
  show ?thesis
  proof (cases "up = []")
    case True
    with \<open>endings es = [sid]\<close> assms(1) show ?thesis
      by (auto simp: inStep_def split: option.splits if_splits)
  next
    case False
    then have "finally_open (Some sid) up \<noteq> Some sid"
      using finally_open_starts [OF acc, of sid] assms(2) by blast
    with \<open>endings es = [sid]\<close> False assms(1) finally_open_ended [OF acc] acceptable_ended [OF acc]
    show ?thesis by (auto simp: inStep_def split: option.splits if_splits)
  qed
qed simp

lemma talk_inv:
  assumes "talk False D P peer t" "ownGenerator ssl D"
  shows "talkInv t"
  using assms(1)
proof (induction rule: talk.induct)
  case (authenticated e)
  have "session e = None" using authenticated by (auto simp: engineInv_defs split: option.splits)
  with authenticated show ?case
    by (intro engineMoves_inv [OF _ assms(2)])
       (auto simp: talkOk_def inStep_def wireView_def idSized_def openId_def engineMoves_def
          handle_def engine_defs Let_def split: engine_splits)
next
  case (user t ev)
  then have "wireEvent v ev = v" for v by (cases ev) simp_all
  with user show ?case by (intro engineMoves_inv [OF _ assms(2)]) (simp_all add: talkInv_def)
next
  case (engine_hears t env es ev)
  have "set (spoken es) \<subseteq> set (spoken (env # es))" by (cases env) auto
  with engine_hears inStep_hears [of _ _ _ env es ev] show ?case
    by (intro engineMoves_inv [OF _ assms(2)]) (fastforce simp: talkInv_def talkOk_def)+
next
  case (peer_hears t env es p)
  then obtain old where old: "startedIds t = old @ starts (env # es)"
    "set (spoken (downlink t)) \<union> set_option (openId (talkPeer t)) \<subseteq> set old"
    and st: "inStep (wireView (talkEngine t)) (openId (talkPeer t)) (env # es) (downlink t)"
    and eng: "engineInv (talkEngine t)" "idSized (talkEngine t)" "distinct (startedIds t)"
    by (auto simp: talkInv_def talkOk_def)
  from st messages_accepted [of "talkPeer t" env es P] peer_hears.hyps(3,4)
  have p: "acceptable (openId p) es" "set_option (openId p) \<subseteq>
      set_option (openId (talkPeer t)) \<union> set (starts [env])"
    "finally_open (openId p) es = finally_open (openId (talkPeer t)) (env # es)"
    by (auto simp: inStep_def)
  moreover have "starts (env # es) = starts [env] @ starts es" by (cases env) simp_all
  ultimately show ?case
    using eng old st unfolding talkInv_def talkOk_def
    by (intro conjI exI [of _ "old @ starts [env]"]) (auto simp: inStep_def split: option.splits)
next
  case (peer_says t s env p)
  then obtain old where old: "startedIds t = old @ starts (uplink t)"
    "set (spoken (downlink t)) \<union> set_option (openId (talkPeer t)) \<subseteq> set old"
    and st: "inStep (wireView (talkEngine t)) (openId (talkPeer t)) (uplink t) (downlink t)"
    and d: "distinct (startedIds t)"
    by (auto simp: talkInv_def talkOk_def)
  have opened: "openId (talkPeer t) = Some (ps_session_id s)"
    using peer_says.hyps(2,3) by (simp add: openId_def)
  with old d have "ps_session_id s \<notin> set (starts (uplink t))" by auto
  with st opened have "endings [env] = [ps_session_id s] \<Longrightarrow>
      inStep (wireView (talkEngine t)) None (uplink t) (downlink t @ [env])"
    using inStep_turn by metis
  with st opened turn_ends_or_keeps [OF peer_says.hyps(2-4)]
  have "inStep (wireView (talkEngine t)) (openId p) (uplink t) (downlink t @ [env])"
    by (metis inStep_quiet)
  with peer_says.IH old opened turn_ends_or_keeps [OF peer_says.hyps(2-4)] show ?case
    unfolding talkInv_def talkOk_def by (intro conjI exI [of _ old]) auto
next
  case (peer_drained t)
  then have "openId (after_drain (talkPeer t)) = openId (talkPeer t)"
    by (auto simp: openId_def draining_def after_drain_def clear_session_def split: option.splits)
  with peer_drained.IH show ?case by (simp add: talkInv_def talkOk_def)
qed

section \<open>Sequence numbers\<close>

fun numbersFor :: "string \<Rightarrow> Envelope list \<Rightarrow> u64 list" where
  "numbersFor sid [] = []"
| "numbersFor sid (CommitTextPayload m # es) =
     (if ct_session_id m = sid then [ct_sequence_no m] else []) @ numbersFor sid es"
| "numbersFor sid (_ # es) = numbersFor sid es"

lemma numbersFor_append [simp]: "numbersFor sid (xs @ ys) = numbersFor sid xs @ numbersFor sid ys"
  by (induction xs rule: numbersFor.induct) simp_all

lemma numbersFor_spoken: "sid \<notin> set (spoken es) \<Longrightarrow> numbersFor sid es = []"
  by (induction es rule: spoken.induct) auto

fun consecutive :: "u64 \<Rightarrow> u64 list \<Rightarrow> bool" where
  "consecutive n [] = True"
| "consecutive n (k # ks) = (k = n \<and> consecutive (n + 1) ks)"

lemma consecutive_snoc:
  "consecutive n (ks @ [k]) \<longleftrightarrow> consecutive n ks \<and> k = n + of_nat (length ks)"
  by (induction ks arbitrary: n) (auto simp: algebra_simps)

text \<open>The numbers on their way down for the engine's session, and the next one the peer will use.\<close>

definition counted :: "('g, 'f) Talk \<Rightarrow> SessionState \<Rightarrow> bool" where
  "counted t s \<longleftrightarrow>
     (let sid = string_of_bytes (sess_id s); ns = numbersFor sid (downlink t)
      in consecutive (nextSequenceNo s) ns \<and>
         (\<forall>ps. peerSession (talkPeer t) = Some ps \<longrightarrow> \<not> ps_draining ps \<longrightarrow> ps_session_id ps = sid \<longrightarrow>
            of_nat (ps_sequence_no ps) = nextSequenceNo s + of_nat (length ns)) \<and>
         (sid \<in> set (starts (uplink t)) \<longrightarrow> ns = [] \<and> nextSequenceNo s = 1))"

definition seqOk :: "('g, 'f) Talk \<Rightarrow> bool" where
  "seqOk t \<longleftrightarrow> (\<forall>s. session (talkEngine t) = Some s \<longrightarrow> counted t s)"

lemma engine_session_after:
  assumes "engineInv e" "handle D ev e = (e', fx)" "session e' = Some s'"
  shows "session e = Some s' \<and> starts (sent fx) = [] \<and>
      (\<forall>m. ev = ConnectionCommitText m \<longrightarrow> ct_session_id m \<noteq> string_of_bytes (sess_id s')) \<or>
    (\<exists>s m. session e = Some s \<and> ev = ConnectionCommitText m \<and> starts (sent fx) = [] \<and>
       ct_session_id m = string_of_bytes (sess_id s) \<and> ct_sequence_no m = nextSequenceNo s \<and>
       s' = s\<lparr>nextSequenceNo := nextSequenceNo s + 1\<rparr>) \<or>
    nextSequenceNo s' = 1 \<and> string_of_bytes (sess_id s') \<in> set (starts (sent fx))"
  using assms
  by (cases ev) (auto simp: handle_def engine_defs engineInv_defs Let_def split: engine_splits)

text \<open>A move of the engine on an event that is not a commit, or on the commit next in line.\<close>

lemma engineMoves_seq:
  assumes "seqOk t" and "talkOk v t" and "distinct (startedIds (engineMoves D ev (t\<lparr>downlink := es\<rparr>)))"
    and "\<And>sid. numbersFor sid (downlink t) = (case ev of
        ConnectionCommitText m \<Rightarrow> if ct_session_id m = sid then [ct_sequence_no m] else [] | _ \<Rightarrow> []) @
      numbersFor sid es" and "set (spoken es) \<subseteq> set (spoken (downlink t))"
  shows "seqOk (engineMoves D ev (t\<lparr>downlink := es\<rparr>))"
  unfolding seqOk_def
proof (intro allI impI)
  fix s'
  let ?t = "engineMoves D ev (t\<lparr>downlink := es\<rparr>)"
  assume s': "session (talkEngine ?t) = Some s'"
  obtain e fx where h: "handle D ev (talkEngine t) = (e, fx)" by fastforce
  have up: "uplink ?t = uplink t @ sent fx" "talkPeer ?t = talkPeer t" "downlink ?t = es"
    "startedIds ?t = startedIds t @ starts (sent fx)" "talkEngine ?t = e"
    using h by (simp_all add: engineMoves_def)
  have inv: "engineInv (talkEngine t)" using assms(2) by (simp add: talkOk_def)
  from engine_session_after [OF inv h] s' up(5)
  consider (same) "session (talkEngine t) = Some s'" "starts (sent fx) = []"
      "\<forall>m. ev = ConnectionCommitText m \<longrightarrow> ct_session_id m \<noteq> string_of_bytes (sess_id s')"
    | (commit) s m where "session (talkEngine t) = Some s" "ev = ConnectionCommitText m"
      "starts (sent fx) = []" "ct_session_id m = string_of_bytes (sess_id s)"
      "s' = s\<lparr>nextSequenceNo := nextSequenceNo s + 1\<rparr>"
    | (new) "nextSequenceNo s' = 1" "string_of_bytes (sess_id s') \<in> set (starts (sent fx))"
    by auto
  then show "counted ?t s'"
  proof cases
    case same
    with assms(1) have "counted t s'" by (simp add: seqOk_def)
    moreover have "numbersFor (string_of_bytes (sess_id s')) (downlink t) =
        numbersFor (string_of_bytes (sess_id s')) es"
      using assms(4) same(3) by (auto split: Event.splits)
    ultimately show ?thesis using same up by (simp add: counted_def Let_def)
  next
    case (commit s m)
    with assms(1) have "counted t s" by (simp add: seqOk_def)
    with commit up assms(4) show ?thesis by (auto simp: counted_def Let_def algebra_simps)
  next
    case new
    let ?sid = "string_of_bytes (sess_id s')"
    obtain old where "startedIds t = old @ starts (uplink t)"
      "set (spoken (downlink t)) \<union> set_option (openId (talkPeer t)) \<subseteq> set old"
      using assms(2) by (auto simp: talkOk_def)
    with assms(3,5) up(4) new(2) have "?sid \<notin> set (spoken es)" "openId (talkPeer t) \<noteq> Some ?sid"
      by auto
    with new up show ?thesis
      by (auto simp: counted_def Let_def openId_def numbersFor_spoken)
  qed
qed

lemma peer_hears_seq:
  assumes "seqOk t" "uplink t = env # es" "handle_message P env (talkPeer t) = Inr p"
  shows "seqOk (t\<lparr>uplink := es, talkPeer := p\<rparr>)"
proof -
  have "counted (t\<lparr>uplink := es, talkPeer := p\<rparr>) s" if "counted t s" for s
    using that assms(2,3)
    by (cases env) (auto simp: counted_def Let_def peer_defs split: option.splits if_splits)
  with assms(1) show ?thesis by (simp add: seqOk_def)
qed

lemma peer_says_seq:
  assumes "seqOk t" "talkInv t" "peerSession (talkPeer t) = Some s" "\<not> ps_draining s"
    and "run_session P s (talkPeer t) = Inr (Some env, p)"
  shows "seqOk (t\<lparr>downlink := downlink t @ [env], talkPeer := p\<rparr>)"
proof -
  have "ps_session_id s \<notin> set (starts (uplink t))"
    using assms(2-4) by (auto simp: talkInv_def talkOk_def openId_def)
  then have "counted (t\<lparr>downlink := downlink t @ [env], talkPeer := p\<rparr>) s'" if "counted t s'" for s'
    using that assms(3-5)
    by (auto simp: counted_def Let_def run_session_def clear_session_def consecutive_snoc
        algebra_simps split: Mode.splits if_splits)
  with assms(1) show ?thesis by (simp add: seqOk_def)
qed

lemma talk_seq:
  assumes "talk False D P peer t" "ownGenerator ssl D"
  shows "seqOk t"
  using assms(1)
proof (induction rule: talk.induct)
  case (authenticated e)
  let ?t = "\<lparr>talkEngine = e, talkPeer = peer, uplink = [], downlink = [], startedIds = []\<rparr>"
  have s: "session e = None" using authenticated by (auto simp: engineInv_defs split: option.splits)
  obtain e' fx where h: "handle D ConnectionAuthenticated e = (e', fx)" by fastforce
  have "nextSequenceNo s' = 1" if "session e' = Some s'" for s'
    using engine_session_after [OF authenticated(1) h that] s by simp
  with h authenticated(3) show ?case
    by (simp add: seqOk_def counted_def engineMoves_def Let_def)
next
  case (user t ev)
  then have "case ev of ConnectionCommitText m \<Rightarrow> False | _ \<Rightarrow> True" by (cases ev) simp_all
  with user talk_inv [OF user.hyps(1) assms(2)] show ?case
    using engineMoves_seq [of t _ D ev "downlink t"] by (auto simp: talkInv_def split: Event.splits)
next
  case (engine_hears t env es ev)
  then show ?case
    using engineMoves_seq [of t _ D ev es] talk_inv [OF engine_hears.hyps(1) assms(2)]
    by (cases env) (auto simp: talkInv_def subset_insertI)
next
  case (peer_hears t env es p)
  then show ?case by (intro peer_hears_seq)
next
  case (peer_says t s env p)
  then show ?case using talk_inv [OF peer_says.hyps(1) assms(2)] by (intro peer_says_seq)
next
  case (peer_drained t)
  then show ?case
    by (simp add: seqOk_def counted_def after_drain_def clear_session_def Let_def)
qed

section \<open>The conversation goes well\<close>

text \<open>
  C6. The addon and the repository's transcriber understand each other, however their messages
  cross: as long as writes drain before the next message is heard, the transcriber never meets a
  message it rejects; when nothing is on its way, both have the same session open or none; and a CommitText for the session the engine has open always
  carries the number the engine expects, so no session is ended for a mismatch.
\<close>

theorem transcriber_accepts_addon:
  assumes "talk False D P peer t" and "ownGenerator ssl D"
  shows "(\<forall>env es. uplink t = env # es \<longrightarrow> \<not> draining (talkPeer t) \<longrightarrow>
      (\<exists>p. handle_message P env (talkPeer t) = Inr p)) \<and>
    (uplink t = [] \<and> downlink t = [] \<and> \<not> draining (talkPeer t) \<longrightarrow>
      map_option ps_session_id (peerSession (talkPeer t)) =
      map_option (\<lambda>s. string_of_bytes (sess_id s)) (session (talkEngine t))) \<and>
    (\<forall>m es s. downlink t = CommitTextPayload m # es \<longrightarrow> session (talkEngine t) = Some s \<longrightarrow>
      ct_session_id m = string_of_bytes (sess_id s) \<longrightarrow> ct_sequence_no m = nextSequenceNo s)"
proof (intro conjI allI impI)
  have st: "inStep (wireView (talkEngine t)) (openId (talkPeer t)) (uplink t) (downlink t)"
    using talk_inv [OF assms] by (simp add: talkInv_def talkOk_def)
  show "\<exists>p. handle_message P env (talkPeer t) = Inr p" if "uplink t = env # es" "\<not> draining (talkPeer t)" for env es
    using st that messages_accepted [of "talkPeer t" env es P] by (auto simp: inStep_def)
  show "map_option ps_session_id (peerSession (talkPeer t)) =
      map_option (\<lambda>s. string_of_bytes (sess_id s)) (session (talkEngine t))"
    if "uplink t = [] \<and> downlink t = [] \<and> \<not> draining (talkPeer t)"
    using st that
    by (auto simp: inStep_def wireView_def openId_def draining_def split: option.splits)
  show "ct_sequence_no m = nextSequenceNo s"
    if "downlink t = CommitTextPayload m # es" "session (talkEngine t) = Some s"
      "ct_session_id m = string_of_bytes (sess_id s)" for m es s
    using talk_seq [OF assms] that by (simp add: seqOk_def counted_def Let_def)
qed

definition talkDeps :: "unit EngineDeps" where
  "talkDeps = exampleDeps\<lparr>sessionIdGenerator := generateSessionId (openssl exampleLib)\<rparr>"

definition talkStart :: "unit Engine" where
  "talkStart = (initEngine ())\<lparr>connectionConfig := Some exampleConfig,
     contexts := [1 \<mapsto> \<lparr>alive = True\<rparr>], focusedContext := Some 1,
     connectionState := kConnecting, pendingContext := Some 1\<rparr>"

definition talkPy :: "unit PyLib" where
  "talkPy = \<lparr>pyProtobuf = protobuf exampleLib, hmac_sha256 = (\<lambda>k m. [1, 2, 3]), zeroElapsed = (),
     addInterval = id, formatG = (\<lambda>x. ''1'')\<rparr>"

theorem transcriber_accepts_addon_witness:
  "\<exists>t env. talk False talkDeps talkPy (initPeer ''secret'' ResultMode) t \<and> uplink t = [env] \<and>
     (\<exists>p. handle_message talkPy env (talkPeer t) = Inr p)"
proof -
  let ?peer = "initPeer ''secret'' ResultMode :: unit Peer"
  let ?t = "engineMoves talkDeps ConnectionAuthenticated
    \<lparr>talkEngine = talkStart, talkPeer = ?peer, uplink = [], downlink = [], startedIds = []\<rparr>"
  have own: "ownGenerator (openssl exampleLib) talkDeps"
    by (simp add: ownGenerator_def talkDeps_def)
  have "engineInv talkStart" "connectionState talkStart = kConnecting" "peerSession ?peer = None"
    by (simp_all add: talkStart_def initEngine_def engineInv_defs initPeer_def)
  then have talk: "talk False talkDeps talkPy ?peer ?t" by (rule talk.authenticated)
  have "\<exists>env. uplink ?t = [env]"
    by (simp add: engineMoves_def talkStart_def initEngine_def talkDeps_def exampleLib_def
        generateSessionId_def handle_def engine_defs Let_def)
  then obtain env where "uplink ?t = [env]" by blast
  moreover have "\<not> draining (talkPeer ?t)"
    by (simp add: engineMoves_def draining_def initPeer_def split: prod.split)
  ultimately show ?thesis using transcriber_accepts_addon [OF talk own] talk by blast
qed

text \<open>
  Without that proviso the transcriber can refuse a message. While it waits for the drain of a
  VadTimeout, the engine hears of it and the user starts the next session: its StartSession
  meets the old session.
\<close>

definition raceDeps :: "nat EngineDeps" where
  "raceDeps = \<lparr>sessionIdGenerator = (\<lambda>n. (Inr (replicate 16 (of_nat n)), Suc n)),
     uuidToString = uuidToString exampleDeps\<rparr>"

definition raceStart :: "nat Engine" where
  "raceStart = (initEngine 0)\<lparr>connectionConfig := Some exampleConfig,
     contexts := [1 \<mapsto> \<lparr>alive = True\<rparr>], focusedContext := Some 1,
     connectionState := kConnecting, pendingContext := Some 1\<rparr>"

lemma start_refused_while_draining:
  "\<exists>t env. talk True raceDeps talkPy (initPeer ''secret'' VadTimeoutMode) t \<and> uplink t = [env] \<and>
     handle_message talkPy env (talkPeer t) =
       Inl (ValueError ''received StartSession while another session is active'')"
proof -
  let ?talk = "talk True raceDeps talkPy (initPeer ''secret'' VadTimeoutMode)"
  let ?id = "\<lambda>n. string_of_bytes (replicate 16 (of_nat n))"
  let ?start = "\<lambda>n. StartSession \<lparr>ss_session_id = ?id n\<rparr>"
  note run = engineMoves_def handle_def engine_defs raceDeps_def raceStart_def initEngine_def Let_def
  let ?t0 = "\<lparr>talkEngine = raceStart, talkPeer = initPeer ''secret'' VadTimeoutMode,
    uplink = [], downlink = [], startedIds = []\<rparr> :: (nat, unit) Talk"
  let ?s = "\<lparr>ps_session_id = ?id 0, ps_sequence_no = 1, ps_elapsed = (), ps_draining = False\<rparr>"
  let ?m = "\<lparr>vt_session_id = ?id 0\<rparr>"
  define p1 where "p1 = (initPeer ''secret'' VadTimeoutMode)\<lparr>peerSession := Some ?s\<rparr>"
  define p2 where "p2 = p1\<lparr>peerSession := Some (?s\<lparr>ps_draining := True\<rparr>)\<rparr>"
  define t1 where "t1 = engineMoves raceDeps ConnectionAuthenticated ?t0"
  define t2 where "t2 = t1\<lparr>uplink := [], talkPeer := p1\<rparr>"
  define t3 where "t3 = t2\<lparr>downlink := downlink t2 @ [VadTimeoutPayload ?m], talkPeer := p2\<rparr>"
  define t4 where "t4 = engineMoves raceDeps (ConnectionVadTimeout ?m) (t3\<lparr>downlink := []\<rparr>)"
  define t5 where "t5 = engineMoves raceDeps (Toggle 1 True) t4"
  note ts = t5_def t4_def t3_def t2_def t1_def run
  have "?talk t1" unfolding t1_def
    by (rule talk.authenticated) (simp_all add: raceStart_def initEngine_def engineInv_defs initPeer_def)
  then have "?talk t2" unfolding t2_def
    by (rule talk.peer_hears [of _ _ _ _ _ "?start 0"])
       (simp_all add: ts initPeer_def p1_def peer_defs talkPy_def)
  then have "?talk t3" unfolding t3_def
    by (rule talk.peer_says [of _ _ _ _ _ ?s])
       (simp_all add: t2_def p1_def p2_def run_session_def initPeer_def)
  then have "?talk t4" unfolding t4_def
    by (rule talk.engine_hears [of _ _ _ _ _ "VadTimeoutPayload ?m"]) (simp_all add: ts)
  then have "?talk t5" unfolding t5_def
    by (rule talk.user) (simp_all add: ts)
  moreover have "uplink t5 = [?start 1]" "talkPeer t5 = p2" by (simp_all add: ts)
  moreover have "handle_message talkPy (?start 1) p2 =
      Inl (ValueError ''received StartSession while another session is active'')"
    by (simp add: p2_def p1_def peer_defs)
  ultimately show ?thesis by metis
qed

end
