(* ===== verification/Play.thy ===== *)
theory Play
  imports System
begin

text \<open>
  Playing a system: a player that is told whose turn it is, and shown to stay within the
  reachable systems.
\<close>

section \<open>Playing a system\<close>

datatype ('p, 'key, 'raw) Turn = Fcitx "('p, 'key, 'raw) AddonOp" | DeliverNext | WorkerDoes Choice

text \<open>A player that is told whose turn it is; it stops where a turn is not possible.\<close>

fun play ::
  "'h IoLib \<Rightarrow> ('p, 'o, 'key, 'k, 'raw, 'g, 'h) AddonWorld \<Rightarrow> ('p, 'key, 'raw) Turn \<Rightarrow>
     ('p, 'o, 'k, 'g, 'h) System \<Rightarrow> (('p, 'o, 'k, 'g, 'h) System \<times> ('p, 'k) AddonOut list) option"
where
  "play L W (Fcitx op) s =
     (case op of
        CallbackOp _ \<Rightarrow> None
      | _ \<Rightarrow> let (a, out) = addonStep (W, op) (sysAddon s) in Some (s\<lparr>sysAddon := a\<rparr>, out))"
| "play L W DeliverNext s =
     (case dispatcher s of
        [] \<Rightarrow> None
      | ev # evs \<Rightarrow> let (a, out) = addonStep (W, CallbackOp ev) (sysAddon s)
                     in Some (s\<lparr>sysAddon := a, dispatcher := evs\<rparr>, out))"
| "play L W (WorkerDoes c) s =
     (case pick L c (addonIo (sysAddon s)) of
        Some (l, Some (io, out)) \<Rightarrow>
          if isCall l then None
          else Some (s\<lparr>sysAddon := (sysAddon s)\<lparr>addonIo := io\<rparr>,
                       dispatcher := dispatcher s @ published out\<rparr>, [])
      | _ \<Rightarrow> None)"

fun playAll where
  "playAll L W [] s = Some (s, [])"
| "playAll L W (t # ts) s =
     (case play L W t s of
        None \<Rightarrow> None
      | Some (s', out) \<Rightarrow>
          (case playAll L W ts s' of None \<Rightarrow> None | Some (s'', out') \<Rightarrow> Some (s'', out @ out')))"

lemma play_reachable:
  fixes W :: "('p, 'o, 'key, 'k, 'raw, 'g, 'h) AddonWorld"
    and log :: "('p, 'o, 'key, 'k, 'raw, 'g, 'h) log"
  assumes "reachable L s tr log" "quiet L W" "play L W t s = Some (s', out)"
  shows "\<exists>tr' log'. reachable L s' tr' (log @ log') \<and> allOuts log' = out \<and>
    list_all (\<lambda>x. fst (fst x) = W) log'"
proof (cases t)
  case (Fcitx op)
  with assms(3) have "\<forall>ev. op \<noteq> CallbackOp ev" by (cases op) auto
  moreover from Fcitx assms(3) obtain a where "addonStep (W, op) (sysAddon s) = (a, out)"
    "s' = s\<lparr>sysAddon := a\<rparr>"
    by (cases op) (auto split: prod.splits simp del: addonStep.simps)
  ultimately have "\<exists>tr'. reachable L s' tr' (log @ [((W, op), a, out)])"
    using reachable_callback [OF assms(1,2)] by blast
  then show ?thesis by (fastforce intro: exI [of _ "[_]"])
next
  case DeliverNext
  with assms(3) obtain ev evs a where "dispatcher s = ev # evs"
    "addonStep (W, CallbackOp ev) (sysAddon s) = (a, out)"
    "s' = s\<lparr>sysAddon := a, dispatcher := evs\<rparr>"
    by (auto split: prod.splits list.splits simp del: addonStep.simps)
  then have "\<exists>tr'. reachable L s' tr' (log @ [((W, CallbackOp ev), a, out)])"
    using reachable_deliver [OF assms(1,2)] by blast
  then show ?thesis by (fastforce intro: exI [of _ "[_]"])
next
  case (WorkerDoes c)
  with assms(3) obtain l io os where p: "pick L c (addonIo (sysAddon s)) = Some (l, Some (io, os))"
    "\<not> isCall l" "out = []" and s': "s' = s\<lparr>sysAddon := (sysAddon s)\<lparr>addonIo := io\<rparr>,
       dispatcher := dispatcher s @ published os\<rparr>"
    by (auto split: option.splits prod.splits if_splits)
  from reachable.worker [OF assms(1) p(2) pick_step [OF p(1)]] p(3) show ?thesis
    unfolding s' by (intro exI [of _ "_ # tr"] exI [of _ "[]"]) simp
qed

lemma playAll_reachable:
  fixes W :: "('p, 'o, 'key, 'k, 'raw, 'g, 'h) AddonWorld"
    and log :: "('p, 'o, 'key, 'k, 'raw, 'g, 'h) log"
  assumes "reachable L s tr log" "quiet L W" "playAll L W ts s = Some (s', out)"
  shows "\<exists>tr' log'. reachable L s' tr' (log @ log') \<and> allOuts log' = out \<and>
    list_all (\<lambda>x. fst (fst x) = W) log'"
  using assms
proof (induction ts arbitrary: s tr log out)
  case Nil
  then show ?case by (intro exI [of _ tr] exI [of _ "[]"]) simp
next
  case (Cons t ts)
  from Cons.prems(3) obtain s1 out1 out2 where p: "play L W t s = Some (s1, out1)"
    "playAll L W ts s1 = Some (s', out2)" "out = out1 @ out2"
    by (auto split: option.splits)
  from play_reachable [OF Cons.prems(1,2) p(1)] obtain tr1 log1
    where "reachable L s1 tr1 (log @ log1)"
    and o1: "allOuts log1 = out1" "list_all (\<lambda>x. fst (fst x) = W) log1" by blast
  from Cons.IH [OF this(1) Cons.prems(2) p(2)] obtain tr2 log2
    where "reachable L s' tr2 ((log @ log1) @ log2)" "allOuts log2 = out2"
      "list_all (\<lambda>x. fst (fst x) = W) log2" by blast
  with o1 p(3) show ?case by (intro exI [of _ tr2] exI [of _ "log1 @ log2"]) simp
qed

lemma playAll_append:
  "playAll L W ts s = Some (s', out) \<Longrightarrow> playAll L W (ts @ ts') s =
     (case playAll L W ts' s' of None \<Rightarrow> None | Some (s'', out') \<Rightarrow> Some (s'', out @ out'))"
  by (induction ts arbitrary: s out) (auto split: option.splits)

lemma playAll_snoc:
  "playAll L W ts s = Some (s', []) \<Longrightarrow> playAll L W (ts @ ts') s = playAll L W ts' s'"
  by (simp add: playAll_append split: option.split)

lemma playAll_then:
  assumes "playAll L W ts s = Some (s1, out1)" "playAll L W ts' s1 = Some (s2, out2)"
  shows "playAll L W (ts @ ts') s = Some (s2, out1 @ out2)"
  using assms by (simp add: playAll_append)

lemma published_map [simp]: "published (map Publish evs) = evs"
  by (induction evs) simp_all

text \<open>A schedule of the worker alone is played as it is.\<close>

definition workerTurns :: "Choice list \<Rightarrow> bool" where
  "workerTurns cs \<longleftrightarrow> (\<forall>l. Call l \<notin> set cs)"

lemma workerTurns_simps [simp]:
  "workerTurns []" "workerTurns (Take # cs) \<longleftrightarrow> workerTurns cs"
  "workerTurns (Continue i r # cs) \<longleftrightarrow> workerTurns cs" "\<not> workerTurns (Call l # cs)"
  "workerTurns (cs @ cs') \<longleftrightarrow> workerTurns cs \<and> workerTurns cs'"
  by (auto simp: workerTurns_def)

lemma pick_worker:
  assumes "pick L c io = Some (l, r)" "workerTurns (c # cs)"
  shows "\<not> isCall l" "workerTurns cs"
  using assms by (cases c; auto simp: Let_def split: option.splits if_splits prod.splits)+

lemma play_schedule:
  assumes "workerTurns cs" and "schedule L cs (addonIo a, tr) = Some (io', tr')"
  shows "\<exists>new. outputs tr' = outputs tr @ new \<and>
    playAll L W (map WorkerDoes cs) \<lparr>sysAddon = a, dispatcher = evs\<rparr> =
      Some (\<lparr>sysAddon = a\<lparr>addonIo := io'\<rparr>, dispatcher = evs @ published new\<rparr>, [])"
  using assms
proof (induction cs arbitrary: a tr evs)
  case Nil
  then show ?case by simp
next
  case (Cons c cs)
  from Cons.prems(2) obtain l io1 out where p: "pick L c (addonIo a) = Some (l, Some (io1, out))"
    and rest: "schedule L cs (io1, (l, out) # tr) = Some (io', tr')"
    by (auto split: option.splits prod.splits)
  note turn = pick_worker [OF p Cons.prems(1)]
  with p have one: "play L W (WorkerDoes c) \<lparr>sysAddon = a, dispatcher = evs\<rparr> =
      Some (\<lparr>sysAddon = a\<lparr>addonIo := io1\<rparr>, dispatcher = evs @ published out\<rparr>, [])"
    by simp
  from Cons.IH [of "a\<lparr>addonIo := io1\<rparr>" "(l, out) # tr" "evs @ published out"] turn(2) rest
  obtain new where "outputs tr' = outputs tr @ out @ new"
    "playAll L W (map WorkerDoes cs) \<lparr>sysAddon = a\<lparr>addonIo := io1\<rparr>, dispatcher = evs @ published out\<rparr> =
      Some (\<lparr>sysAddon = a\<lparr>addonIo := io'\<rparr>, dispatcher = evs @ published out @ published new\<rparr>, [])"
    by auto
  then show ?case
    by (intro exI [of _ "out @ new"]) (simp add: one del: play.simps)
qed

lemma reachable_schedule:
  fixes log :: "('p, 'o, 'key, 'k, 'raw, 'g, 'h) log"
  assumes "reachable L s tr log" "workerTurns cs"
    and "schedule L cs (addonIo (sysAddon s), tr) = Some (io', tr')"
  shows "\<exists>s'. reachable L s' tr' log \<and> addonIo (sysAddon s') = io'"
  using assms
proof (induction cs arbitrary: s tr)
  case Nil
  then show ?case by auto
next
  case (Cons c cs)
  from Cons.prems(3) obtain l io1 out
    where p: "pick L c (addonIo (sysAddon s)) = Some (l, Some (io1, out))"
    and rest: "schedule L cs (io1, (l, out) # tr) = Some (io', tr')"
    by (auto split: option.splits prod.splits)
  note turn = pick_worker [OF p Cons.prems(2)]
  from Cons.IH [OF reachable.worker [OF Cons.prems(1) turn(1) pick_step [OF p]] turn(2)] rest
  show ?case by simp
qed

end
