(* ===== verification/Dictation.thy ===== *)
theory Dictation
  imports Play
begin

text \<open>
  The turns of a dictation, each from any state that allows it: the key press, the handshake, the
  start of the session, the message that starts it on the wire, and the delivery of commits; and
  the turns of a reload that a key press follows.
\<close>

section \<open>Delivering commits\<close>

lemma dispatchLoop_record [simp]:
  "dispatchLoop W \<lparr>addon = a, accepted = b, queue = [], outs = os\<rparr> =
     \<lparr>addon = a, accepted = b, queue = [], outs = os\<rparr>"
  "dispatchLoop W \<lparr>addon = a, accepted = b, queue = ev # rest, outs = os\<rparr> =
     dispatchLoop W (dispatchOne W ev \<lparr>addon = a, accepted = b, queue = rest, outs = os\<rparr>)"
  by (simp_all add: loop_Cons)


text \<open>The transport's state does not matter to the delivery of a commit.\<close>

lemma commit_delivered:
  assumes "session (addonEngine a) = Some s" "engineInv (addonEngine a)"
    and "contextsById a (sess_context s) = Some (p, Some ob)" "objectAt W p = Some ob"
    and "ct_session_id m = string_of_bytes (sess_id s)" "ct_sequence_no m = nextSequenceNo s"
  shows "\<exists>a'. addonStep (W, CallbackOp (IoCommitText m)) a = (a', [CommitString p (ct_text m)]) \<and>
    session (addonEngine a') = Some (s\<lparr>nextSequenceNo := nextSequenceNo s + 1\<rparr>) \<and>
    engineInv (addonEngine a') \<and> contextsById a' = contextsById a"
proof -
  have h: "handle (engineDeps W) (ConnectionCommitText m) (addonEngine a) =
      ((addonEngine a)\<lparr>session := Some (s\<lparr>nextSequenceNo := nextSequenceNo s + 1\<rparr>)\<rparr>,
       [CommitText (sess_context s) (ct_text m)])"
    using assms by (auto simp: handle_def engine_defs engineInv_defs Let_def)
  have "engineInv (fst (handle (engineDeps W) (ConnectionCommitText m) (addonEngine a)))"
    using assms(2) by simp
  with assms(3,4) h show ?thesis
    by (simp add: dispatch_def dispatchOne_def applyCommitText_def emit_def Let_def)
qed

text \<open>Messages of one session, numbered from \<open>n\<close> on without a gap (the counter wraps).\<close>

fun numbered :: "string \<Rightarrow> u64 \<Rightarrow> CommitTextMsg list \<Rightarrow> bool" where
  "numbered sid n [] = True"
| "numbered sid n (m # ms) =
     (ct_session_id m = sid \<and> ct_sequence_no m = n \<and> numbered sid (n + 1) ms)"

lemma commits_delivered:
  assumes "session (addonEngine a) = Some s" "engineInv (addonEngine a)"
    and "contextsById a (sess_context s) = Some (p, Some ob)" "objectAt W p = Some ob"
    and "numbered (string_of_bytes (sess_id s)) (nextSequenceNo s) ms"
  shows "\<exists>a'. playAll L W (replicate (length ms) DeliverNext)
      \<lparr>sysAddon = a, dispatcher = map IoCommitText ms\<rparr> =
    Some (\<lparr>sysAddon = a', dispatcher = []\<rparr>, map (\<lambda>m. CommitString p (ct_text m)) ms)"
  using assms
proof (induction ms arbitrary: a s)
  case Nil
  then show ?case by simp
next
  case (Cons m ms)
  from Cons.prems obtain a1 where
    1: "addonStep (W, CallbackOp (IoCommitText m)) a = (a1, [CommitString p (ct_text m)])"
    and a1: "session (addonEngine a1) = Some (s\<lparr>nextSequenceNo := nextSequenceNo s + 1\<rparr>)"
      "engineInv (addonEngine a1)" "contextsById a1 = contextsById a"
    using commit_delivered [of a s p ob W m] by auto
  from Cons.IH [OF a1(1,2)] a1(3) Cons.prems(3-5) obtain a' where
    "playAll L W (replicate (length ms) DeliverNext)
       \<lparr>sysAddon = a1, dispatcher = map IoCommitText ms\<rparr> =
     Some (\<lparr>sysAddon = a', dispatcher = []\<rparr>, map (\<lambda>m. CommitString p (ct_text m)) ms)"
    by auto
  with 1 show ?case by (simp del: addonStep.simps)
qed

text \<open>A message and the frame it is sent in.\<close>

definition framed :: "'h IoLib \<Rightarrow> CommitTextMsg \<Rightarrow> byte list \<Rightarrow> bool" where
  "framed L m frame \<longleftrightarrow> envelope_serialises (protobuf L) (CommitTextPayload m) \<and>
     0 < ByteSizeLong (protobuf L) (CommitTextPayload m) \<and>
     encodeFrame (protobuf L) (CommitTextPayload m) = Inr frame"

definition commitTurns :: "byte list list \<Rightarrow> ('p, 'key, 'raw) Turn list" where
  "commitTurns frames =
     map WorkerDoes (concat (map arrival frames)) @ replicate (length frames) DeliverNext"

lemma frames_typed:
  assumes "engineInv (addonEngine a)" and "session (addonEngine a) = Some s"
    and "contextsById a (sess_context s) = Some (p, Some ob)" and "objectAt W p = Some ob"
    and "readerWaiting g (addonIo a)"
    and "numbered (string_of_bytes (sess_id s)) (nextSequenceNo s) ms"
    and "list_all2 (framed L) ms frames"
  shows "\<exists>a'. playAll L W (commitTurns frames) \<lparr>sysAddon = a, dispatcher = []\<rparr> =
    Some (\<lparr>sysAddon = a', dispatcher = []\<rparr>, map (\<lambda>m. CommitString p (ct_text m)) ms)"
proof -
  have "list_all2 (\<lambda>ev frame. \<exists>env. eventEnvelope ev = Some env \<and>
      envelope_serialises (protobuf L) env \<and> 0 < ByteSizeLong (protobuf L) env \<and>
      encodeFrame (protobuf L) env = Inr frame) (map IoCommitText ms) frames"
    using assms(7) by (simp add: list_all2_map1 framed_def [abs_def])
  from frames_forwarded [OF assms(5) this, of "[]"] obtain tr' where
    sched: "schedule L (concat (map arrival frames)) (addonIo a, []) = Some (addonIo a, tr')"
    and out: "outputs tr' = map (Publish \<circ> IoCommitText) ms"
    by (auto simp: outputs_def)
  have "workerTurns (concat (map arrival frames))"
    by (auto simp: workerTurns_def arrival_def)
  from play_schedule [OF this sched, of W "[]"] out have
    "playAll L W (map WorkerDoes (concat (map arrival frames))) \<lparr>sysAddon = a, dispatcher = []\<rparr> =
     Some (\<lparr>sysAddon = a, dispatcher = map IoCommitText ms\<rparr>, [])"
    by (simp add: outputs_def flip: map_map)
  from playAll_snoc [OF this] commits_delivered [OF assms(2,1,3,4,6)]
    list_all2_lengthD [OF assms(7)] show ?thesis by (simp add: commitTurns_def)
qed

section \<open>From the key press to the session\<close>

text \<open>The context that is pressed in is watched as the object now at its address.\<close>

lemma ensure_watches:
  assumes "registryInv a" "\<And>c. findContextId p a = Some c \<Longrightarrow> contextsById a c = Some (p, ob p)"
  shows "contextsById (snd (ensureContextId ob p a)) (fst (ensureContextId ob p a)) = Some (p, ob p)"
proof (cases "leftFind (contextMap a) p")
  case None
  then show ?thesis by (simp add: ensure_new [OF assms(1)])
next
  case (Some c)
  with assms(2) show ?thesis by (simp add: ensure_old find_eq)
qed

lemma press_queues_connect:
  assumes "engineInv (addonEngine a)" "connectionState (addonEngine a) = kDisconnected"
    and "connectionConfig (addonEngine a) \<noteq> None"
    and "quiet L W" "hasFocus W p"
    and "checkKeyList W key (toggleTranscriptionKeys (configData (addonConfig a)))"
    and "resolveConnectionConfig (configWorld W) (addonConfig a) = Inr r"
    and "length (commands (addonIo a)) < 128" "operating (addonIo a)"
  shows "\<exists>a2 c. addonStep (W, KeyOp False key (Some p)) a = (a2, [FilterAndAccept]) \<and>
    connectionState (addonEngine a2) = kConnecting \<and> pendingContext (addonEngine a2) = Some c \<and>
    engineInv (addonEngine a2) \<and> genState (addonEngine a2) = genState (addonEngine a) \<and>
    contextsById a2 = contextsById (snd (ensureContextId (objectAt W) p a)) \<and>
    c = fst (ensureContextId (objectAt W) p a) \<and>
    addonIo a2 = (addonIo a)\<lparr>commands := commands (addonIo a) @ [ConnectCommand (connection r)]\<rparr>"
proof -
  obtain c b where cb: "ensureContextId (objectAt W) p a = (c, b)" by fastforce
  have b: "addonEngine b = addonEngine a" "addonConfig b = addonConfig a" "addonIo b = addonIo a"
    using ensureContextId_frame [of "objectAt W" p a] by (simp_all add: cb)
  have w: "worker W (ioCalls b) (addonIo b) = addonIo a" using assms(4) by (simp add: quiet_def b)
  obtain e1 where e1: "dispatch W (Toggle c True) b = (True, b\<lparr>addonEngine := e1,
      addonIo := (addonIo a)\<lparr>commands := commands (addonIo a) @ [ConnectCommand (connection r)]\<rparr>,
      ioCalls := ioCalls b + 1\<rparr>, [])"
    "connectionState e1 = kConnecting" "pendingContext e1 = Some c" "engineInv e1"
    "genState e1 = genState (addonEngine b)"
    using start_queues [of b W r "addonIo a" c] assms b w by (auto simp: operating_def)
  with assms(5,6) b show ?thesis
    by (simp add: handleInputContextKeyEvent_def Let_def cb)
qed

lemma session_starts:
  assumes "engineInv (addonEngine a)" "connectionState (addonEngine a) = kConnecting"
    and "pendingContext (addonEngine a) = Some c" and "quiet L W"
    and "sessionIdGenerator (engineDeps W) (genState (addonEngine a)) = (Inr sid, g)"
    and "encodeFrame (protobuf L) (StartSession \<lparr>ss_session_id = string_of_bytes sid\<rparr>) = Inr start"
    and "connected (addonIo a)" "operating (addonIo a)" "commands (addonIo a) = []"
  shows "\<exists>a' out. addonStep (W, CallbackOp IoAuthenticated) a = (a', out) \<and> committed out = [] \<and>
    session (addonEngine a') = Some \<lparr>sess_context = c, sess_id = sid, nextSequenceNo = 1\<rparr> \<and>
    engineInv (addonEngine a') \<and> contextsById a' = contextsById a \<and>
    addonIo a' = (addonIo a)\<lparr>commands := [SendCommand start]\<rparr>"
proof -
  have w: "worker W n io = io" "protobufLib W = protobuf L" for n io
    using assms(4) by (simp_all add: quiet_def)
  let ?h = "handle (engineDeps W) ConnectionAuthenticated (addonEngine a)"
  have "engineInv (fst ?h)" using assms(1) by simp
  moreover have "\<exists>l l'. snd ?h = [Log kInfo l, SendEnvelope (StartSession
      \<lparr>ss_session_id = string_of_bytes sid\<rparr>), Log kInfo l']"
    "session (fst ?h) = Some \<lparr>sess_context = c, sess_id = sid, nextSequenceNo = 1\<rparr>"
    using assms(1-3,5) by (auto simp: handle_def engine_defs engineInv_defs Let_def)
  ultimately obtain e l l' where "?h = (e, [Log kInfo l, SendEnvelope (StartSession
      \<lparr>ss_session_id = string_of_bytes sid\<rparr>), Log kInfo l'])" "engineInv e"
    "session e = Some \<lparr>sess_context = c, sess_id = sid, nextSequenceNo = 1\<rparr>"
    by (metis prod.collapse)
  with assms(6-9) show ?thesis
    by (simp add: dispatch_def dispatchOne_def applySendEnvelope_def callIo_def ioSend_def
        trySend_def commandCapacity_def operating_def emit_def w Let_def)
qed

text \<open>The turns that start a session: the key, the handshake, the authentication's callback, and the
  frame that opens the session on the wire.\<close>

definition startTurns :: "'key \<Rightarrow> 'p \<Rightarrow> byte list \<Rightarrow> ('p, 'key, 'raw) Turn list" where
  "startTurns key p bytes = [Fcitx (KeyOp False key (Some p))] @
     map WorkerDoes (handshakeTurns bytes) @ [DeliverNext] @ map WorkerDoes sendTurns"

lemma press_starts_session:
  assumes "engineInv (addonEngine a)" "connectionState (addonEngine a) = kDisconnected"
    and "connectionConfig (addonEngine a) \<noteq> None"
    and "resolveConnectionConfig (configWorld W) (addonConfig a) = Inr r"
    and "quiet L W" "hasFocus W p" "objectAt W p = Some ob"
    and "checkKeyList W key (toggleTranscriptionKeys (configData (addonConfig a)))"
    and "registryInv a" "\<And>c. findContextId p a = Some c \<Longrightarrow> contextsById a c = Some (p, Some ob)"
    and "operating (addonIo a)" "tasks (addonIo a) = []" "commands (addonIo a) = []"
      "outgoingFrames (addonIo a) = []" "\<not> writerRunning (addonIo a)"
      "\<not> connectionActive (addonIo a)"
    and "memcmp_exact (openssl L)" "endpointError L (socketPath (connection r)) = None"
    and "generateNonce (openssl L) (randState (addonIo a)) = (Inr nonce, g)"
    and "encodeFrame (protobuf L) (clientHelloEnvelope nonce) = Inr hello"
    and "helloAuthentic L (connection r) nonce reply"
    and "envelope_serialises (protobuf L) (ServerHello reply)"
      "encodeFrame (protobuf L) (ServerHello reply) = Inr bytes"
      "0 < ByteSizeLong (protobuf L) (ServerHello reply)"
    and "sessionIdGenerator (engineDeps W) (genState (addonEngine a)) = (Inr sid, g')"
    and "encodeFrame (protobuf L) (StartSession \<lparr>ss_session_id = string_of_bytes sid\<rparr>) = Inr start"
  shows "\<exists>a' out c. playAll L W (startTurns key p bytes) \<lparr>sysAddon = a, dispatcher = []\<rparr> =
      Some (\<lparr>sysAddon = a', dispatcher = []\<rparr>, FilterAndAccept # out) \<and> committed out = [] \<and>
    session (addonEngine a') = Some \<lparr>sess_context = c, sess_id = sid, nextSequenceNo = 1\<rparr> \<and>
    engineInv (addonEngine a') \<and> contextsById a' c = Some (p, Some ob) \<and>
    readerWaiting (generationCounter (addonIo a) + 1) (addonIo a')"
proof -
  define c where "c = fst (ensureContextId (objectAt W) p a)"
  have watched: "contextsById (snd (ensureContextId (objectAt W) p a)) c = Some (p, Some ob)"
    unfolding c_def using ensure_watches [OF assms(9), of p "objectAt W"] assms(7,10) by simp
  obtain a1 where 1: "addonStep (W, KeyOp False key (Some p)) a = (a1, [FilterAndAccept])"
    and a1: "connectionState (addonEngine a1) = kConnecting" "pendingContext (addonEngine a1) = Some c"
      "engineInv (addonEngine a1)" "genState (addonEngine a1) = genState (addonEngine a)"
      "contextsById a1 c = Some (p, Some ob)"
      "addonIo a1 = (addonIo a)\<lparr>commands := [ConnectCommand (connection r)]\<rparr>"
    using press_queues_connect [OF assms(1-3,5,6,8,4)] assms(11,13) watched by (auto simp: c_def)
  have "operating (addonIo a1)" using assms(11) a1(6) by (simp add: operating_def)
  then obtain io2 tr2 where 2: "schedule L (handshakeTurns bytes) (addonIo a1, []) = Some (io2, tr2)"
    and out2: "outputs tr2 = [StartWrite hello, Publish IoAuthenticated]"
    and io2: "connected io2" "readerWaiting (generationCounter (addonIo a) + 1) io2" "operating io2"
      "commands io2 = []" "outgoingFrames io2 = []" "\<not> writerRunning io2"
    using honest_handshake [OF assms(17) _ _ _ _ assms(18) _ assms(20-24), of "addonIo a1" g "[]"]
      a1(6) assms(12,14-16,19) by (auto simp: outputs_def)
  define a2 where "a2 = a1\<lparr>addonIo := io2\<rparr>"
  obtain a3 out3 where 3: "addonStep (W, CallbackOp IoAuthenticated) a2 = (a3, out3)"
      "committed out3 = []"
    and a3: "session (addonEngine a3) = Some \<lparr>sess_context = c, sess_id = sid, nextSequenceNo = 1\<rparr>"
      "engineInv (addonEngine a3)" "contextsById a3 c = Some (p, Some ob)"
      "addonIo a3 = io2\<lparr>commands := [SendCommand start]\<rparr>"
    using session_starts [of a2 c L W sid g' start] a1 io2 assms(5,25,26) by (auto simp: a2_def)
  obtain io4 tr4 where 4: "schedule L sendTurns (addonIo a3, []) = Some (io4, tr4)"
    and out4: "outputs tr4 = [StartWrite start]"
    and io4: "readerWaiting (generationCounter (addonIo a) + 1) io4"
    using send_written [of "generationCounter (addonIo a) + 1" "addonIo a3" start L "[]"] io2 a3(4)
    by (auto simp: outputs_def readerWaiting_def operating_def)
  have "playAll L W [Fcitx (KeyOp False key (Some p))] \<lparr>sysAddon = a, dispatcher = []\<rparr> =
      Some (\<lparr>sysAddon = a1, dispatcher = []\<rparr>, [FilterAndAccept])"
    using 1 by (simp del: addonStep.simps)
  moreover have "playAll L W (map WorkerDoes (handshakeTurns bytes)) \<lparr>sysAddon = a1, dispatcher = []\<rparr> =
      Some (\<lparr>sysAddon = a2, dispatcher = [IoAuthenticated]\<rparr>, [])"
    using play_schedule [OF _ 2, of W "[]"] out2
    by (auto simp: handshakeTurns_def arrival_def numeral_3_eq_3 outputs_def a2_def)
  moreover have "playAll L W [DeliverNext] \<lparr>sysAddon = a2, dispatcher = [IoAuthenticated]\<rparr> =
      Some (\<lparr>sysAddon = a3, dispatcher = []\<rparr>, out3)"
    using 3 by (simp del: addonStep.simps)
  moreover have "playAll L W (map WorkerDoes sendTurns) \<lparr>sysAddon = a3, dispatcher = []\<rparr> =
      Some (\<lparr>sysAddon = a3\<lparr>addonIo := io4\<rparr>, dispatcher = []\<rparr>, [])"
    using play_schedule [OF _ 4, of W "[]"] out4 by (auto simp: sendTurns_def outputs_def)
  ultimately have "playAll L W (startTurns key p bytes) \<lparr>sysAddon = a, dispatcher = []\<rparr> =
    Some (\<lparr>sysAddon = a3\<lparr>addonIo := io4\<rparr>, dispatcher = []\<rparr>, [FilterAndAccept] @ [] @ out3 @ [])"
    unfolding startTurns_def by (intro playAll_then)
  with 3(2) a3(1-3) io4 show ?thesis
    by (intro exI [of _ "a3\<lparr>addonIo := io4\<rparr>"] exI [of _ out3] exI [of _ c]) simp
qed

text \<open>From the key press to the text, with any peer that knows the token.\<close>

lemma press_types:
  assumes "engineInv (addonEngine a)" "connectionState (addonEngine a) = kDisconnected"
    and "connectionConfig (addonEngine a) \<noteq> None"
    and "resolveConnectionConfig (configWorld W) (addonConfig a) = Inr r"
    and "quiet L W" "hasFocus W p" "objectAt W p = Some ob"
    and "checkKeyList W key (toggleTranscriptionKeys (configData (addonConfig a)))"
    and "registryInv a" "\<And>c. findContextId p a = Some c \<Longrightarrow> contextsById a c = Some (p, Some ob)"
    and "operating (addonIo a)" "tasks (addonIo a) = []" "commands (addonIo a) = []"
      "outgoingFrames (addonIo a) = []" "\<not> writerRunning (addonIo a)"
      "\<not> connectionActive (addonIo a)"
    and "memcmp_exact (openssl L)" "endpointError L (socketPath (connection r)) = None"
    and "generateNonce (openssl L) (randState (addonIo a)) = (Inr nonce, g)"
    and "encodeFrame (protobuf L) (clientHelloEnvelope nonce) = Inr hello"
    and "helloAuthentic L (connection r) nonce reply"
    and "envelope_serialises (protobuf L) (ServerHello reply)"
      "encodeFrame (protobuf L) (ServerHello reply) = Inr bytes"
      "0 < ByteSizeLong (protobuf L) (ServerHello reply)"
    and "sessionIdGenerator (engineDeps W) (genState (addonEngine a)) = (Inr sid, g')"
    and "encodeFrame (protobuf L) (StartSession \<lparr>ss_session_id = string_of_bytes sid\<rparr>) = Inr start"
    and "numbered (string_of_bytes sid) 1 ms" "list_all2 (framed L) ms frames"
  shows "\<exists>s pre. playAll L W (startTurns key p bytes @ commitTurns frames)
      \<lparr>sysAddon = a, dispatcher = []\<rparr> =
      Some (s, pre @ map (\<lambda>m. CommitString p (ct_text m)) ms) \<and>
    FilterAndAccept \<in> set pre \<and> committed pre = []"
proof -
  obtain a1 out c where start: "playAll L W (startTurns key p bytes)
      \<lparr>sysAddon = a, dispatcher = []\<rparr> =
      Some (\<lparr>sysAddon = a1, dispatcher = []\<rparr>, FilterAndAccept # out)" "committed out = []"
    and a1: "session (addonEngine a1) = Some \<lparr>sess_context = c, sess_id = sid, nextSequenceNo = 1\<rparr>"
      "engineInv (addonEngine a1)" "contextsById a1 c = Some (p, Some ob)"
      "readerWaiting (generationCounter (addonIo a) + 1) (addonIo a1)"
    using press_starts_session [OF assms(1-26)] by blast
  obtain a2 where "playAll L W (commitTurns frames) \<lparr>sysAddon = a1, dispatcher = []\<rparr> =
      Some (\<lparr>sysAddon = a2, dispatcher = []\<rparr>, map (\<lambda>m. CommitString p (ct_text m)) ms)"
    using frames_typed [OF a1(2,1) _ assms(7) a1(4) _ assms(28)] a1(3) assms(27) by auto
  from playAll_then [OF start(1) this] start(2) show ?thesis
    by (intro exI [of _ "FilterAndAccept # out"] exI) auto
qed

section \<open>The press that ends the session\<close>

text \<open>While a session runs, the key ends it from whatever context it is pressed in.\<close>

lemma press_ends_session:
  assumes "engineInv (addonEngine a)" "session (addonEngine a) = Some s" and "quiet L W"
    and "checkKeyList W key (toggleTranscriptionKeys (configData (addonConfig a)))"
    and "encodeFrame (protobuf L) (InterruptSession \<lparr>is_session_id = string_of_bytes (sess_id s),
      is_reason = INTERRUPT_REASON_TOGGLE\<rparr>) = Inr stop"
    and "connected (addonIo a)" "operating (addonIo a)" "commands (addonIo a) = []"
  shows "\<exists>a' out. addonStep (W, KeyOp False key (Some p)) a = (a', out) \<and>
    FilterAndAccept \<in> set out \<and> committed out = [] \<and> session (addonEngine a') = None \<and>
    pendingContext (addonEngine a') = None \<and> connectionState (addonEngine a') = kReady \<and>
    engineInv (addonEngine a') \<and> addonIo a' = (addonIo a)\<lparr>commands := [SendCommand stop]\<rparr>"
proof -
  obtain c b where cb: "ensureContextId (objectAt W) p a = (c, b)" by fastforce
  have b: "addonEngine b = addonEngine a" "addonConfig b = addonConfig a" "addonIo b = addonIo a"
    using ensureContextId_frame [of "objectAt W" p a] by (simp_all add: cb)
  have w: "worker W n io = io" "protobufLib W = protobuf L" for n io
    using assms(3) by (simp_all add: quiet_def)
  let ?stop = "InterruptSession \<lparr>is_session_id = string_of_bytes (sess_id s),
      is_reason = INTERRUPT_REASON_TOGGLE\<rparr>"
  let ?h = "handle (engineDeps W) (Toggle c (hasFocus W p)) (addonEngine a)"
  have "engineInv (fst ?h)" using assms(1) by simp
  moreover have "\<exists>l. snd ?h = [SendEnvelope ?stop, Log kInfo l, AcceptKey]"
    "session (fst ?h) = None" "pendingContext (fst ?h) = None" "connectionState (fst ?h) = kReady"
    using assms(1,2) by (auto simp: handle_def engine_defs engineInv_defs Let_def)
  ultimately obtain e l where "?h = (e, [SendEnvelope ?stop, Log kInfo l, AcceptKey])"
    "engineInv e" "session e = None" "pendingContext e = None" "connectionState e = kReady"
    by (metis prod.collapse)
  with assms(4-8) b w show ?thesis
    by (simp add: handleInputContextKeyEvent_def cb dispatch_def dispatchOne_def
        applySendEnvelope_def callIo_def ioSend_def trySend_def commandCapacity_def
        operating_def emit_def Let_def)
qed

section \<open>The turns of a reload that a key press follows\<close>

lemma reload_queues_disconnect:
  assumes "engineInv (addonEngine a)" and "connectionState (addonEngine a) = kReady"
    and "quiet L W" and "cfg = configLoad (configWorld W) (addonConfig a)"
    and "resolveConnectionConfig (configWorld W) cfg = Inr r"
    and "commands (addonIo a) = []" "operating (addonIo a)"
  shows "\<exists>a1 out. addonStep (W, ReloadConfigOp) a = (a1, out) \<and> addonConfig a1 = cfg \<and>
    connectionState (addonEngine a1) = kDisconnected \<and> connectionConfig (addonEngine a1) \<noteq> None \<and>
    engineInv (addonEngine a1) \<and> addonIo a1 = (addonIo a)\<lparr>commands := [DisconnectCommand]\<rparr>"
proof -
  let ?e1 = "fst (handle (engineDeps W) (ConnectionConfigured (ConfigOk (connection r))) (addonEngine a))"
  have w: "worker W n io = io" for n io using assms(3) by (simp add: quiet_def)
  have "\<exists>out. addonStep (W, ReloadConfigOp) a =
      (a\<lparr>addonConfig := cfg, addonEngine := ?e1,
         addonIo := (addonIo a)\<lparr>commands := [DisconnectCommand]\<rparr>, ioCalls := ioCalls a + 1\<rparr>, out)"
    using assms
    by (simp add: addonReloadConfig_def reloadResolvedConfig_def configured_dispatch Let_def w
        ioDisconnect_def trySend_def commandCapacity_def operating_def)
  moreover have "connectionState ?e1 = kDisconnected" "connectionConfig ?e1 \<noteq> None"
    by (simp_all add: handle_def engine_defs Let_def)
  moreover have "engineInv ?e1" using assms(1) by simp
  ultimately show ?thesis by fastforce
qed

lemma worker_takes_both:
  assumes "commands (addonIo a) = [DisconnectCommand, ConnectCommand cfg]"
    and "connected (addonIo a)" "operating (addonIo a)"
  shows "\<exists>io. connectionActive io \<and>
    (ConnStart (generationCounter (addonIo a) + 1) cfg, True) \<in> set (tasks io) \<and>
    playAll L W [WorkerDoes Take, WorkerDoes Take] \<lparr>sysAddon = a, dispatcher = []\<rparr> =
      Some (\<lparr>sysAddon = a\<lparr>addonIo := io\<rparr>, dispatcher = [IoClosed]\<rparr>, [])"
proof -
  obtain io3 where 3: "receiveCommand DisconnectCommand
      ((addonIo a)\<lparr>commands := [ConnectCommand cfg]\<rparr>) = (io3, [Publish IoClosed])"
    and io3: "commands io3 = [ConnectCommand cfg]" "\<not> stopping io3" "actorRunning io3" "\<not> contextStopped io3"
      "\<not> connectionActive io3" "generationCounter io3 = generationCounter (addonIo a)"
    using assms
    by (simp add: operating_def receiveCommand_def closeConnection_def publish_def Let_def)
  obtain io4 where 4: "receiveCommand (ConnectCommand cfg) (io3\<lparr>commands := []\<rparr>) = (io4, [])"
    and io4: "connectionActive io4"
      "(ConnStart (generationCounter (addonIo a) + 1) cfg, True) \<in> set (tasks io4)"
    using io3 by (simp add: receiveCommand_def spawn_def Let_def)
  from 3 4 io3(1,3,4) assms(1,3) io4 show ?thesis
    by (intro exI [of _ io4]) (simp add: operating_def)
qed

end
