(* ===== verification/Demo.thy ===== *)
theory Demo
  imports Dictation Sizes
begin

text \<open>
  One complete dictation played from construction to the committed text, and the states of it
  that instantiate the properties of the whole program.
\<close>

definition demoMessage :: CommitTextMsg where
  "demoMessage = \<lparr>ct_session_id = string_of_bytes (replicate 16 65), ct_sequence_no = 1,
     ct_text = ''hi''\<rparr>"

definition demoLib :: "unit IoLib" where
  "demoLib =
     \<lparr>protobuf = \<lparr>ByteSizeLong = (\<lambda>e. 1), SerializeToArray = (\<lambda>e. Some [5]),
        ParseFromArray = (\<lambda>bs. if bs = [5] then Some (ServerHello exampleHello) else
          if bs = [6] then Some (CommitTextPayload demoMessage) else None),
        hostEndian = LittleEndian\<rparr>,
      openssl = \<lparr>RAND_bytes = (\<lambda>g n. ((1, \<lambda>i. 4), g)),
        HMAC_sha256 = (\<lambda>k m. if k = bytes_of_string ''secret'' then Some [1, 2, 3] else Some [0]),
        CRYPTO_memcmp = (\<lambda>a b. if a = b then 0 else 1)\<rparr>,
      endpointError = (\<lambda>path. None)\<rparr>"

definition demoWorld :: "(nat, nat, nat, nat, nat, unit, unit) AddonWorld" where
  "demoWorld = exampleAddonWorld\<lparr>protobufLib := protobuf demoLib\<rparr>"

lemma demo_quiet: "quiet demoLib demoWorld"
  by (simp add: quiet_def demoWorld_def)

lemma demoLib_simps [simp]:
  "encodeFrame (protobuf demoLib) e = Inr [0, 0, 0, 1, 5]"
  "generateNonce (openssl demoLib) g = (Inr (replicate 32 4), g)"
  "decodeFrame (protobuf demoLib) [5] = Inr (ServerHello exampleHello)"
  "decodeFrame (protobuf demoLib) [6] = Inr (CommitTextPayload demoMessage)"
  "endpointError demoLib p = None"
  by (simp_all add: demoLib_def encodeFrame_def decodeFrame_def kMaxFrameSize_def
      putFrameSize_rev bytesLE_def generateNonce_def kNonceSize_def map_replicate_const)

definition demoConfig :: ConnectionConfig where
  "demoConfig = \<lparr>socketPath = ''/run/s'', authToken = ''secret'', connectTimeout = 1000\<rparr>"

lemma demoLib_validates [simp]:
  "currentConfig io = Some demoConfig \<Longrightarrow> clientNonce io = Some n \<Longrightarrow>
     validateServerHello demoLib exampleHello io = Inr ()"
  by (auto simp: validateServerHello_def exampleHello_def copyExactBytes_def kNonceSize_def
      computeServerProof_def demoConfig_def maxInt_def demoLib_def proofMatches_def)

definition demoStart :: "(nat, nat, nat, unit, unit) System" where
  "demoStart = \<lparr>sysAddon = fst (constructAddon demoWorld () ()), dispatcher = []\<rparr>"

lemma demoStart_reachable:
  "reachable demoLib demoStart [] [((demoWorld, ReloadConfigOp), constructAddon demoWorld () ())]"
  using reachable.construct [of demoWorld "()" "()" "fst (constructAddon demoWorld () ())"
      "snd (constructAddon demoWorld () ())" demoLib]
  by (simp add: demoStart_def)

lemma demo_resolves:
  "configLoad exampleWorld initConfig = \<lparr>configData = \<lparr>toggleTranscriptionKeys = [],
     cfgSocketPath = ''/run/s'', cfgAuthTokenEnv = ''TOKEN'', cfgConnectTimeoutMs = 1000\<rparr>,
     resolvedSocketPath = ''/run/s'', socketPathValid = True\<rparr>"
  "resolveConnectionConfig exampleWorld (configLoad exampleWorld initConfig) =
     Inr \<lparr>connection = demoConfig, socketPathSource = ''config'',
       authTokenSource = ''configured env var TOKEN''\<rparr>"
  by (simp_all add: exampleWorld_def initConfig_def defaultConfigData_def config_defs c_str_def
      kSocketPathEnv_def kAuthTokenEnv_def demoConfig_def Let_def)


text \<open>
  A demonstration: construction, a focused context, the key, the handshake, the session and one
  CommitText frame; each phase ends in the state of the next.
\<close>

lemma demoWorld_sel [simp]:
  "objectAt demoWorld = [42 \<mapsto> 1]" "hasFocus demoWorld p" "checkKeyList demoWorld k ks"
  "configWorld demoWorld = exampleWorld" "engineDeps demoWorld = exampleDeps"
  "protobufLib demoWorld = protobuf demoLib" "worker demoWorld n io = io"
  by (simp_all add: demoWorld_def exampleAddonWorld_def)

definition demoAddon1 :: "(nat, nat, nat, unit, unit) Addon" where
  "demoAddon1 = \<lparr>nextContextId = 1, contextMap = [], contextsById = Map.empty,
     addonConfig = configLoad exampleWorld initConfig,
     addonEngine = (initEngine ())\<lparr>connectionConfig := Some demoConfig\<rparr>,
     addonIo = initIo (), ioCalls = 0\<rparr>"

lemma demo1: "fst (constructAddon demoWorld () ()) = demoAddon1"
  by (simp add: constructAddon_def addonReloadConfig_def reloadResolvedConfig_def initAddon_def
      demo_resolves(2) configured_dispatch initEngine_def handle_def engine_defs Let_def
      demoAddon1_def)

lemmas adapter_defs = handleInputContextKeyEvent_def handleInputContextFocusInEvent_def
  ensureContextId_def leftFind_def rightFind_def bimapInsert_def watch_def dispatch_def
  dispatchOne_def handle_def addon_defs engine_defs io_defs commandCapacity_def

definition demoAddon2 :: "(nat, nat, nat, unit, unit) Addon" where
  "demoAddon2 = \<lparr>nextContextId = 2, contextMap = [(42, 1)], contextsById = [1 \<mapsto> (42, Some 1)],
     addonConfig = configLoad exampleWorld initConfig,
     addonEngine = (initEngine ())\<lparr>connectionConfig := Some demoConfig, contexts := [1 \<mapsto> \<lparr>alive = True\<rparr>],
       focusedContext := Some 1, connectionState := kConnecting, pendingContext := Some 1\<rparr>,
     addonIo = (initIo ())\<lparr>commands := [ConnectCommand demoConfig]\<rparr>, ioCalls = 1\<rparr>"

lemma demo2:
  "playAll demoLib demoWorld [Fcitx (FocusInOp (Some 42)), Fcitx (KeyOp False 0 (Some 42))]
     \<lparr>sysAddon = demoAddon1, dispatcher = []\<rparr> =
   Some (\<lparr>sysAddon = demoAddon2, dispatcher = []\<rparr>, [FilterAndAccept])"
  by (simp add: demoAddon1_def demoAddon2_def adapter_defs demo_resolves(2) initEngine_def initIo_def Let_def)


definition demoIo3 :: "unit Io" where
  "demoIo3 = (initIo ())\<lparr>connectionActive := True, generationCounter := 1, activeGeneration := 1,
     currentConfig := Some demoConfig, socketOpen := True, connected := True,
     tasks := [(ReadStart 1, True)]\<rparr>"

lemma demo3:
  "playAll demoLib demoWorld (map WorkerDoes [Take, Continue 0 (Completed []),
       Continue 0 (Completed []), Continue 0 (Completed []),
       Continue 0 (Completed [0, 0, 0, 1]), Continue 0 (Completed [5])])
     \<lparr>sysAddon = demoAddon2, dispatcher = []\<rparr> =
   Some (\<lparr>sysAddon = demoAddon2\<lparr>addonIo := demoIo3\<rparr>, dispatcher = [IoAuthenticated]\<rparr>, [])"
  by (simp add: demoAddon2_def demoIo3_def schedule_defs Let_def)

definition demoAddon4 :: "(nat, nat, nat, unit, unit) Addon" where
  "demoAddon4 = demoAddon2\<lparr>addonEngine := (addonEngine demoAddon2)\<lparr>connectionState := kReady,
       pendingContext := None,
       session := Some \<lparr>sess_context = 1, sess_id = replicate 16 65, nextSequenceNo = 1\<rparr>\<rparr>,
     addonIo := demoIo3\<lparr>commands := [SendCommand [0, 0, 0, 1, 5]]\<rparr>, ioCalls := 2\<rparr>"

lemma demo4:
  "\<exists>out. playAll demoLib demoWorld [DeliverNext]
     \<lparr>sysAddon = demoAddon2\<lparr>addonIo := demoIo3\<rparr>, dispatcher = [IoAuthenticated]\<rparr> =
   Some (\<lparr>sysAddon = demoAddon4, dispatcher = []\<rparr>, out) \<and> committed out = []"
  by (simp add: demoAddon2_def demoAddon4_def demoIo3_def adapter_defs initEngine_def initIo_def
      exampleDeps_def Let_def)

definition demoIo5 :: "unit Io" where
  "demoIo5 = (addonIo demoAddon4)\<lparr>tasks := [(ReadHeader 1, True)]\<rparr>"

lemma demo5:
  "playAll demoLib demoWorld (map WorkerDoes [Continue 0 (Completed []),
       Continue 0 (Completed [0, 0, 0, 1]), Continue 0 (Completed [6])])
     \<lparr>sysAddon = demoAddon4, dispatcher = []\<rparr> =
   Some (\<lparr>sysAddon = demoAddon4\<lparr>addonIo := demoIo5\<rparr>, dispatcher = [IoCommitText demoMessage]\<rparr>, [])"
  by (simp add: demoAddon2_def demoAddon4_def demoIo3_def demoIo5_def schedule_defs Let_def)

lemma demo6:
  "\<exists>s out. playAll demoLib demoWorld [DeliverNext]
     \<lparr>sysAddon = demoAddon4\<lparr>addonIo := demoIo5\<rparr>, dispatcher = [IoCommitText demoMessage]\<rparr> =
   Some (s, out) \<and> committed out = [''hi'']"
  by (simp add: demoAddon2_def demoAddon4_def demoIo3_def demoIo5_def adapter_defs initEngine_def
      demoMessage_def weakGet_def Let_def)

definition demoTurns :: "(nat, nat, nat) Turn list" where
  "demoTurns = [Fcitx (FocusInOp (Some 42)), Fcitx (KeyOp False 0 (Some 42))] @
     (map WorkerDoes [Take, Continue 0 (Completed []), Continue 0 (Completed []),
       Continue 0 (Completed []), Continue 0 (Completed [0, 0, 0, 1]), Continue 0 (Completed [5])] @
     ([DeliverNext] @ (map WorkerDoes [Continue 0 (Completed []),
       Continue 0 (Completed [0, 0, 0, 1]), Continue 0 (Completed [6])] @ [DeliverNext])))"

lemma demo_plays:
  "\<exists>s out. playAll demoLib demoWorld demoTurns demoStart = Some (s, out) \<and> committed out = [''hi'']"
proof -
  obtain s6 out4 out6 where
    4: "playAll demoLib demoWorld [DeliverNext]
       \<lparr>sysAddon = demoAddon2\<lparr>addonIo := demoIo3\<rparr>, dispatcher = [IoAuthenticated]\<rparr> =
       Some (\<lparr>sysAddon = demoAddon4, dispatcher = []\<rparr>, out4)" "committed out4 = []" and
    6: "playAll demoLib demoWorld [DeliverNext]
       \<lparr>sysAddon = demoAddon4\<lparr>addonIo := demoIo5\<rparr>, dispatcher = [IoCommitText demoMessage]\<rparr> =
       Some (s6, out6)" "committed out6 = [''hi'']"
    using demo4 demo6 by blast
  have "playAll demoLib demoWorld demoTurns demoStart = Some (s6, [FilterAndAccept] @ out4 @ out6)"
    unfolding demoTurns_def demoStart_def demo1
    by (simp only: playAll_append [OF demo2] playAll_append [OF demo3] playAll_append [OF 4(1)]
        playAll_append [OF demo5] 6(1)) simp
  with 4(2) 6(2) show ?thesis by simp
qed

lemma demo_reachable:
  "\<exists>s tr (log :: (nat, nat, nat, nat, nat, unit, unit) log).
     reachable demoLib s tr log \<and> committed (allOuts log) = [''hi'']"
proof -
  obtain s out where p: "playAll demoLib demoWorld demoTurns demoStart = Some (s, out)"
    "committed out = [''hi'']" using demo_plays by blast
  from playAll_reachable [OF demoStart_reachable demo_quiet p(1)] obtain tr' log' where
    "reachable demoLib s tr' ([((demoWorld, ReloadConfigOp), constructAddon demoWorld () ())] @ log')"
    "allOuts log' = out" by blast
  with p(2) construct_no_commit [of demoWorld "()" "()"] show ?thesis by fastforce
qed

definition lateAddon :: "(nat, nat, nat, unit, unit) Addon" where
  "lateAddon = demoAddon4\<lparr>addonIo := demoIo5\<lparr>commands := []\<rparr>\<rparr>"

lemma lateAddon_ready:
  "engineInv (addonEngine lateAddon)" "connectionState (addonEngine lateAddon) = kReady"
  "connected (addonIo lateAddon)" "commands (addonIo lateAddon) = []"
  "operating (addonIo lateAddon)"
  by (simp_all add: lateAddon_def demoAddon4_def demoAddon2_def demoIo5_def demoIo3_def
      initIo_def initEngine_def engineInv_defs operating_def)

lemma lateAddon_resolves:
  "\<exists>r. resolveConnectionConfig (configWorld demoWorld)
     (configLoad (configWorld demoWorld) (addonConfig lateAddon)) = Inr r"
  by (simp add: lateAddon_def demoAddon4_def demoAddon2_def demo_resolves(1))
     (simp add: exampleWorld_def config_defs c_str_def kSocketPathEnv_def kAuthTokenEnv_def)

definition dictationLib :: "unit IoLib" where
  "dictationLib = demoLib\<lparr>protobuf := (protobuf demoLib)\<lparr>SerializeToArray := (\<lambda>e. Some [6])\<rparr>\<rparr>"

lemma dictationLib_frames:
  "envelope_serialises (protobuf dictationLib) (CommitTextPayload demoMessage)"
  "0 < ByteSizeLong (protobuf dictationLib) (CommitTextPayload demoMessage)"
  "encodeFrame (protobuf dictationLib) (CommitTextPayload demoMessage) = Inr [0, 0, 0, 1, 6]"
  by (simp_all add: dictationLib_def demoLib_def envelope_serialises_def encodeFrame_def
      kMaxFrameSize_def putFrameSize_rev bytesLE_def)

lemma lateAddon_session:
  "session (addonEngine lateAddon) =
     Some \<lparr>sess_context = 1, sess_id = replicate 16 65, nextSequenceNo = 1\<rparr>"
  "contextsById lateAddon 1 = Some (42, Some 1)" "readerWaiting 1 (addonIo lateAddon)"
  by (simp_all add: lateAddon_def demoAddon4_def demoAddon2_def demoIo5_def demoIo3_def
      initIo_def initEngine_def readerWaiting_def)

lemma lateAddon_writer:
  "outgoingFrames (addonIo lateAddon) = []" "\<not> writerRunning (addonIo lateAddon)"
  by (simp_all add: lateAddon_def demoAddon4_def demoAddon2_def demoIo5_def demoIo3_def initIo_def)

text \<open>The ClientHello of the demonstration is being written.\<close>

lemma demo_hello_written:
  "\<exists>s tr l (log :: (nat, nat, nat, nat, nat, unit, unit) log).
     reachable demoLib s tr log \<and> (l, [StartWrite [0, 0, 0, 1, 5]]) \<in> set tr"
proof -
  have start: "demoStart = \<lparr>sysAddon = demoAddon1, dispatcher = []\<rparr>"
    by (simp add: demoStart_def demo1)
  obtain tr and log :: "(nat, nat, nat, nat, nat, unit, unit) log"
    where r: "reachable demoLib \<lparr>sysAddon = demoAddon2, dispatcher = []\<rparr> tr log"
    using playAll_reachable [OF demoStart_reachable demo_quiet, unfolded start, OF demo2] by blast
  obtain io tr' l where s: "schedule demoLib [Take, Continue 0 (Completed []), Continue 0 (Completed [])]
      (addonIo demoAddon2, tr) = Some (io, tr')" "(l, [StartWrite [0, 0, 0, 1, 5]]) \<in> set tr'"
    by (simp add: demoAddon2_def schedule_defs Let_def) blast
  obtain s' where "reachable demoLib s' tr' log"
    using reachable_schedule [OF r _ _, of "[Take, Continue 0 (Completed []), Continue 0 (Completed [])]"]
      s(1) by auto
  with s(2) show ?thesis by blast
qed

text \<open>A transcriber that knows the token, and the addon as it is after construction.\<close>

definition honestDemo :: "unit IoLib" where
  "honestDemo = demoLib\<lparr>protobuf := (protobuf demoLib)\<lparr>SerializeToArray := (\<lambda>e.
     case e of ServerHello _ \<Rightarrow> Some [5] | CommitTextPayload _ \<Rightarrow> Some [6] | _ \<Rightarrow> Some [7])\<rparr>\<rparr>"

definition honestWorld :: "(nat, nat, nat, nat, nat, unit, unit) AddonWorld" where
  "honestWorld = demoWorld\<lparr>protobufLib := protobuf honestDemo\<rparr>"

lemma honestWorld_sel [simp]:
  "objectAt honestWorld = [42 \<mapsto> 1]" "hasFocus honestWorld p" "checkKeyList honestWorld k ks"
  "configWorld honestWorld = exampleWorld" "engineDeps honestWorld = exampleDeps"
  "quiet honestDemo honestWorld"
  by (simp_all add: honestWorld_def quiet_def)

lemma honestDemo_facts:
  "memcmp_exact (openssl honestDemo)" "endpointError honestDemo file = None"
  "generateNonce (openssl honestDemo) g = (Inr (replicate 32 4), g)"
  "encodeFrame (protobuf honestDemo) (clientHelloEnvelope nonce) = Inr [0, 0, 0, 1, 7]"
  "helloAuthentic honestDemo demoConfig nonce exampleHello"
  "envelope_serialises (protobuf honestDemo) (ServerHello exampleHello)"
  "encodeFrame (protobuf honestDemo) (ServerHello exampleHello) = Inr [0, 0, 0, 1, 5]"
  "0 < ByteSizeLong (protobuf honestDemo) e"
  "encodeFrame (protobuf honestDemo) (StartSession m) = Inr [0, 0, 0, 1, 7]"
  "framed honestDemo demoMessage [0, 0, 0, 1, 6]"
  by (simp_all add: honestDemo_def demoLib_def memcmp_exact_def encodeFrame_def clientHelloEnvelope_def
      kMaxFrameSize_def putFrameSize_rev bytesLE_def generateNonce_def kNonceSize_def
      map_replicate_const helloAuthentic_def exampleHello_def demoConfig_def maxInt_def
      envelope_serialises_def framed_def)

lemma demoAddon1_facts:
  "engineInv (addonEngine demoAddon1)" "connectionState (addonEngine demoAddon1) = kDisconnected"
  "connectionConfig (addonEngine demoAddon1) \<noteq> None" "registryInv demoAddon1"
  "findContextId p demoAddon1 = None" "operating (addonIo demoAddon1)"
  "tasks (addonIo demoAddon1) = []" "commands (addonIo demoAddon1) = []"
  "outgoingFrames (addonIo demoAddon1) = []" "\<not> writerRunning (addonIo demoAddon1)"
  "\<not> connectionActive (addonIo demoAddon1)"
  "addonConfig demoAddon1 = configLoad exampleWorld initConfig"
  by (simp_all add: demoAddon1_def initEngine_def initIo_def engineInv_defs registryInv_def
      findContextId_def leftFind_def operating_def)

text \<open>The same addon with the default generator of session ids.\<close>

definition ownWorld :: "(nat, nat, nat, nat, nat, unit, unit) AddonWorld" where
  "ownWorld = honestWorld\<lparr>engineDeps := exampleDeps
     \<lparr>sessionIdGenerator := generateSessionId (openssl demoLib)\<rparr>\<rparr>"

lemma ownWorld_sel [simp]:
  "objectAt ownWorld = [42 \<mapsto> 1]" "hasFocus ownWorld p" "checkKeyList ownWorld k ks"
  "configWorld ownWorld = exampleWorld" "quiet honestDemo ownWorld"
  "ownGenerator (openssl demoLib) (engineDeps ownWorld)"
  by (simp_all add: ownWorld_def honestWorld_def demoWorld_def exampleAddonWorld_def quiet_def
      ownGenerator_def)

lemma own_construct: "fst (constructAddon ownWorld () ()) = demoAddon1"
  by (simp add: constructAddon_def addonReloadConfig_def reloadResolvedConfig_def initAddon_def
      demo_resolves(2) configured_dispatch initEngine_def handle_def engine_defs Let_def
      demoAddon1_def)

lemma own_session:
  "\<exists>s tr (log :: (nat, nat, nat, nat, nat, unit, unit) log) ss. reachable honestDemo s tr log \<and>
     session (addonEngine (sysAddon s)) = Some ss \<and>
     (\<forall>W \<in> worldsOf log. ownGenerator (openssl demoLib) (engineDeps W))"
proof -
  have "\<exists>sid. sessionIdGenerator (engineDeps ownWorld) () = (Inr sid, ())"
    by (simp add: ownWorld_def demoLib_def generateSessionId_def Let_def)
  then obtain sid where sid: "sessionIdGenerator (engineDeps ownWorld)
      (genState (addonEngine demoAddon1)) = (Inr sid, ())" by auto
  obtain a out c where p: "playAll honestDemo ownWorld (startTurns 0 42 [0, 0, 0, 1, 5])
      \<lparr>sysAddon = demoAddon1, dispatcher = []\<rparr> =
      Some (\<lparr>sysAddon = a, dispatcher = []\<rparr>, FilterAndAccept # out)"
    "session (addonEngine a) = Some \<lparr>sess_context = c, sess_id = sid, nextSequenceNo = 1\<rparr>"
    using press_starts_session [of demoAddon1 ownWorld _ honestDemo 42 1 0 "replicate 32 4" "()"
        "[0, 0, 0, 1, 7]" exampleHello "[0, 0, 0, 1, 5]" sid "()" "[0, 0, 0, 1, 7]"]
      honestDemo_facts demoAddon1_facts demo_resolves(2) sid
    by fastforce
  have "constructAddon ownWorld () () = (demoAddon1, snd (constructAddon ownWorld () ()))"
    by (metis own_construct prod.collapse)
  from playAll_reachable [OF reachable.construct [OF this, of honestDemo] _ p(1)] obtain tr' log'
    where "reachable honestDemo \<lparr>sysAddon = a, dispatcher = []\<rparr> tr'
      ([((ownWorld, ReloadConfigOp), demoAddon1, snd (constructAddon ownWorld () ()))] @ log')"
      "list_all (\<lambda>x. fst (fst x) = ownWorld) log'" by auto
  moreover from this(2) have "W = ownWorld" if "W \<in> worldsOf
      ([((ownWorld, ReloadConfigOp), demoAddon1, snd (constructAddon ownWorld () ()))] @ log')" for W
    using that by (auto simp: worldsOf_def list_all_iff)
  ultimately show ?thesis using p(2) by (metis System.select_convs(1) ownWorld_sel(6))
qed

end
