(* ===== verification/Partners.thy ===== *)
theory Partners
  imports Conversation Demo
begin

text \<open>
  The addon and the repository's transcriber as two programs over one socket: their framings
  agree, and what the transcriber answers to the bytes the addon writes is what the dictation's
  turns need.
\<close>

section \<open>Framings\<close>

text \<open>
  C39. The two programs frame alike. The transcriber writes an envelope exactly as the addon does,
  except that it refuses an empty payload; and it reads any four header bytes and what follows
  as the addon's reader does on a host of either byte order: the same sizes are refused, as many
  bytes are awaited, and the payload is parsed whole.
\<close>

theorem framings_agree:
  assumes "envelope_serialises pb env" and "length header = 4"
    and "n = unat (getFrameSize h header)"
  shows "(write_envelope pb env = Inr frame \<longleftrightarrow>
      encodeFrame pb env = Inr frame \<and> 0 < ByteSizeLong pb env) \<and>
    read_envelope pb (header @ rest) =
      (if invalidFrameSize n then Inl (ValueError ''invalid frame size'')
       else if length rest < n then Inl IncompleteReadError
       else case decodeFrame pb (take n rest) of
              Inl _ \<Rightarrow> Inl (ValueError ''invalid protobuf payload'')
            | Inr envelope \<Rightarrow> Inr (envelope, drop n rest))"
proof
  show "write_envelope pb env = Inr frame \<longleftrightarrow>
      encodeFrame pb env = Inr frame \<and> 0 < ByteSizeLong pb env"
    by (rule written_encodes [OF assms(1)])
  have "read_exact (header @ rest) 4 = Inr (header, rest)"
    using assms(2) by (simp add: read_exact_def)
  moreover have "unpackI header = n"
    using assms(2,3) by (simp add: unpackI_frameSize [of _ h])
  ultimately show "read_envelope pb (header @ rest) =
      (if invalidFrameSize n then Inl (ValueError ''invalid frame size'')
       else if length rest < n then Inl IncompleteReadError
       else case decodeFrame pb (take n rest) of
              Inl _ \<Rightarrow> Inl (ValueError ''invalid protobuf payload'')
            | Inr envelope \<Rightarrow> Inr (envelope, drop n rest))"
    by (simp add: read_envelope_def read_exact_def invalidFrameSize_def MAX_FRAME_SIZE_def
        kMaxFrameSize_def decodeFrame_def split: option.split)
qed

theorem framings_agree_witness:
  "write_envelope (protobuf honestDemo) (CommitTextPayload demoMessage) = Inr [0, 0, 0, 1, 6] \<and>
   read_envelope (protobuf honestDemo) [0, 0, 0, 1, 6, 9] = Inr (CommitTextPayload demoMessage, [9])"
  using framings_agree [of "protobuf honestDemo" "CommitTextPayload demoMessage" "[0, 0, 0, 1]" 1
      LittleEndian "[0, 0, 0, 1, 6]" "[6, 9]"] honestDemo_facts(10)
  by (simp add: framed_def invalidFrameSize_def kMaxFrameSize_def getFrameSize_rev u32OfLE_def
      decodeFrame_def honestDemo_def demoLib_def)

section \<open>The transcriber's part of a dictation\<close>

text \<open>An envelope the transcriber can write, with its frame.\<close>

definition written :: "Protobuf \<Rightarrow> Envelope \<Rightarrow> byte list \<Rightarrow> bool" where
  "written pb env frame \<longleftrightarrow> envelope_serialises pb env \<and> write_envelope pb env = Inr frame"

lemma written_parts:
  assumes "written pb env frame"
  shows "envelope_serialises pb env" "encodeFrame pb env = Inr frame" "0 < ByteSizeLong pb env"
  using assms written_encodes [of pb env frame] by (simp_all add: written_def)

lemma read_written: "written pb env frame \<Longrightarrow> read_envelope pb (frame @ rest) = Inr (env, rest)"
  by (rule read_encoded) (simp_all add: written_parts)

text \<open>Both sides compute HMAC with SHA-256.\<close>

definition hmac_agrees :: "'f PyLib \<Rightarrow> 'g OpenSSL \<Rightarrow> bool" where
  "hmac_agrees P ssl \<longleftrightarrow> (\<forall>k m. HMAC_sha256 ssl k m = Some (hmac_sha256 P k m))"

definition answerTo :: "'f PyLib \<Rightarrow> string \<Rightarrow> Nonce \<Rightarrow> byte list \<Rightarrow> ServerHelloMsg" where
  "answerTo P token nonce server_nonce =
     \<lparr>sh_protocol_version = PROTOCOL_VERSION, sh_accepted = True, sh_error_message = [],
      sh_server_nonce = string_of_bytes server_nonce,
      sh_proof = string_of_bytes (compute_server_proof P token nonce server_nonce)\<rparr>"

lemma answer_authentic:
  assumes "hmac_agrees P (openssl L)" "length server_nonce = kNonceSize"
    and "length (authToken config) \<le> maxInt"
  shows "helloAuthentic L config nonce (answerTo P (authToken config) nonce server_nonce)"
  using assms
  by (simp add: helloAuthentic_def answerTo_def hmac_agrees_def compute_server_proof_def
      proofMessage_def SERVER_PROOF_LABEL_def kServerProofLabel_def PROTOCOL_VERSION_def
      kProtocolVersion_def)

definition freshSession :: "'f PyLib \<Rightarrow> string \<Rightarrow> 'f PeerSession" where
  "freshSession P sid = \<lparr>ps_session_id = sid, ps_sequence_no = 1, ps_elapsed = zeroElapsed P,
     ps_draining = False\<rparr>"

lemma transcribe_answers:
  assumes "written (pyProtobuf P) (clientHelloEnvelope nonce) hello" "length nonce = kNonceSize"
    and "written (pyProtobuf P) (StartSession \<lparr>ss_session_id = sid\<rparr>) start"
      "length sid = kSessionIdSize"
    and "peerMode peer = ResultMode" "peerSession peer = None" "n < 2 ^ 64"
  shows "transcribe P server_nonce n peer (hello @ start) =
    Inr (ServerHello (answerTo P (peerToken peer) nonce server_nonce),
         map (CommitTextPayload \<circ> tickMessage P (freshSession P sid)) [0..<n])"
proof -
  have "handle_hello P peer server_nonce (clientHelloEnvelope nonce) =
      Inr (ServerHello (answerTo P (peerToken peer) nonce server_nonce), True)"
    using assms(2) by (simp add: handle_hello_def clientHelloEnvelope_def answerTo_def
        PROTOCOL_VERSION_def kProtocolVersion_def kNonceSize_def)
  moreover have "read_envelope (pyProtobuf P) start = Inr (StartSession \<lparr>ss_session_id = sid\<rparr>, [])"
    using read_written [OF assms(3), of "[]"] by simp
  moreover have "handle_message P (StartSession \<lparr>ss_session_id = sid\<rparr>) peer =
      Inr (peer\<lparr>peerSession := Some (freshSession P sid)\<rparr>)"
    using assms(4,6) by (simp add: peer_defs freshSession_def kSessionIdSize_def)
  moreover have "session_turns P n (peer\<lparr>peerSession := Some (freshSession P sid)\<rparr>) =
      Inr (map (CommitTextPayload \<circ> tickMessage P (freshSession P sid)) [0..<n])"
    using assms(5,7) by (intro session_turns_result) (simp_all add: freshSession_def)
  ultimately show ?thesis
    by (simp add: transcribe_def read_written [OF assms(1)])
qed

lemma numbered_map:
  "(\<And>i. i < n \<Longrightarrow> ct_session_id (f i) = sid \<and> ct_sequence_no (f i) = k + of_nat i) \<Longrightarrow>
     numbered sid k (map f [0..<n])"
proof (induction n arbitrary: f k)
  case 0
  then show ?case by simp
next
  case (Suc n)
  have "numbered sid (k + 1) (map (f \<circ> Suc) [0..<n])"
    using Suc.prems by (intro Suc.IH) (auto simp: algebra_simps)
  moreover have "[0..<Suc n] = 0 # map Suc [0..<n]" by (simp add: map_Suc_upt upt_conv_Cons)
  ultimately show ?case using Suc.prems [of 0] by (simp del: upt_Suc)
qed

lemma ticks_numbered:
  "numbered sid 1 (map (tickMessage P (freshSession P sid)) [0..<n])"
  by (rule numbered_map) (simp add: tickMessage_def freshSession_def)

lemma ticks_framed:
  assumes "list_all2 (written (protobuf L)) (map (CommitTextPayload \<circ> f) is) frames"
  shows "list_all2 (framed L) (map f is) frames"
  using assms by (auto simp: list_all2_map1 framed_def written_parts elim!: list_all2_mono)

section \<open>A library and a world for both programs\<close>

definition partnerPy :: "unit PyLib" where
  "partnerPy = \<lparr>pyProtobuf =
       \<lparr>ByteSizeLong = (\<lambda>e. 1),
        SerializeToArray = (\<lambda>e. case e of ServerHello _ \<Rightarrow> Some [5] | CommitTextPayload _ \<Rightarrow> Some [6]
          | StartSession _ \<Rightarrow> Some [7] | InterruptSession _ \<Rightarrow> Some [9] | _ \<Rightarrow> Some [8]),
        ParseFromArray = (\<lambda>bs.
          if bs = [5] then Some (ServerHello \<lparr>sh_protocol_version = PROTOCOL_VERSION,
            sh_accepted = True, sh_error_message = [],
            sh_server_nonce = string_of_bytes (replicate 32 9), sh_proof = string_of_bytes [1, 2]\<rparr>)
          else if bs = [6] then Some (CommitTextPayload \<lparr>ct_session_id = string_of_bytes
            [4, 4, 4, 4, 4, 4, 0x44, 4, 0x84, 4, 4, 4, 4, 4, 4, 4], ct_sequence_no = 1,
            ct_text = ''1''\<rparr>)
          else if bs = [7] then Some (StartSession \<lparr>ss_session_id = string_of_bytes
            [4, 4, 4, 4, 4, 4, 0x44, 4, 0x84, 4, 4, 4, 4, 4, 4, 4]\<rparr>)
          else if bs = [9] then Some (InterruptSession \<lparr>is_session_id = string_of_bytes
            (replicate 16 65), is_reason = INTERRUPT_REASON_TOGGLE\<rparr>)
          else Some (clientHelloEnvelope (replicate 32 4))),
        hostEndian = LittleEndian\<rparr>,
     hmac_sha256 = (\<lambda>k m. [1, 2]), zeroElapsed = (), addInterval = id, formatG = (\<lambda>x. ''1'')\<rparr>"

definition partnerLib :: "unit IoLib" where
  "partnerLib = demoLib\<lparr>protobuf := pyProtobuf partnerPy,
     openssl := (openssl demoLib)\<lparr>HMAC_sha256 := (\<lambda>k m. Some [1, 2])\<rparr>\<rparr>"

definition partnerWorld :: "(nat, nat, nat, nat, nat, unit, unit) AddonWorld" where
  "partnerWorld = ownWorld\<lparr>protobufLib := pyProtobuf partnerPy\<rparr>"

definition partnerId :: SessionId where
  "partnerId = [4, 4, 4, 4, 4, 4, 0x44, 4, 0x84, 4, 4, 4, 4, 4, 4, 4]"

lemma partnerWorld_sel [simp]:
  "objectAt partnerWorld = [42 \<mapsto> 1]" "hasFocus partnerWorld p" "checkKeyList partnerWorld k ks"
  "configWorld partnerWorld = exampleWorld" "quiet partnerLib partnerWorld"
  "ownGenerator (openssl demoLib) (engineDeps partnerWorld)"
  by (simp_all add: partnerWorld_def partnerLib_def ownWorld_def honestWorld_def demoWorld_def
      exampleAddonWorld_def quiet_def ownGenerator_def)

lemma partner_id: "sessionIdGenerator (engineDeps partnerWorld) g = (Inr partnerId, g)"
  by (simp add: partnerWorld_def ownWorld_def demoLib_def generateSessionId_def Let_def
      partnerId_def kSessionIdSize_def upt_rec map_replicate_const)

lemma partner_facts:
  "memcmp_exact (openssl partnerLib)" "endpointError partnerLib file = None"
  "protobuf partnerLib = pyProtobuf partnerPy" "hmac_agrees partnerPy (openssl partnerLib)"
  "generateNonce (openssl partnerLib) g = (Inr (replicate 32 4), g)"
  by (simp_all add: partnerLib_def demoLib_def memcmp_exact_def generateNonce_def kNonceSize_def
      map_replicate_const hmac_agrees_def partnerPy_def)

lemma partner_written:
  "written (pyProtobuf partnerPy) (clientHelloEnvelope (replicate 32 4)) [0, 0, 0, 1, 8]"
  "written (pyProtobuf partnerPy) (StartSession \<lparr>ss_session_id = string_of_bytes partnerId\<rparr>) [0, 0, 0, 1, 7]"
  "written (pyProtobuf partnerPy)
     (ServerHello (answerTo partnerPy token (replicate 32 4) (replicate 32 9))) [0, 0, 0, 1, 5]"
  "written (pyProtobuf partnerPy)
     (CommitTextPayload (tickMessage partnerPy (freshSession partnerPy (string_of_bytes partnerId)) 0))
     [0, 0, 0, 1, 6]"
  "written (pyProtobuf partnerPy) (InterruptSession \<lparr>is_session_id = string_of_bytes
     (replicate 16 65), is_reason = INTERRUPT_REASON_TOGGLE\<rparr>) [0, 0, 0, 1, 9]"
  by (simp_all add: written_def envelope_serialises_def write_envelope_def partnerPy_def
      clientHelloEnvelope_def answerTo_def compute_server_proof_def tickMessage_def
      freshSession_def partnerId_def MAX_FRAME_SIZE_def packI_def bytesLE_def)

end
