(* ===== verification/Spec2Isabelle.thy ===== *)
theory Spec2Isabelle
  imports Engine_Spec Channel Io_Order Io_Stop Settings Partners
begin

text \<open>
  fcitx5-scribe: an fcitx5 addon that types the output of a separate speech transcriber into
  the focused application. The addon and the transcriber talk over a local socket; the key the
  user configures starts and ends a session.

  \<^bold>\<open>The program and its parts.\<close> The addon is under \<open>src/src/addon/\<close>, the messages
  under \<open>src/src/proto/scribe/v0/scribe.proto\<close>.
  \<^item> \<open>addon.cpp\<close>, class \<open>Addon\<close>: runs on the fcitx thread. It turns fcitx's callbacks into
    engine events, gives input contexts opaque ids, and performs the engine's effects: commits
    text, accepts keys, calls the transport, logs.
  \<^item> \<open>engine.cpp\<close>, class \<open>Engine\<close>: the session state machine, a function from an event to
    effects. It knows neither fcitx nor the socket.
  \<^item> \<open>io.cpp\<close>, class \<open>Io\<close>: a worker thread that owns the socket. It takes commands from a
    bounded channel and reports back through callbacks that fcitx's dispatcher runs on the fcitx
    thread. Its coroutines interleave at every \<open>co_await\<close>.
  \<^item> \<open>config.cpp\<close>: the persisted configuration, environment overrides, the connection settings.
  \<^item> \<open>protocol.cpp\<close>, \<open>util.cpp\<close>, \<open>error.hpp\<close>, \<open>types.hpp\<close>: session ids, nonces, the
    authentication proof, framing, and shared types.
  \<^item> \<open>src/tools/poc_transcriber.py\<close>: the transcriber used in development, the other end of the
    socket; in Python.

  \<^bold>\<open>Theories.\<close> A function keeps its C++ name; a constructor, an overload or a coroutine segment
  has the name its theory gives it.
  \<^item> \<open>Prelude\<close>: machine integers, byte strings, decimal printing, the rule collections, and the
    contracts of event-driven machines (locales \<open>machine\<close>, \<open>monitored_machine\<close>,
    \<open>refined_machine\<close>).
  \<^item> \<open>Errors\<close>, \<open>Messages\<close>, \<open>Util\<close>: \<open>error.hpp\<close> and \<open>types.hpp\<close>; \<open>scribe.proto\<close>;
    \<open>util.cpp\<close>.
  \<^item> \<open>Protocol\<close>: \<open>protocol.cpp\<close>. Locale \<open>length_prefix\<close>, interpreted on the big-endian size
    prefix for both host byte orders; round trip and unambiguity of framing.
  \<^item> \<open>Engine\<close>: \<open>engine.cpp\<close>, one definition per member function. \<open>Engine_Inv\<close>: its invariant,
    preserved handler by handler, and what one event can do. \<open>Engine_Spec\<close>: an abstract session
    machine with four phases, and the simulation. \<open>Engine_Trace\<close>: two monitors that see only
    events and effects (the wire, the keyboard) and accept every run; batches of commits
    against a list function.
  \<^item> \<open>Config\<close>: \<open>config.cpp\<close>, its invariant, and what resolved settings contain.
  \<^item> \<open>Io\<close>: \<open>io.cpp\<close>. A coroutine is cut at each \<open>co_await\<close> into definitions that run from one
    suspension to the next; a \<open>Task\<close> is a coroutine that waits. \<open>Io_Safety\<close>: the step relation
    \<open>ioStep\<close>, all executions, authentication before traffic, bounds, and the schedules on which
    the code misbehaves. \<open>Io_Flow\<close>: the handshake with an honest peer, the read loop on a stream
    of frames, the write loop's order and progress. \<open>Io_Stop\<close>: after \<open>stop()\<close> the receive loop
    ends, and nothing runs once the context is halted. \<open>Io_Wire\<close>: the reports mirror the
    connection, and what is ever written. \<open>Io_Order\<close>: the schedules in which a coroutine is
    entered before the next command, in which frames of the session are only written after the
    connection they go to has authenticated. \<open>Channel\<close>: the calls of the fcitx thread under the
    contract of a bounded queue (locale \<open>bounded_queue\<close>).
  \<^item> \<open>Registry\<close>: the context ids of \<open>addon.cpp\<close> (locale \<open>context_registry\<close>). \<open>Addon\<close>: the
    rest of \<open>addon.cpp\<close>. \<open>Addon_Props\<close>: a dispatch is a run of the engine; key acceptance,
    commits, dead contexts, refused calls, and what the log can show.
  \<^item> \<open>System\<close>: the addon, the worker and the dispatcher together; every reachable system with
    its transport execution and its log. During a callback the worker takes only steps of its
    own, and the callback only makes calls that its configuration allows, which is proved of
    every handler. \<open>Play\<close>: a player of turns whose runs are reachable systems. \<open>Dictation\<close>: the
    turns from a press of the key over the handshake to the text, and of the press that ends the
    session. \<open>Settings\<close>: what \<open>setConfig\<close> saves is what the next start of the program loads.
    \<open>Sizes\<close>: what
    \<open>std::array\<close> guarantees, as an invariant of the model's lists. \<open>Demo\<close>: concrete systems,
    one of them played from construction to the committed text.
  \<^item> \<open>Transcriber\<close>: one connection of \<open>poc_transcriber.py\<close>. \<open>Conversation\<close>: the engine and the
    transcriber with a queue in each direction, where messages may cross; the invariant that
    keeps them in step as long as the transcriber's writes drain before its next message comes,
    and the run in which one does not. \<open>Partners\<close>: the two framings agree, and what the transcriber answers to
    the addon's bytes.
  \<^item> This theory: the properties that span all of it.

  \<^bold>\<open>State.\<close> A class is a record with its members; a \<open>std::optional\<close> is an option, an
  \<open>unordered_map\<close> a map, the \<open>bimap\<close> an association list, \<open>uint64_t\<close> and \<open>uint32_t\<close> are words
  that wrap, \<open>std::expected\<close> is a sum with the error on the left. A member function returns the
  new state with what it put out. Reading an empty optional or popping an empty deque is the
  result \<^term>\<open>None\<close> of \<open>resume\<close>.

  \<^bold>\<open>Bounds and termination.\<close> There is no fuel. The dispatch loop terminates by the weight of its
  queue (a transport failure 1, a dead context 2, other events 3: an event's effects can only
  queue something lighter), hence at most two follow-ups. The write loop's progress is a measure
  on queued commands and frames; the receive loop makes at most one turn after \<open>stop()\<close>.
  Context ids are 64-bit and their uniqueness is stated for fewer operations than the counter
  can number; sequence numbers wrap as in the code.

  \<^bold>\<open>Parameters.\<close> Code that is not in the repository is a parameter: OpenSSL's generator, HMAC and
  constant-time comparison; the generated protobuf classes; boost's UUID printer; the
  environment, \<open>wordexp\<close> and fcitx's configuration readers; fcitx's objects, focus and key
  matching; which coroutine of asio continues next and how its operation ended. Documented
  behaviours are hypotheses where they are needed: a serialised envelope parses back to itself
  (\<open>envelope_serialises\<close>), and \<open>CRYPTO_memcmp\<close> returns zero exactly on equal buffers
  (\<open>memcmp_exact\<close>). Where both programs meet, OpenSSL's HMAC and Python's agree
  (\<open>hmac_agrees\<close>), and ids drawn at random on one connection differ.

  \<^bold>\<open>Defects the model shows.\<close> A write or handshake that completes just before a disconnect
  command is handled runs into undefined behaviour; a cancelled coroutine closes the connection
  that replaced its own; a late close report cancels the start the user has just made; the
  transcriber refuses the next session while its last message drains. Each is a theorem with the
  schedule that leads there. One more depends on asio: were a spawned coroutine entered only
  after a later command, a write loop could send a frame of the session over a connection that has
  not authenticated (\<open>late_start_unauthenticated\<close>); the guards of \<open>io.cpp\<close> do not exclude it, the
  order in which asio enters what it is given does.

  \<^bold>\<open>Not modelled.\<close> \<open>factory.cpp\<close> (constructs the addon for fcitx's loader). The destructors:
  \<open>stop()\<close> is modelled, in two steps because the worker moves between them, and \<open>Io::~Io\<close>
  then joins the worker; the addon's callbacks are not scheduled past it, because they are
  tied to the destroyed object. The data race of \<open>stop()\<close> closing the socket from another
  thread. fcitx, asio and the C library beyond the parameters above, so connection timeouts are
  one of the outcomes an operation may have. Accessors that only return a member and that the addon does not
  use are the record's fields. The transcriber's arguments, listening socket and signals, how it
  closes a connection, and the tests.
\<close>

section \<open>Properties of the whole program\<close>

text \<open>
  C1. Everything the program ever types into an application was received, in that order and
  each message at most once, from an authenticated transcriber: the committed texts are a
  subsequence of the CommitText messages the transport published, and each was read as a frame on
  a connection whose peer proved knowledge of a token that the user's configuration and
  environment gave for that connection.
\<close>

theorem committed_text_is_authentic:
  assumes "memcmp_exact (openssl L)" and "reachable L s tr log"
  shows "subseq (committed (allOuts log)) (eventTexts (published (outputs tr))) \<and>
    (\<forall>t \<in> set (committed (allOuts log)). authenticText L tr log t)"
proof -
  from reachable_inv [OF assms(2)] have ex: "execution L (addonIo (sysAddon s)) tr"
    and q: "published (outputs tr) = delivered log @ dispatcher s"
    and sub: "subseq (committed (allOuts log)) (eventTexts (delivered log))" by auto
  have sub': "subseq (committed (allOuts log)) (eventTexts (published (outputs tr)))"
    unfolding q eventTexts_append by (rule list_emb_prefix [OF sub])
  moreover have "authenticText L tr log t" if "t \<in> set (committed (allOuts log))" for t
  proof -
    from list_emb_set [OF sub' that] have "t \<in> set (eventTexts (published (outputs tr)))" by auto
    then obtain m where t: "t = ct_text m" "IoCommitText m \<in> set (published (outputs tr))"
      by (auto simp: eventTexts_set)
    then obtain l out where "(l, out) \<in> set tr" "Publish (IoCommitText m) \<in> set out"
      by (auto simp: published_outputs)
    from published_authentic [OF assms(1) ex reachable_calls [OF assms(2)] this] t(1) show ?thesis by simp
  qed
  ultimately show ?thesis by blast
qed

theorem committed_text_is_authentic_witness:
  "\<exists>s tr (log :: (nat, nat, nat, nat, nat, unit, unit) log).
     reachable demoLib s tr log \<and> committed (allOuts log) = [''hi''] \<and>
     authenticText demoLib tr log ''hi''"
proof -
  have "memcmp_exact (openssl demoLib)" by (simp add: memcmp_exact_def demoLib_def)
  with demo_reachable committed_text_is_authentic show ?thesis
    by (metis list.set_intros(1))
qed

lemma closed_while_connecting:
  assumes "connectionState (addonEngine a) = kConnecting" and "pendingContext (addonEngine a) = Some c"
  shows "\<exists>a' out. addonStep (W, CallbackOp IoClosed) a = (a', out) \<and> addonIo a' = addonIo a \<and>
    connectionState (addonEngine a') = kDisconnected \<and> pendingContext (addonEngine a') = None"
  using assms
  by (simp add: dispatch_def dispatchOne_def handle_def engine_defs emit_def Let_def)

text \<open>
  C9. The transport's reports carry no generation, and a late one hits the next connection. When
  the configuration is reloaded while the connection is ready and the key is pressed again
  before the worker has moved, the worker closes the old connection and begins the new one; the
  report of the old close is then delivered while the engine waits for the new connection, and
  cancels it: the accepted key press is lost, with the transport still connecting.
\<close>

theorem late_close_cancels_new_start:
  assumes "engineInv (addonEngine a)" and "connectionState (addonEngine a) = kReady"
    and "quiet L W" and "hasFocus W p" and "cfg = configLoad (configWorld W) (addonConfig a)"
    and "resolveConnectionConfig (configWorld W) cfg = Inr r"
    and "checkKeyList W key (toggleTranscriptionKeys (configData cfg))"
    and "connected (addonIo a)" "commands (addonIo a) = []" "operating (addonIo a)"
  shows "\<exists>s out. playAll L W [Fcitx ReloadConfigOp, Fcitx (KeyOp False key (Some p)),
      WorkerDoes Take, WorkerDoes Take, DeliverNext] \<lparr>sysAddon = a, dispatcher = []\<rparr> = Some (s, out) \<and>
    FilterAndAccept \<in> set out \<and>
    connectionState (addonEngine (sysAddon s)) = kDisconnected \<and>
    pendingContext (addonEngine (sysAddon s)) = None \<and>
    connectionActive (addonIo (sysAddon s)) \<and>
    (ConnStart (generationCounter (addonIo a) + 1) (connection r), True)
      \<in> set (tasks (addonIo (sysAddon s)))"
proof -
  let ?io = "addonIo a"
  obtain a1 out1 where 1: "addonStep (W, ReloadConfigOp) a = (a1, out1)"
    and a1: "addonConfig a1 = cfg" "connectionState (addonEngine a1) = kDisconnected"
      "connectionConfig (addonEngine a1) \<noteq> None" "engineInv (addonEngine a1)"
      "addonIo a1 = ?io\<lparr>commands := [DisconnectCommand]\<rparr>"
    using reload_queues_disconnect [OF assms(1-3,5,6,9,10)] by blast
  obtain a2 c where 2: "addonStep (W, KeyOp False key (Some p)) a1 = (a2, [FilterAndAccept])"
    and a2: "connectionState (addonEngine a2) = kConnecting" "pendingContext (addonEngine a2) = Some c"
      "addonIo a2 = ?io\<lparr>commands := [DisconnectCommand, ConnectCommand (connection r)]\<rparr>"
    using press_queues_connect [OF a1(4,2,3) assms(3,4)] a1(1,5) assms(5-7,10)
    by (force simp: operating_def)
  obtain io4 where io4: "connectionActive io4"
      "(ConnStart (generationCounter ?io + 1) (connection r), True) \<in> set (tasks io4)"
    and w: "playAll L W [WorkerDoes Take, WorkerDoes Take] \<lparr>sysAddon = a2, dispatcher = []\<rparr> =
      Some (\<lparr>sysAddon = a2\<lparr>addonIo := io4\<rparr>, dispatcher = [IoClosed]\<rparr>, [])"
    using worker_takes_both [of a2 "connection r" L W] a2(3) assms(8,10)
    by (auto simp: operating_def)
  obtain a5 out5 where 5: "addonStep (W, CallbackOp IoClosed) (a2\<lparr>addonIo := io4\<rparr>) = (a5, out5)"
    and a5: "addonIo a5 = io4" "connectionState (addonEngine a5) = kDisconnected"
      "pendingContext (addonEngine a5) = None"
    using closed_while_connecting [of "a2\<lparr>addonIo := io4\<rparr>" c W] a2(1,2)
    by (auto simp del: addonStep.simps handleCommand.simps)
  have press: "playAll L W [Fcitx ReloadConfigOp, Fcitx (KeyOp False key (Some p))]
      \<lparr>sysAddon = a, dispatcher = []\<rparr> =
      Some (\<lparr>sysAddon = a2, dispatcher = []\<rparr>, out1 @ [FilterAndAccept])"
    using 1 2 by (simp del: addonStep.simps)
  have "playAll L W [DeliverNext] \<lparr>sysAddon = a2\<lparr>addonIo := io4\<rparr>, dispatcher = [IoClosed]\<rparr> =
      Some (\<lparr>sysAddon = a5, dispatcher = []\<rparr>, out5)"
    using 5 by (simp del: addonStep.simps)
  from playAll_then [OF press playAll_then [OF w this]] a5 io4 show ?thesis by auto
qed

theorem late_close_cancels_new_start_witness:
  "\<exists>s out. playAll demoLib demoWorld [Fcitx ReloadConfigOp, Fcitx (KeyOp False 0 (Some 42)),
      WorkerDoes Take, WorkerDoes Take, DeliverNext] \<lparr>sysAddon = lateAddon, dispatcher = []\<rparr> =
      Some (s, out) \<and> FilterAndAccept \<in> set out \<and> pendingContext (addonEngine (sysAddon s)) = None"
proof -
  obtain r where "resolveConnectionConfig (configWorld demoWorld)
     (configLoad (configWorld demoWorld) (addonConfig lateAddon)) = Inr r"
    using lateAddon_resolves by blast
  from late_close_cancels_new_start [OF lateAddon_ready(1,2) demo_quiet _ refl this _
      lateAddon_ready(3-5), of 42 0]
  show ?thesis by auto
qed

text \<open>
  C2. Dictation arrives: while a session is active in a context whose object lives, and the read
  loop waits, any sequence of that session's CommitText messages, framed and received whole, is
  typed into exactly that object, all of it, in order, message by message; no turn of the
  worker or of the dispatcher on the way can be refused.
\<close>

theorem dictation_is_typed:
  assumes "engineInv (addonEngine a)" and "session (addonEngine a) = Some s"
    and "contextsById a (sess_context s) = Some (p, Some ob)" and "objectAt W p = Some ob"
    and "readerWaiting g (addonIo a)"
    and "numbered (string_of_bytes (sess_id s)) (nextSequenceNo s) ms"
    and "list_all2 (framed L) ms frames"
  shows "\<exists>a'. playAll L W (commitTurns frames) \<lparr>sysAddon = a, dispatcher = []\<rparr> =
    Some (\<lparr>sysAddon = a', dispatcher = []\<rparr>, map (\<lambda>m. CommitString p (ct_text m)) ms)"
  by (rule frames_typed [OF assms])

theorem dictation_is_typed_witness:
  "\<exists>a'. playAll dictationLib demoWorld (map WorkerDoes (arrival [0, 0, 0, 1, 6]) @ [DeliverNext])
      \<lparr>sysAddon = lateAddon, dispatcher = []\<rparr> =
    Some (\<lparr>sysAddon = a', dispatcher = []\<rparr>, [CommitString 42 ''hi''])"
  using dictation_is_typed [OF lateAddon_ready(1) lateAddon_session(1), of 42 1 demoWorld 1
      "[demoMessage]" dictationLib "[[0, 0, 0, 1, 6]]"]
    lateAddon_session(2,3) dictationLib_frames
  by (simp add: demoMessage_def framed_def commitTurns_def)

text \<open>
  C3. From the key to the text: while the addon is idle with a usable configuration, a press of
  the key in a focused context, followed by the turns of a handshake with a transcriber that
  knows the token, starts a session there, and whatever that transcriber then sends in the
  session's CommitText frames is typed into the object the key was pressed in, completely and
  in order. The press is consumed and nothing else is committed; no turn can be refused.
\<close>

theorem press_to_text:
  assumes "engineInv (addonEngine a)" "connectionState (addonEngine a) = kDisconnected"
    and "connectionConfig (addonEngine a) \<noteq> None"
    and "resolveConnectionConfig (configWorld W) (addonConfig a) = Inr r"
    and "quiet L W" "hasFocus W p" "objectAt W p = Some ob"
    and "checkKeyList W key (toggleTranscriptionKeys (configData (addonConfig a)))"
    and "registryInv a" "\<And>c. findContextId p a = Some c \<Longrightarrow> contextsById a c = Some (p, Some ob)"
    and "operating (addonIo a)" "tasks (addonIo a) = []" "commands (addonIo a) = []"
      "outgoingFrames (addonIo a) = []" "\<not> writerRunning (addonIo a)"
      "\<not> connectionActive (addonIo a)"
    and "memcmp_exact (openssl L)" "endpointError L (socketPath (connection r)) = None"
    and "generateNonce (openssl L) (randState (addonIo a)) = (Inr nonce, g)"
    and "encodeFrame (protobuf L) (clientHelloEnvelope nonce) = Inr hello"
    and "helloAuthentic L (connection r) nonce reply"
    and "envelope_serialises (protobuf L) (ServerHello reply)"
      "encodeFrame (protobuf L) (ServerHello reply) = Inr bytes"
      "0 < ByteSizeLong (protobuf L) (ServerHello reply)"
    and "sessionIdGenerator (engineDeps W) (genState (addonEngine a)) = (Inr sid, g')"
    and "encodeFrame (protobuf L) (StartSession \<lparr>ss_session_id = string_of_bytes sid\<rparr>) = Inr start"
    and "numbered (string_of_bytes sid) 1 ms" "list_all2 (framed L) ms frames"
  shows "\<exists>s pre. playAll L W (startTurns key p bytes @ commitTurns frames)
      \<lparr>sysAddon = a, dispatcher = []\<rparr> =
      Some (s, pre @ map (\<lambda>m. CommitString p (ct_text m)) ms) \<and>
    FilterAndAccept \<in> set pre \<and> committed pre = []"
  by (rule press_types [OF assms])

theorem press_to_text_witness:
  "\<exists>s pre. playAll honestDemo honestWorld (startTurns 0 42 [0, 0, 0, 1, 5] @
      commitTurns [[0, 0, 0, 1, 6]]) \<lparr>sysAddon = demoAddon1, dispatcher = []\<rparr> =
    Some (s, pre @ [CommitString 42 ''hi'']) \<and> FilterAndAccept \<in> set pre \<and> committed pre = []"
  using press_to_text [of demoAddon1 honestWorld _ honestDemo 42 1 0 "replicate 32 4" "()"
      "[0, 0, 0, 1, 7]" exampleHello "[0, 0, 0, 1, 5]" "replicate 16 65" "()" "[0, 0, 0, 1, 7]"
      "[demoMessage]" "[[0, 0, 0, 1, 6]]"]
    honestDemo_facts demoAddon1_facts demo_resolves(2)
  by (simp add: demoMessage_def exampleDeps_def)



text \<open>
  C5. The second press stops the dictation on both sides: while a session runs, a press of the key
  in any context is consumed, commits nothing and ends the session in the engine; the worker
  then writes exactly one frame, the InterruptSession of that session; and when the repository's
  transcriber, serving that session, reads it, it accepts the message and its session is over,
  so that its task writes nothing more, whatever its mode. Until then nothing can be refused.
\<close>

theorem second_press_stops:
  assumes "engineInv (addonEngine a)" and "session (addonEngine a) = Some s"
    and "quiet L W" "checkKeyList W key (toggleTranscriptionKeys (configData (addonConfig a)))"
    and "operating (addonIo a)" "connected (addonIo a)" "readerWaiting g (addonIo a)"
      "commands (addonIo a) = []" "outgoingFrames (addonIo a) = []" "\<not> writerRunning (addonIo a)"
    and "stopMessage = InterruptSession \<lparr>is_session_id = string_of_bytes (sess_id s),
      is_reason = INTERRUPT_REASON_TOGGLE\<rparr>"
      "written (protobuf L) stopMessage stop" "pyProtobuf P = protobuf L"
    and "length (sess_id s) = 16" "peerSession peer = Some ps"
      "ps_session_id ps = string_of_bytes (sess_id s)"
  shows "\<exists>a1 out io2 tr2 peer'.
    addonStep (W, KeyOp False key (Some p)) a = (a1, out) \<and>
    FilterAndAccept \<in> set out \<and> committed out = [] \<and>
    session (addonEngine a1) = None \<and> connectionState (addonEngine a1) = kReady \<and>
    schedule L sendTurns (addonIo a1, tr) = Some (io2, tr2) \<and>
    outputs tr2 = outputs tr @ [StartWrite stop] \<and> readerWaiting g io2 \<and>
    read_envelope (pyProtobuf P) (stop @ rest) = Inr (stopMessage, rest) \<and>
    handle_message P stopMessage peer = Inr peer' \<and>
    peerSession peer' = None \<and> run_session P ps peer' = Inr (None, peer')"
proof -
  obtain a1 out where 1: "addonStep (W, KeyOp False key (Some p)) a = (a1, out)"
      "FilterAndAccept \<in> set out" "committed out = []"
    and a1: "session (addonEngine a1) = None" "connectionState (addonEngine a1) = kReady"
      "addonIo a1 = (addonIo a)\<lparr>commands := [SendCommand stop]\<rparr>"
    using press_ends_session [OF assms(1-4) _ assms(6,5,8)] written_parts(2) [OF assms(12)]
      assms(11) by blast
  obtain io2 tr2 where 2: "schedule L sendTurns (addonIo a1, tr) = Some (io2, tr2)"
      "outputs tr2 = outputs tr @ [StartWrite stop]" "readerWaiting g io2"
    using send_written [of g "addonIo a1" stop L tr] a1(3) assms(5-7,9,10)
    by (auto simp: readerWaiting_def operating_def)
  have "read_envelope (pyProtobuf P) (stop @ rest) = Inr (stopMessage, rest)"
    using read_written assms(12,13) by simp
  moreover have "handle_message P stopMessage peer = Inr (clear_session peer)"
    using assms(11,14-16) by (simp add: handle_message_def handle_interrupt_def)
  moreover have "run_session P ps (clear_session peer) = Inr (None, clear_session peer)"
    by (simp add: run_session_def clear_session_def)
  ultimately show ?thesis
    using 1 a1(1,2) 2 by (simp add: clear_session_def)
qed

theorem second_press_stops_witness:
  "\<exists>a1 out. addonStep (partnerWorld, KeyOp False 0 (Some 42)) lateAddon = (a1, out) \<and>
     FilterAndAccept \<in> set out \<and> session (addonEngine a1) = None"
proof -
  let ?ps = "freshSession partnerPy (string_of_bytes (replicate 16 65))"
  let ?peer = "(initPeer '''' ResultMode)\<lparr>peerSession := Some ?ps\<rparr>"
  have stop: "written (protobuf partnerLib) (InterruptSession \<lparr>is_session_id = string_of_bytes
      (sess_id \<lparr>sess_context = 1, sess_id = replicate 16 65, nextSequenceNo = 1\<rparr>),
      is_reason = INTERRUPT_REASON_TOGGLE\<rparr>) [0, 0, 0, 1, 9]"
    using partner_written(5) by (simp add: partner_facts(3))
  have peer: "peerSession ?peer = Some ?ps"
    "ps_session_id ?ps = string_of_bytes
       (sess_id \<lparr>sess_context = 1, sess_id = replicate 16 65, nextSequenceNo = 1\<rparr>)"
    "length (sess_id \<lparr>sess_context = 1, sess_id = replicate 16 65, nextSequenceNo = 1\<rparr>) = 16"
    by (simp_all add: freshSession_def)
  from second_press_stops [OF lateAddon_ready(1) lateAddon_session(1) partnerWorld_sel(5)
      partnerWorld_sel(3) lateAddon_ready(5,3) lateAddon_session(3) lateAddon_ready(4)
      lateAddon_writer refl stop partner_facts(3) [symmetric] peer(3,1,2), of 0 42 "[]" "[]"]
  show ?thesis by (elim exE conjE) (intro exI conjI)
qed





end
